(* ===== verification/Meteor_Prelude.thy ===== *)
theory Meteor_Prelude
  imports Main "HOL-Library.Word" "HOL-Library.While_Combinator"
begin

unbundle bit_operations_syntax

text \<open>
  Prelude of the development: the machine integer types of the C code, the way a C
  function can fail to return normally, the sequencing of such functions, and the
  generic facts on words, loops and results that the component theories share.
\<close>

section \<open>Machine integers\<close>

type_synonym u8 = "8 word"
type_synonym u16 = "16 word"
type_synonym u32 = "32 word"
type_synonym u64 = "64 word"

text \<open>
  C's \<open>int\<close> is modelled as \<^typ>\<open>int\<close> where the code only compares, indexes or adds
  small constants; the conversion to \<open>uint32_t\<close> is \<open>word_of_int\<close>.
\<close>

section \<open>Collections of rewrite rules\<close>

named_theorems field_simps32
  \<open>values of the bit field operations\<close>
named_theorems hw_simps
  \<open>what one operation of the machine does to each component of the machine\<close>
named_theorems pt_simps
  \<open>what the page table operations do to the descriptors\<close>
named_theorems inv_intros
  \<open>operations that keep the invariant of the hypervisor\<close>

section \<open>Failure\<close>

text \<open>
  The debug units of sys/include/debug_utils_settings.h. Every error path of the
  hypervisor is \<open>printb\<close> or \<open>printbi\<close>: print a message for a debug unit and
  \<open>exit\<close>, after which \<open>_exit\<close> never returns.
\<close>

datatype debug_unit_enum =
    d_meteor | d_exception_handler | d_guest | d_guest_rpb | d_scheduler
  | d_hypervisor_call | d_monitor | d_dev_gic2_cpu_if | d_dev_gic2_vctrl
  | d_dev_gic2_dist | d_vdev_rpb_sysctrl | d_vdev_rpb_sysreg | d_vdev_gic2_dist
  | d_vdev_timer | d_pagetable | d_memory_allocator | DEBUG_UNIT_COUNT

text \<open>
  \<open>Exit u msg\<close> is the \<open>printb\<close> of unit \<open>u\<close> with the format string \<open>msg\<close>;
  \<open>OutOfBounds a i\<close> an access beyond the end of the C array \<open>a\<close>, which C leaves
  undefined; \<open>NoReturn f\<close> a loop of function \<open>f\<close> that never ends.
\<close>

datatype fault =
    Exit debug_unit_enum string
  | OutOfBounds string int
  | NoReturn string

type_synonym 'a res = "fault + 'a"

text \<open>Sequencing: the rest of a function runs only if the first part returned.\<close>

fun bindR :: "'a res \<Rightarrow> ('a \<Rightarrow> 'b res) \<Rightarrow> 'b res" where
  "bindR (Inl e) f = Inl e"
| "bindR (Inr x) f = f x"

lemma bindR_cong [fundef_cong]:
  "r = r' \<Longrightarrow> (\<And>x. r' = Inr x \<Longrightarrow> f x = f' x) \<Longrightarrow> bindR r f = bindR r' f'"
  by (cases r') auto

lemma bindR_eq_Inr: "bindR r f = Inr y \<longleftrightarrow> (\<exists>x. r = Inr x \<and> f x = Inr y)"
  by (cases r) auto

lemma bindR_eq_InrE [elim!]:
  assumes "bindR r f = Inr y"
  obtains x where "r = Inr x" and "f x = Inr y"
  using assms by (auto simp: bindR_eq_Inr)

lemma bindR_assoc: "bindR (bindR r f) g = bindR r (\<lambda>x. bindR (f x) g)"
  by (cases r) auto

lemma bindR_eq_Inl: "bindR r f = Inl e \<longleftrightarrow> r = Inl e \<or> (\<exists>x. r = Inr x \<and> f x = Inl e)"
  by (cases r) auto

section \<open>Loops\<close>

text \<open>
  A C loop \<open>for (i = a; i < b; i++) body\<close> whose body may fail, over the list of its
  indices; a body that cannot fail is folded with \<^const>\<open>fold\<close>.
\<close>

fun forR :: "(nat \<Rightarrow> 's \<Rightarrow> 's res) \<Rightarrow> nat list \<Rightarrow> 's \<Rightarrow> 's res" where
  "forR body [] s = Inr s"
| "forR body (k # ks) s = bindR (body k s) (forR body ks)"

lemma forR_append: "forR body (xs @ ys) s = bindR (forR body xs s) (forR body ys)"
proof (induction xs arbitrary: s)
  case (Cons k xs)
  then show ?case by (cases "body k s") simp_all
qed simp

lemma forR_Suc: "forR body [0..<Suc n] s = bindR (forR body [0..<n] s) (body n)"
proof -
  have "bindR r (forR body []) = r" for r :: "'a res" by (cases r) auto
  then have "bindR (body n t) (forR body []) = body n t" for t .
  then show ?thesis by (cases "forR body [0..<n] s") (simp_all add: forR_append)
qed

lemma forR_invariant:
  assumes "\<And>i s t. i \<in> set ks \<Longrightarrow> P s \<Longrightarrow> body i s = Inr t \<Longrightarrow> P t"
    and "forR body ks s = Inr t" and "P s"
  shows "P t"
  using assms by (induction ks arbitrary: s) auto

lemma forR_total:
  assumes "\<And>i s. i \<in> set ks \<Longrightarrow> P s \<Longrightarrow> \<exists>t. body i s = Inr t \<and> P t" and "P s"
  shows "\<exists>t. forR body ks s = Inr t \<and> P t"
  using assms
proof (induction ks arbitrary: s)
  case Nil
  then show ?case by simp
next
  case (Cons k ks)
  obtain u where "body k s = Inr u" and "P u" using Cons.prems by force
  with Cons show ?case by simp
qed

lemma fold_invariant:
  assumes "\<And>i s. i \<in> set ks \<Longrightarrow> P s \<Longrightarrow> P (f i s)" and "P s"
  shows "P (fold f ks s)"
  using assms by (induction ks arbitrary: s) auto

lemma fold_observe:
  assumes "\<And>i s. i \<in> set ks \<Longrightarrow> g (f i s) = g s"
  shows "g (fold f ks s) = g s"
  using assms by (induction ks arbitrary: s) auto

section \<open>Words\<close>

lemma word_or_disjoint_plus:
  fixes a b :: "'a::len word"
  assumes "a AND b = 0"
  shows "a OR b = a + b"
  using assms by (simp add: disjunctive_add_eq_or)

end
