(* ===== verification/Bit_Opt.thy ===== *)
theory Bit_Opt
  imports Meteor_Prelude
begin

text \<open>
  vmm/bit_opt_v2l.c: masks, bit fields and single bits of 32- and 64-bit registers.
  A bit position \<open>uint32_t msb, lsb\<close> is a \<^typ>\<open>nat\<close> here. The C code shifts by
  \<open>31 - msb\<close> and by \<open>lsb\<close>, so it is defined for \<open>lsb, msb \<le> 31\<close> (63 for the 64-bit
  versions) only; every caller of the repository passes such positions.
\<close>

section \<open>The operations\<close>

definition mask32 :: "nat \<Rightarrow> nat \<Rightarrow> u32" where
  "mask32 msb lsb = (push_bit lsb 0xFFFFFFFF) AND (drop_bit (31 - msb) 0xFFFFFFFF)"

definition mask64 :: "nat \<Rightarrow> nat \<Rightarrow> u64" where
  "mask64 msb lsb =
     (push_bit lsb 0xFFFFFFFFFFFFFFFF) AND (drop_bit (63 - msb) 0xFFFFFFFFFFFFFFFF)"

definition get_field :: "u32 \<Rightarrow> nat \<Rightarrow> nat \<Rightarrow> u32" where
  "get_field src msb lsb = drop_bit lsb (src AND mask32 msb lsb)"

definition get_field64 :: "u64 \<Rightarrow> nat \<Rightarrow> nat \<Rightarrow> u64" where
  "get_field64 src msb lsb = drop_bit lsb (src AND mask64 msb lsb)"

definition get_bit :: "u32 \<Rightarrow> nat \<Rightarrow> u32" where
  "get_bit src n = get_field src n n"

definition get_bit64 :: "u64 \<Rightarrow> nat \<Rightarrow> u64" where
  "get_bit64 src n = get_field64 src n n"

definition imask32 :: "nat \<Rightarrow> nat \<Rightarrow> u32" where
  "imask32 msb lsb = NOT (mask32 msb lsb)"

definition imask64 :: "nat \<Rightarrow> nat \<Rightarrow> u64" where
  "imask64 msb lsb = NOT (mask64 msb lsb)"

definition set_field :: "u32 \<Rightarrow> nat \<Rightarrow> nat \<Rightarrow> u32 \<Rightarrow> u32" where
  "set_field src msb lsb field =
     (src AND imask32 msb lsb) OR (push_bit lsb field AND mask32 msb lsb)"

definition set_field64 :: "u64 \<Rightarrow> nat \<Rightarrow> nat \<Rightarrow> u64 \<Rightarrow> u64" where
  "set_field64 src msb lsb field =
     (src AND imask64 msb lsb) OR (push_bit lsb field AND mask64 msb lsb)"

definition set_bit32 :: "u32 \<Rightarrow> nat \<Rightarrow> u32 \<Rightarrow> u32" where
  "set_bit32 src n b = (if b \<noteq> 0 then src OR mask32 n n else src AND imask32 n n)"

definition set_bit64 :: "u64 \<Rightarrow> nat \<Rightarrow> u32 \<Rightarrow> u64" where
  "set_bit64 src n b = (if b \<noteq> 0 then src OR mask64 n n else src AND imask64 n n)"

definition copy_field :: "u32 \<Rightarrow> u32 \<Rightarrow> nat \<Rightarrow> nat \<Rightarrow> u32" where
  "copy_field dst src msb lsb = set_field dst msb lsb (get_field src msb lsb)"

definition copy_bit :: "u32 \<Rightarrow> u32 \<Rightarrow> nat \<Rightarrow> u32" where
  "copy_bit dst src n = set_bit32 dst n (get_bit src n)"

section \<open>The bits of the results\<close>

lemma ones32: "(0xFFFFFFFF :: u32) = - 1" by simp

lemma ones64: "(0xFFFFFFFFFFFFFFFF :: u64) = - 1" by simp

lemma bit_mask32 [field_simps32]:
  "msb < 32 \<Longrightarrow> bit (mask32 msb lsb) n \<longleftrightarrow> lsb \<le> n \<and> n \<le> msb"
  unfolding mask32_def ones32 by (auto simp: bit_simps)

lemma bit_mask64 [field_simps32]:
  "msb < 64 \<Longrightarrow> bit (mask64 msb lsb) n \<longleftrightarrow> lsb \<le> n \<and> n \<le> msb"
  unfolding mask64_def ones64 by (auto simp: bit_simps)

lemma bit_get_field [field_simps32]:
  "msb < 32 \<Longrightarrow> bit (get_field w msb lsb) n \<longleftrightarrow> n + lsb \<le> msb \<and> bit w (n + lsb)"
  by (auto simp: get_field_def bit_simps field_simps32 add.commute)

lemma bit_get_field64 [field_simps32]:
  "msb < 64 \<Longrightarrow> bit (get_field64 w msb lsb) n \<longleftrightarrow> n + lsb \<le> msb \<and> bit w (n + lsb)"
  by (auto simp: get_field64_def bit_simps field_simps32 add.commute)

lemma bit_set_field [field_simps32]:
  "msb < 32 \<Longrightarrow> bit (set_field w msb lsb v) n \<longleftrightarrow>
     (if lsb \<le> n \<and> n \<le> msb then bit v (n - lsb) else bit w n)"
  using bit_imp_le_length [of w n]
  by (auto simp: set_field_def imask32_def bit_simps field_simps32)

lemma bit_set_field64 [field_simps32]:
  "msb < 64 \<Longrightarrow> bit (set_field64 w msb lsb v) n \<longleftrightarrow>
     (if lsb \<le> n \<and> n \<le> msb then bit v (n - lsb) else bit w n)"
  using bit_imp_le_length [of w n]
  by (auto simp: set_field64_def imask64_def bit_simps field_simps32)

lemma bit_set_bit32 [field_simps32]:
  "k < 32 \<Longrightarrow> bit (set_bit32 w k b) n \<longleftrightarrow> (if n = k then b \<noteq> 0 else bit w n)"
  using bit_imp_le_length [of w n]
  by (auto simp: set_bit32_def imask32_def bit_simps field_simps32)

lemma bit_set_bit64 [field_simps32]:
  "k < 64 \<Longrightarrow> bit (set_bit64 w k b) n \<longleftrightarrow> (if n = k then b \<noteq> 0 else bit w n)"
  using bit_imp_le_length [of w n]
  by (auto simp: set_bit64_def imask64_def bit_simps field_simps32)

section \<open>The interface of register fields\<close>

text \<open>
  What the device drivers and the page table code rely on: a field read and a field
  write that act on the bits \<open>msb\<close> down to \<open>lsb\<close> and on no other.
\<close>

locale bit_fields =
  fixes get :: "'a::len word \<Rightarrow> nat \<Rightarrow> nat \<Rightarrow> 'a word"
    and put :: "'a word \<Rightarrow> nat \<Rightarrow> nat \<Rightarrow> 'a word \<Rightarrow> 'a word"
  assumes bit_get: "msb < LENGTH('a) \<Longrightarrow>
      bit (get w msb lsb) n \<longleftrightarrow> n + lsb \<le> msb \<and> bit w (n + lsb)"
    and bit_put: "msb < LENGTH('a) \<Longrightarrow>
      bit (put w msb lsb v) n \<longleftrightarrow> (if lsb \<le> n \<and> n \<le> msb then bit v (n - lsb) else bit w n)"
begin

lemma get_put_same:
  assumes "msb < LENGTH('a)" and "lsb \<le> msb"
  shows "get (put w msb lsb v) msb lsb = take_bit (Suc msb - lsb) v"
  using assms by (intro bit_word_eqI) (auto simp: bit_get bit_put bit_take_bit_iff)

lemma get_put_other:
  assumes "m1 < LENGTH('a)" and "m2 < LENGTH('a)" and "m1 < l2 \<or> m2 < l1"
  shows "get (put w m1 l1 v) m2 l2 = get w m2 l2"
  using assms by (intro bit_word_eqI) (auto simp: bit_get bit_put)

lemma put_get_same:
  assumes "msb < LENGTH('a)"
  shows "put w msb lsb (get w msb lsb) = w"
  using assms by (intro bit_word_eqI) (auto simp: bit_get bit_put)

lemma put_put_same:
  assumes "msb < LENGTH('a)"
  shows "put (put w msb lsb u) msb lsb v = put w msb lsb v"
  using assms by (intro bit_word_eqI) (auto simp: bit_get bit_put)

lemma put_put_inside:
  assumes "m1 < LENGTH('a)" and "m2 < LENGTH('a)" and "l2 \<le> l1" and "m1 \<le> m2"
  shows "put (put w m1 l1 u) m2 l2 v = put w m2 l2 v"
  using assms by (intro bit_word_eqI) (auto simp: bit_get bit_put)

lemma put_put_commute:
  assumes "m1 < LENGTH('a)" and "m2 < LENGTH('a)" and "m1 < l2 \<or> m2 < l1"
  shows "put (put w m1 l1 u) m2 l2 v = put (put w m2 l2 v) m1 l1 u"
  using assms by (intro bit_word_eqI) (auto simp: bit_get bit_put)

lemma get_whole: "get w (LENGTH('a) - 1) 0 = w"
  by (intro bit_word_eqI) (auto simp: bit_get)

lemma take_bit_get:
  assumes "msb < LENGTH('a)"
  shows "take_bit (Suc msb - lsb) (get w msb lsb) = get w msb lsb"
  using assms by (intro bit_word_eqI) (auto simp: bit_get bit_take_bit_iff)

end

interpretation f32: bit_fields get_field set_field
  by unfold_locales (simp_all add: field_simps32)

interpretation f64: bit_fields get_field64 set_field64
  by unfold_locales (simp_all add: field_simps32)

text \<open>A single bit is the field of its own position, as a truth value.\<close>

lemma get_bit_eq: "n < 32 \<Longrightarrow> get_bit w n = (if bit w n then 1 else 0)"
  by (intro bit_word_eqI) (auto simp: get_bit_def field_simps32 bit_simps)

lemma get_bit_neq_0 [field_simps32]: "n < 32 \<Longrightarrow> get_bit w n \<noteq> 0 \<longleftrightarrow> bit w n"
  by (simp add: get_bit_eq)

lemma get_bit_eq_0 [field_simps32]: "n < 32 \<Longrightarrow> get_bit w n = 0 \<longleftrightarrow> \<not> bit w n"
  by (simp add: get_bit_eq)

lemma get_bit64_eq: "n < 64 \<Longrightarrow> get_bit64 w n = (if bit w n then 1 else 0)"
  by (intro bit_word_eqI) (auto simp: get_bit64_def field_simps32 bit_simps)

lemma bit_copy_field [field_simps32]:
  "msb < 32 \<Longrightarrow> bit (copy_field d s msb lsb) n \<longleftrightarrow>
     (if lsb \<le> n \<and> n \<le> msb then bit s n else bit d n)"
  by (auto simp: copy_field_def field_simps32)

lemma bit_copy_bit [field_simps32]:
  "k < 32 \<Longrightarrow> bit (copy_bit d s k) n \<longleftrightarrow> bit (if n = k then s else d) n"
  by (auto simp: copy_bit_def field_simps32)

end
