(* ===== verification/Io.thy ===== *)
theory Io
  imports Bit_Opt
begin

text \<open>
  The machine under the hypervisor and the accesses to it: devices/io.c (volatile loads
  and stores) and devices/rf.c (the banked core registers read by \<open>mrs\<close> and written by
  \<open>msr\<close>). The VMM runs with its MMU off, so every address is physical.

  Memory is a byte store. What answers a volatile load at a device address is hardware,
  not code of this repository, so it is a parameter: \<open>dev\<close> maps the accesses made so
  far and the address to the word the device presents, and is \<open>None\<close> where loads see
  the last value stored. \<open>trace\<close> is the list of accesses, the latest first; devices
  see the stores through it. \<open>shl_over\<close> is what the target's shifter yields for a shift
  count of 32 or more, which C leaves undefined.
\<close>

section \<open>The machine\<close>

datatype io_event =
    ReadB u32 u8 | ReadH u32 u16 | ReadW u32 u32
  | WriteB u32 u8 | WriteH u32 u16 | WriteW u32 u32

datatype banked_reg =
    SP_usr | SP_svc | SP_abt | SP_und | SP_irq | SP_fiq
  | LR_svc | LR_abt | LR_und | LR_irq | LR_fiq
  | SPSR_svc | SPSR_abt | SPSR_und | SPSR_irq | SPSR_fiq
  | ELR_hyp | SPSR_hyp

record machine =
  mem :: "u32 \<Rightarrow> u8"
  dev :: "io_event list \<Rightarrow> u32 \<Rightarrow> u32 option"
  trace :: "io_event list"
  banked :: "banked_reg \<Rightarrow> u32"
  cp15 :: "nat \<times> nat \<times> nat \<times> nat \<Rightarrow> u32" \<comment> \<open>(crn, opc1, crm, opc2)\<close>
  cp15_64 :: "nat \<times> nat \<Rightarrow> u64" \<comment> \<open>(crm, opc1)\<close>
  shl_over :: "u32 \<Rightarrow> nat \<Rightarrow> u32"

section \<open>Little-endian words in the byte store\<close>

definition load16 :: "(u32 \<Rightarrow> u8) \<Rightarrow> u32 \<Rightarrow> u16" where
  "load16 m a = ucast (m a) OR push_bit 8 (ucast (m (a + 1)))"

definition load32 :: "(u32 \<Rightarrow> u8) \<Rightarrow> u32 \<Rightarrow> u32" where
  "load32 m a = ucast (m a) OR push_bit 8 (ucast (m (a + 1)))
     OR push_bit 16 (ucast (m (a + 2))) OR push_bit 24 (ucast (m (a + 3)))"

definition store16 :: "(u32 \<Rightarrow> u8) \<Rightarrow> u32 \<Rightarrow> u16 \<Rightarrow> (u32 \<Rightarrow> u8)" where
  "store16 m a v = m(a := ucast v, a + 1 := ucast (drop_bit 8 v))"

definition store32 :: "(u32 \<Rightarrow> u8) \<Rightarrow> u32 \<Rightarrow> u32 \<Rightarrow> (u32 \<Rightarrow> u8)" where
  "store32 m a v = m(a := ucast v, a + 1 := ucast (drop_bit 8 v),
     a + 2 := ucast (drop_bit 16 v), a + 3 := ucast (drop_bit 24 v))"

section \<open>io.c\<close>

definition volatile_load :: "machine \<Rightarrow> u32 \<Rightarrow> u32 \<Rightarrow> u32" where
  "volatile_load h addr plain =
     (case dev h (trace h) addr of Some v \<Rightarrow> v | None \<Rightarrow> plain)"

definition io_readb :: "u32 \<Rightarrow> machine \<Rightarrow> u8 \<times> machine" where
  "io_readb addr h =
     (let v = ucast (volatile_load h addr (ucast (mem h addr)))
      in (v, h\<lparr>trace := ReadB addr v # trace h\<rparr>))"

definition io_readh :: "u32 \<Rightarrow> machine \<Rightarrow> u16 \<times> machine" where
  "io_readh addr h =
     (let v = ucast (volatile_load h addr (ucast (load16 (mem h) addr)))
      in (v, h\<lparr>trace := ReadH addr v # trace h\<rparr>))"

definition io_readw :: "u32 \<Rightarrow> machine \<Rightarrow> u32 \<times> machine" where
  "io_readw addr h =
     (let v = volatile_load h addr (load32 (mem h) addr)
      in (v, h\<lparr>trace := ReadW addr v # trace h\<rparr>))"

definition io_readd :: "u32 \<Rightarrow> machine \<Rightarrow> u64 \<times> machine" where
  "io_readd addr h =
     (let (hi, h1) = io_readw (addr + 4) h; (lo, h2) = io_readw addr h1
      in (push_bit 32 (ucast hi) OR ucast lo, h2))"

definition io_writeb :: "u32 \<Rightarrow> u8 \<Rightarrow> machine \<Rightarrow> machine" where
  "io_writeb addr data h =
     h\<lparr>mem := (mem h)(addr := data), trace := WriteB addr data # trace h\<rparr>"

definition io_writeh :: "u32 \<Rightarrow> u16 \<Rightarrow> machine \<Rightarrow> machine" where
  "io_writeh addr data h =
     h\<lparr>mem := store16 (mem h) addr data, trace := WriteH addr data # trace h\<rparr>"

definition io_writew :: "u32 \<Rightarrow> u32 \<Rightarrow> machine \<Rightarrow> machine" where
  "io_writew addr data h =
     h\<lparr>mem := store32 (mem h) addr data, trace := WriteW addr data # trace h\<rparr>"

definition io_writed :: "u32 \<Rightarrow> u64 \<Rightarrow> machine \<Rightarrow> machine" where
  "io_writed addr data h =
     io_writew (addr + 4) (ucast (drop_bit 32 data)) (io_writew addr (ucast data) h)"

section \<open>rf.c, and the inline assembly on banked registers\<close>

definition mrs :: "banked_reg \<Rightarrow> machine \<Rightarrow> u32" where
  "mrs r h = banked h r"

definition msr :: "banked_reg \<Rightarrow> u32 \<Rightarrow> machine \<Rightarrow> machine" where
  "msr r v h = h\<lparr>banked := (banked h)(r := v)\<rparr>"

definition rf_elr_hyp_read :: "machine \<Rightarrow> u32" where
  "rf_elr_hyp_read h = mrs ELR_hyp h"

definition rf_elr_hyp_write :: "u32 \<Rightarrow> machine \<Rightarrow> machine" where
  "rf_elr_hyp_write elr_hyp h = msr ELR_hyp elr_hyp h"

definition rf_spsr_hyp_read :: "machine \<Rightarrow> u32" where
  "rf_spsr_hyp_read h = mrs SPSR_hyp h"

definition rf_spsr_hyp_write :: "u32 \<Rightarrow> machine \<Rightarrow> machine" where
  "rf_spsr_hyp_write spsr_hyp h = msr SPSR_hyp spsr_hyp h"

text \<open>C's \<open>x << n\<close> on 32 bits, for a count that may exceed the width.\<close>

definition c_shl :: "machine \<Rightarrow> u32 \<Rightarrow> nat \<Rightarrow> u32" where
  "c_shl h x n = (if n < 32 then push_bit n x else shl_over h x n)"

section \<open>The byte store\<close>

definition aligned :: "nat \<Rightarrow> u32 \<Rightarrow> bool" where
  "aligned n a \<longleftrightarrow> unat a mod 2 ^ n = 0"

lemma load32_store32_same: "load32 (store32 m a v) a = v"
proof (rule bit_word_eqI)
  fix n assume "n < LENGTH(32)"
  then show "bit (load32 (store32 m a v) a) n = bit v n"
    by (cases "n < 8"; cases "n < 16"; cases "n < 24")
      (simp_all add: load32_def store32_def bit_simps, arith+)
qed

lemma word_apart:
  fixes a b i j :: u32
  assumes "4 \<le> b - a" and "4 \<le> a - b" and "i < 4" and "j < 4"
  shows "a + i \<noteq> b + j"
proof
  assume eq: "a + i = b + j"
  show False
  proof (cases "j \<le> i")
    case True
    have "b - a = i - j" using eq by (simp add: algebra_simps)
    moreover have "i - j < 4" using True assms(3) by unat_arith
    ultimately show False using assms(1) by simp
  next
    case False
    have "a - b = j - i" using eq by (simp add: algebra_simps)
    moreover have "j - i < 4" using False assms(4) by unat_arith
    ultimately show False using assms(2) by simp
  qed
qed

lemma load32_store32_other:
  assumes "4 \<le> b - a" and "4 \<le> a - b"
  shows "load32 (store32 m a v) b = load32 m b"
proof -
  have "store32 m a v (b + j) = m (b + j)" if "j < 4" for j
    using word_apart [OF assms, of 0 j] word_apart [OF assms, of 1 j]
      word_apart [OF assms, of 2 j] word_apart [OF assms, of 3 j] that
    by (simp add: store32_def)
  from this [of 0] this [of 1] this [of 2] this [of 3] show ?thesis
    by (simp add: load32_def)
qed

lemma aligned_apart:
  assumes "aligned 2 a" and "aligned 2 b" and "a \<noteq> b"
  shows "4 \<le> b - a"
proof -
  have "unat (b - a) mod 4 = 0"
    using assms(1,2) by (simp add: aligned_def unat_sub_if') presburger
  moreover have "unat (b - a) \<noteq> 0"
    using assms(3) by (simp add: unat_eq_0)
  ultimately have "4 \<le> unat (b - a)" by presburger
  then show ?thesis by (simp add: word_le_nat_alt)
qed

lemma load32_store32:
  assumes "aligned 2 a" and "aligned 2 b"
  shows "load32 (store32 m a v) b = (if a = b then v else load32 m b)"
  using load32_store32_same load32_store32_other aligned_apart assms by metis

lemma aligned_dvd: "aligned n a \<longleftrightarrow> 2 ^ n dvd unat a"
  by (simp add: aligned_def dvd_eq_mod_eq_0)

lemma aligned_add:
  assumes "aligned n a" and "aligned n b" and "n \<le> 32"
  shows "aligned n (a + b)"
proof -
  have "(2::nat) ^ n dvd 2 ^ 32" using assms(3) by (rule le_imp_power_dvd)
  with assms(1,2) show ?thesis by (simp add: aligned_dvd unat_word_ariths dvd_mod)
qed

lemma aligned_mono: "aligned n a \<Longrightarrow> k \<le> n \<Longrightarrow> aligned k a"
  unfolding aligned_dvd by (meson dvd_trans le_imp_power_dvd)

section \<open>What the accesses do to the machine\<close>

text \<open>
  An address is plain memory when the hardware never answers for it. Only \<open>dev\<close> decides,
  and no operation changes \<open>dev\<close>.
\<close>

definition ram :: "machine \<Rightarrow> u32 \<Rightarrow> bool" where
  "ram h a \<longleftrightarrow> (\<forall>tr. dev h tr a = None)"

lemma ram_dev: "dev h' = dev h \<Longrightarrow> ram h' a = ram h a"
  by (simp add: ram_def)

lemma volatile_load_ram: "ram h a \<Longrightarrow> volatile_load h a v = v"
  by (simp add: volatile_load_def ram_def)

lemma io_readw_ram: "ram h a \<Longrightarrow> fst (io_readw a h) = load32 (mem h) a"
  by (simp add: io_readw_def volatile_load_ram Let_def)

lemma snd_io_readw [hw_simps]:
  "snd (io_readw a h) = h\<lparr>trace := ReadW a (fst (io_readw a h)) # trace h\<rparr>"
  by (simp add: io_readw_def Let_def)

lemma io_readw_frame [hw_simps]:
  "io_readw a h = (v, h') \<Longrightarrow> h' = h\<lparr>trace := ReadW a v # trace h\<rparr>"
  by (auto simp: io_readw_def Let_def)

lemma io_writew_simps [hw_simps]:
  "mem (io_writew a v h) = store32 (mem h) a v"
  "dev (io_writew a v h) = dev h"
  "trace (io_writew a v h) = WriteW a v # trace h"
  "banked (io_writew a v h) = banked h"
  "cp15 (io_writew a v h) = cp15 h"
  "cp15_64 (io_writew a v h) = cp15_64 h"
  "shl_over (io_writew a v h) = shl_over h"
  "ram (io_writew a v h) b = ram h b"
  by (simp_all add: io_writew_def ram_def)

lemma msr_simps [hw_simps]:
  "mem (msr r v h) = mem h" "dev (msr r v h) = dev h" "trace (msr r v h) = trace h"
  "banked (msr r v h) = (banked h)(r := v)" "cp15 (msr r v h) = cp15 h"
  "cp15_64 (msr r v h) = cp15_64 h" "shl_over (msr r v h) = shl_over h"
  "ram (msr r v h) b = ram h b"
  by (simp_all add: msr_def ram_def)

lemma rf_elr_hyp_read_write: "rf_elr_hyp_read (rf_elr_hyp_write v h) = v"
  by (simp add: rf_elr_hyp_read_def rf_elr_hyp_write_def mrs_def hw_simps)

text \<open>The 64-bit accesses are the two words, the low one at the lower address.\<close>

definition load64 :: "(u32 \<Rightarrow> u8) \<Rightarrow> u32 \<Rightarrow> u64" where
  "load64 m a = push_bit 32 (ucast (load32 m (a + 4))) OR ucast (load32 m a)"

definition store64 :: "(u32 \<Rightarrow> u8) \<Rightarrow> u32 \<Rightarrow> u64 \<Rightarrow> (u32 \<Rightarrow> u8)" where
  "store64 m a v = store32 (store32 m a (ucast v)) (a + 4) (ucast (drop_bit 32 v))"

lemma aligned_plus_4: "aligned 3 a \<Longrightarrow> aligned 2 (a + 4)"
  by (rule aligned_add) (auto simp: aligned_mono, simp add: aligned_def)

lemma aligned_3_plus_4_neq:
  assumes "aligned 3 a" and "aligned 3 b"
  shows "a + 4 \<noteq> b"
proof
  assume "a + 4 = b"
  then have "b - a = 4" by (metis add_diff_cancel_left')
  moreover have "unat (b - a) mod 8 = 0"
    using assms by (simp add: aligned_def unat_sub_if') presburger
  ultimately show False by simp
qed

lemma load64_store64:
  assumes "aligned 3 a" and "aligned 3 b"
  shows "load64 (store64 m a v) b = (if a = b then v else load64 m b)"
proof -
  note al = aligned_mono [OF assms(1), of 2] aligned_mono [OF assms(2), of 2]
    aligned_plus_4 [OF assms(1)] aligned_plus_4 [OF assms(2)]
    aligned_3_plus_4_neq [OF assms] aligned_3_plus_4_neq [OF assms(2) assms(1)]
  have "push_bit 32 (ucast (ucast (drop_bit 32 v) :: u32)) OR ucast (ucast v :: u32) = v"
    for v :: u64
    by (rule bit_word_eqI) (auto simp: bit_simps)
  with al show ?thesis
    by (auto simp: load64_def store64_def load32_store32)
qed

lemma mem_io_writed [hw_simps]: "mem (io_writed a v h) = store64 (mem h) a v"
  by (simp add: io_writed_def store64_def hw_simps)

lemma io_writed_simps [hw_simps]:
  "dev (io_writed a v h) = dev h" "banked (io_writed a v h) = banked h"
  "cp15 (io_writed a v h) = cp15 h" "cp15_64 (io_writed a v h) = cp15_64 h"
  "shl_over (io_writed a v h) = shl_over h" "ram (io_writed a v h) b = ram h b"
  by (simp_all add: io_writed_def hw_simps)

lemma io_readd_ram:
  "ram h a \<Longrightarrow> ram h (a + 4) \<Longrightarrow> fst (io_readd a h) = load64 (mem h) a"
  by (simp add: io_readd_def load64_def io_readw_def Let_def volatile_load_ram ram_def
      volatile_load_def)

lemma snd_io_readd_simps [hw_simps]:
  "mem (snd (io_readd a h)) = mem h" "dev (snd (io_readd a h)) = dev h"
  "banked (snd (io_readd a h)) = banked h" "cp15 (snd (io_readd a h)) = cp15 h"
  "cp15_64 (snd (io_readd a h)) = cp15_64 h" "shl_over (snd (io_readd a h)) = shl_over h"
  "ram (snd (io_readd a h)) b = ram h b"
  by (simp_all add: io_readd_def io_readw_def Let_def ram_def)

section \<open>A machine of plain memory\<close>

text \<open>All zero, with no device: the machine of the concrete instances.\<close>

definition sample_machine :: machine where
  "sample_machine = \<lparr>mem = (\<lambda>_. 0), dev = (\<lambda>_ _. None), trace = [], banked = (\<lambda>_. 0),
     cp15 = (\<lambda>_. 0), cp15_64 = (\<lambda>_. 0), shl_over = (\<lambda>_ _. 0)\<rparr>"

lemma sample_machine_ram [simp]: "ram sample_machine a"
  by (simp add: sample_machine_def ram_def)

end
