(* ===== verification/Cp15.thy ===== *)
theory Cp15
  imports Io
begin

text \<open>
  vmm/include/cp15.h and vmm/cp15.c: the names of the system control registers and of
  their fields, and reading and writing them. A name packs a register's coordinates and
  a bit range into 32 bits: \<open>hsb|lsb|crn|opc1|crm|opc2\<close>. The register file behind the
  instructions \<open>mrc\<close>, \<open>mcr\<close>, \<open>mrrc\<close>, \<open>mcrr\<close> is the machine's \<open>cp15\<close> and \<open>cp15_64\<close>,
  the array \<open>regs[crn][opc1][crm][opc2]\<close> of the comments in cp15.h.
\<close>

section \<open>Names\<close>

definition bit4 :: "u32 \<Rightarrow> u32" where "bit4 x = x AND 0xF"
definition bit8 :: "u32 \<Rightarrow> u32" where "bit8 x = x AND 0xFF"

definition setcr :: "u32 \<Rightarrow> u32 \<Rightarrow> u32 \<Rightarrow> u32 \<Rightarrow> u32" where
  "setcr crn opc1 crm opc2 =
     push_bit 24 (bit8 31) OR push_bit 16 (bit8 0) OR push_bit 12 (bit4 crn)
     OR push_bit 8 (bit4 opc1) OR push_bit 4 (bit4 crm) OR push_bit 0 (bit4 opc2)"

definition setfd :: "u32 \<Rightarrow> u32 \<Rightarrow> u32 \<Rightarrow> u32" where
  "setfd reg_name hsb lsb =
     (reg_name AND 0xFFFF) OR push_bit 24 (bit8 hsb) OR push_bit 16 (bit8 lsb)"

definition setcr64 :: "u32 \<Rightarrow> u32 \<Rightarrow> u32" where
  "setcr64 crm opc1 =
     push_bit 24 (bit8 63) OR push_bit 16 (bit8 0) OR push_bit 12 (bit4 0)
     OR push_bit 8 (bit4 opc1) OR push_bit 4 (bit4 crm) OR push_bit 0 (bit4 0)"

definition setfd64 :: "u32 \<Rightarrow> u32 \<Rightarrow> u32 \<Rightarrow> u32" where
  "setfd64 reg_name hsb lsb =
     (reg_name AND 0xFFFF) OR push_bit 24 (bit8 hsb) OR push_bit 16 (bit8 lsb)"

definition get_hsb :: "u32 \<Rightarrow> u32" where "get_hsb x = drop_bit 24 x AND 0xFF"
definition get_lsb :: "u32 \<Rightarrow> u32" where "get_lsb x = drop_bit 16 x AND 0xFF"
definition get_crn :: "u32 \<Rightarrow> u32" where "get_crn x = drop_bit 12 x AND 0xF"
definition get_opc1 :: "u32 \<Rightarrow> u32" where "get_opc1 x = drop_bit 8 x AND 0xF"
definition get_crm :: "u32 \<Rightarrow> u32" where "get_crm x = drop_bit 4 x AND 0xF"
definition get_opc2 :: "u32 \<Rightarrow> u32" where "get_opc2 x = drop_bit 0 x AND 0xF"

definition TTBR0_LPAE :: u32 where "TTBR0_LPAE = setcr64 2 0"
definition TTBR1_LPAE :: u32 where "TTBR1_LPAE = setcr64 2 1"
definition HTTBR_LPAE :: u32 where "HTTBR_LPAE = setcr64 2 4"
definition VTTBR_LPAE :: u32 where "VTTBR_LPAE = setcr64 2 6"
definition VTTBR_LPAE_BADDR :: u32 where "VTTBR_LPAE_BADDR = setfd64 VTTBR_LPAE 39 0"
definition VTTBR_LPAE_VMID :: u32 where "VTTBR_LPAE_VMID = setfd64 VTTBR_LPAE 55 48"

text \<open>The full registers of \<open>enum cp15_reg_names\<close>.\<close>

definition MIDR :: u32 where "MIDR = setcr 0 0 0 0"
definition CTR :: u32 where "CTR = setcr 0 0 0 1"
definition MPIDR :: u32 where "MPIDR = setcr 0 0 0 5"
definition MMFR0 :: u32 where "MMFR0 = setcr 0 0 1 4"
definition MMFR1 :: u32 where "MMFR1 = setcr 0 0 1 5"
definition MMFR2 :: u32 where "MMFR2 = setcr 0 0 1 6"
definition MMFR3 :: u32 where "MMFR3 = setcr 0 0 1 7"
definition CCSIDR0 :: u32 where "CCSIDR0 = setcr 0 1 0 0"
definition CCSIDR1 :: u32 where "CCSIDR1 = setcr 0 1 0 6"
definition CCSIDR2 :: u32 where "CCSIDR2 = setcr 0 1 0 7"
definition CLIDR :: u32 where "CLIDR = setcr 0 1 0 1"
definition CSSELR :: u32 where "CSSELR = setcr 0 2 0 0"
definition VPIDR :: u32 where "VPIDR = setcr 0 4 0 0"
definition SCTLR :: u32 where "SCTLR = setcr 1 0 0 0"
definition SCR :: u32 where "SCR = setcr 1 0 1 0"
definition HSCTLR :: u32 where "HSCTLR = setcr 1 4 0 0"
definition HCR :: u32 where "HCR = setcr 1 4 1 0"
definition HDCR :: u32 where "HDCR = setcr 1 4 1 1"
definition HCPTR :: u32 where "HCPTR = setcr 1 4 1 2"
definition HSTR :: u32 where "HSTR = setcr 1 4 1 3"
definition TTBR0 :: u32 where "TTBR0 = setcr 2 0 0 0"
definition TTBR1 :: u32 where "TTBR1 = setcr 2 0 0 1"
definition TTBCR :: u32 where "TTBCR = setcr 2 0 0 2"
definition HTCR :: u32 where "HTCR = setcr 2 4 0 2"
definition VTCR :: u32 where "VTCR = setcr 2 4 1 2"
definition DACR :: u32 where "DACR = setcr 3 0 0 0"
definition DFSR :: u32 where "DFSR = setcr 5 0 0 0"
definition IFSR :: u32 where "IFSR = setcr 5 0 0 1"
definition ADFSR :: u32 where "ADFSR = setcr 5 0 1 0"
definition AIFSR :: u32 where "AIFSR = setcr 5 0 1 1"
definition HADFSR :: u32 where "HADFSR = setcr 5 4 1 0"
definition HAIFSR :: u32 where "HAIFSR = setcr 5 4 1 1"
definition HSR :: u32 where "HSR = setcr 5 4 2 0"
definition DFAR :: u32 where "DFAR = setcr 6 0 0 0"
definition IFAR :: u32 where "IFAR = setcr 6 0 0 2"
definition HDFAR :: u32 where "HDFAR = setcr 6 4 0 0"
definition HIFAR :: u32 where "HIFAR = setcr 6 4 0 2"
definition HPFAR :: u32 where "HPFAR = setcr 6 4 0 4"
definition PRRR :: u32 where "PRRR = setcr 10 0 2 0"
definition NMRR :: u32 where "NMRR = setcr 10 0 2 1"
definition VBAR :: u32 where "VBAR = setcr 12 0 0 0"
definition MVBAR :: u32 where "MVBAR = setcr 12 0 0 1"
definition ISR :: u32 where "ISR = setcr 12 0 1 0"
definition HVBAR :: u32 where "HVBAR = setcr 12 4 0 0"
definition FCSEIDR :: u32 where "FCSEIDR = setcr 13 0 0 0"
definition CONTEXTIDR :: u32 where "CONTEXTIDR = setcr 13 0 0 1"
definition TPIDR_URO :: u32 where "TPIDR_URO = setcr 13 0 0 3"
definition HTPIDR :: u32 where "HTPIDR = setcr 13 4 0 2"

definition cp15_full_names :: "u32 list" where
  "cp15_full_names = [MIDR, CTR, MPIDR, MMFR0, MMFR1, MMFR2, MMFR3, CCSIDR0, CCSIDR1, CCSIDR2, CLIDR,
     CSSELR, VPIDR, SCTLR, SCR, HSCTLR, HCR, HDCR, HCPTR, HSTR, TTBR0, TTBR1, TTBCR, HTCR,
     VTCR, DACR, DFSR, IFSR, ADFSR, AIFSR, HADFSR, HAIFSR, HSR, DFAR, IFAR, HDFAR, HIFAR,
     HPFAR, PRRR, NMRR, VBAR, MVBAR, ISR, HVBAR, FCSEIDR, CONTEXTIDR, TPIDR_URO, HTPIDR]"

text \<open>
  The register fields of the enumeration: the register, the highest and the lowest bit.
  The ones the hypervisor uses have their name too.
\<close>

definition cp15_field_table :: "(u32 \<times> u32 \<times> u32) list" where
  "cp15_field_table = [(CONTEXTIDR, 7, 0), (CONTEXTIDR, 31, 8), (CONTEXTIDR, 31, 0), (CSSELR, 3, 1),
     (CSSELR, 0, 0), (FCSEIDR, 31, 25), (HCR, 27, 27), (HCR, 26, 26), (HCR, 25, 25),
     (HCR, 24, 24), (HCR, 23, 23), (HCR, 22, 22), (HCR, 21, 21), (HCR, 20, 20),
     (HCR, 19, 19), (HCR, 18, 18), (HCR, 17, 17), (HCR, 16, 16), (HCR, 15, 15),
     (HCR, 14, 14), (HCR, 13, 13), (HCR, 12, 12), (HCR, 11, 10), (HCR, 9, 9), (HCR, 8, 8),
     (HCR, 7, 7), (HCR, 6, 6), (HCR, 5, 5), (HCR, 4, 4), (HCR, 3, 3), (HCR, 2, 2),
     (HCR, 1, 1), (HCR, 0, 0), (HDCR, 11, 11), (HDCR, 10, 10), (HDCR, 9, 9), (HDCR, 8, 8),
     (HDCR, 7, 7), (HDCR, 6, 6), (HDCR, 5, 5), (HDCR, 4, 0), (HSCTLR, 30, 30),
     (HSCTLR, 25, 25), (HSCTLR, 21, 21), (HSCTLR, 19, 19), (HSCTLR, 12, 12),
     (HSCTLR, 5, 5), (HSCTLR, 2, 2), (HSCTLR, 1, 1), (HSCTLR, 0, 0), (HTCR, 13, 12),
     (HTCR, 11, 10), (HTCR, 9, 8), (HTCR, 2, 0), (HSTR, 0, 0), (HSTR, 1, 1), (HSTR, 2, 2),
     (HSTR, 3, 3), (HSTR, 4, 4), (HSTR, 5, 5), (HSTR, 6, 6), (HSTR, 7, 7), (HSTR, 8, 8),
     (HSTR, 9, 9), (HSTR, 10, 10), (HSTR, 11, 11), (HSTR, 12, 12), (HSTR, 13, 13),
     (HSTR, 15, 15), (HSTR, 16, 16), (HSTR, 17, 17), (PRRR, 31, 31), (PRRR, 30, 30),
     (PRRR, 29, 29), (PRRR, 28, 28), (PRRR, 27, 27), (PRRR, 26, 26), (PRRR, 25, 25),
     (PRRR, 24, 24), (PRRR, 19, 19), (PRRR, 18, 18), (PRRR, 17, 17), (PRRR, 16, 16),
     (PRRR, 15, 14), (PRRR, 13, 12), (PRRR, 11, 10), (PRRR, 9, 8), (PRRR, 7, 6),
     (PRRR, 5, 4), (PRRR, 3, 2), (PRRR, 1, 0), (SCR, 9, 9), (SCR, 8, 8), (SCR, 7, 7),
     (SCR, 6, 6), (SCR, 5, 5), (SCR, 4, 4), (SCR, 3, 3), (SCR, 2, 2), (SCR, 1, 1),
     (SCR, 0, 0), (SCTLR, 30, 30), (SCTLR, 29, 29), (SCTLR, 28, 28), (SCTLR, 27, 27),
     (SCTLR, 25, 25), (SCTLR, 24, 24), (SCTLR, 22, 22), (SCTLR, 21, 21), (SCTLR, 20, 20),
     (SCTLR, 19, 19), (SCTLR, 17, 17), (SCTLR, 14, 14), (SCTLR, 13, 13), (SCTLR, 12, 12),
     (SCTLR, 11, 11), (SCTLR, 10, 10), (SCTLR, 7, 7), (SCTLR, 5, 5), (SCTLR, 2, 2),
     (SCTLR, 1, 1), (SCTLR, 0, 0), (TTBCR, 2, 0), (TTBCR, 4, 4), (TTBCR, 5, 5),
     (TTBCR, 31, 31), (TTBCR, 29, 28), (TTBCR, 27, 26), (TTBCR, 25, 24), (TTBCR, 23, 23),
     (TTBCR, 22, 22), (TTBCR, 18, 16), (TTBCR, 13, 12), (TTBCR, 11, 10), (TTBCR, 9, 8),
     (TTBCR, 7, 7), (TTBCR, 2, 0), (VTCR, 13, 12), (VTCR, 11, 10), (VTCR, 9, 8),
     (VTCR, 7, 6), (VTCR, 4, 4), (VTCR, 3, 0)]"

definition cp15_field_names :: "u32 list" where
  "cp15_field_names = map (\<lambda>(r, hsb, lsb). setfd r hsb lsb) cp15_field_table"

definition HCR_TWI :: u32 where "HCR_TWI = setfd HCR 13 13"
definition HCR_IMO :: u32 where "HCR_IMO = setfd HCR 4 4"
definition HCR_VM :: u32 where "HCR_VM = setfd HCR 0 0"
definition HSCTLR_A :: u32 where "HSCTLR_A = setfd HSCTLR 1 1"
definition HSTR_T7 :: u32 where "HSTR_T7 = setfd HSTR 7 7"
definition HSTR_T8 :: u32 where "HSTR_T8 = setfd HSTR 8 8"
definition VTCR_SL0 :: u32 where "VTCR_SL0 = setfd VTCR 7 6"
definition VTCR_T0SZ :: u32 where "VTCR_T0SZ = setfd VTCR 3 0"

section \<open>The register a name selects\<close>

text \<open>
  The \<open>switch\<close> of \<open>CP15_PARSE\<close>: the coordinates \<open>(crn, opc1, crm, opc2)\<close> of the
  instruction executed for a name. Its default case prints an error and does nothing.
\<close>

definition cp15_cases :: "(u32 \<times> (nat \<times> nat \<times> nat \<times> nat)) list" where
  "cp15_cases = [(MIDR, (0, 0, 0, 0)), (CTR, (0, 0, 0, 1)), (MPIDR, (0, 0, 0, 5)),
     (MMFR0, (0, 0, 1, 4)), (MMFR1, (0, 0, 1, 5)), (MMFR2, (0, 0, 1, 6)),
     (MMFR3, (0, 0, 1, 7)), (CCSIDR0, (0, 1, 0, 0)), (CCSIDR1, (0, 1, 0, 6)),
     (CCSIDR2, (0, 1, 0, 7)), (CLIDR, (0, 1, 0, 1)), (CSSELR, (0, 2, 0, 0)),
     (VPIDR, (0, 4, 0, 0)), (SCTLR, (1, 0, 0, 0)), (SCR, (1, 0, 1, 0)),
     (HSCTLR, (1, 4, 0, 0)), (HCR, (1, 4, 1, 0)), (HDCR, (1, 4, 1, 1)),
     (HCPTR, (1, 4, 1, 2)), (HSTR, (1, 4, 1, 3)), (TTBCR, (2, 0, 0, 0)),
     (TTBR0, (2, 0, 0, 1)), (TTBR1, (2, 0, 0, 2)), (HTCR, (2, 4, 0, 2)),
     (VTCR, (2, 4, 1, 2)), (DACR, (3, 0, 0, 0)), (DFSR, (5, 0, 0, 0)),
     (IFSR, (5, 0, 0, 1)), (ADFSR, (5, 0, 1, 0)), (AIFSR, (5, 0, 1, 1)),
     (HADFSR, (5, 4, 1, 0)), (HAIFSR, (5, 4, 1, 1)), (HSR, (5, 4, 2, 0)),
     (DFAR, (6, 0, 0, 0)), (IFAR, (6, 0, 0, 2)), (HDFAR, (6, 4, 0, 0)),
     (HIFAR, (6, 4, 0, 2)), (HPFAR, (6, 4, 0, 4)), (PRRR, (10, 0, 2, 0)),
     (NMRR, (10, 0, 2, 1)), (VBAR, (12, 0, 0, 0)), (MVBAR, (12, 0, 0, 1)),
     (ISR, (12, 0, 1, 0)), (HVBAR, (12, 4, 0, 0)), (FCSEIDR, (13, 0, 0, 0)),
     (CONTEXTIDR, (13, 0, 0, 1)), (TPIDR_URO, (13, 0, 0, 3))]"

definition cp15_parse :: "u32 \<Rightarrow> (nat \<times> nat \<times> nat \<times> nat) option" where
  "cp15_parse name = map_of cp15_cases name"

text \<open>The \<open>switch\<close> of \<open>CP15_PARSE64\<close>: the coordinates \<open>(crm, opc1)\<close>.\<close>

definition cp15_parse64 :: "u32 \<Rightarrow> (nat \<times> nat) option" where
  "cp15_parse64 name = map_of [(TTBR0_LPAE, (2, 0)), (TTBR1_LPAE, (2, 1)),
     (HTTBR_LPAE, (2, 4)), (VTTBR_LPAE, (2, 6))] name"

section \<open>Reading and writing\<close>

definition asm_cp15_read :: "nat \<times> nat \<times> nat \<times> nat \<Rightarrow> machine \<Rightarrow> u32" where
  "asm_cp15_read c h = cp15 h c"

text \<open>
  Registers that a write from Hyp mode leaves as they are: the identification and status
  registers from \<open>MIDR\<close> to \<open>CLIDR\<close> and \<open>ISR\<close>, which are read-only, and \<open>SCR\<close> and \<open>MVBAR\<close>, which belong
  to the secure state. The exception that the processor may take instead is not modelled.
\<close>

definition cp15_read_only :: "(nat \<times> nat \<times> nat \<times> nat) list" where
  "cp15_read_only = [(0, 0, 0, 0), (0, 0, 0, 1), (0, 0, 0, 5), (0, 0, 1, 4), (0, 0, 1, 5), (0, 0, 1, 6),
     (0, 0, 1, 7), (0, 1, 0, 0), (0, 1, 0, 6), (0, 1, 0, 7), (0, 1, 0, 1), (12, 0, 1, 0),
     (1, 0, 1, 0), (12, 0, 0, 1)]"

definition asm_cp15_write :: "u32 \<Rightarrow> nat \<times> nat \<times> nat \<times> nat \<Rightarrow> machine \<Rightarrow> machine" where
  "asm_cp15_write data c h =
     (if c \<in> set cp15_read_only then h else h\<lparr>cp15 := (cp15 h)(c := data)\<rparr>)"

definition asm_cp15_read64 :: "nat \<times> nat \<Rightarrow> machine \<Rightarrow> u32 \<times> u32" where
  "asm_cp15_read64 c h = (ucast (drop_bit 32 (cp15_64 h c)), ucast (cp15_64 h c))"

definition asm_cp15_write64 :: "u32 \<Rightarrow> u32 \<Rightarrow> nat \<times> nat \<Rightarrow> machine \<Rightarrow> machine" where
  "asm_cp15_write64 data_h data_l c h =
     h\<lparr>cp15_64 := (cp15_64 h)(c := push_bit 32 (ucast data_h) OR ucast data_l)\<rparr>"

text \<open>The first lines of each access: the name of the whole register.\<close>

definition cp15_full_name :: "u32 \<Rightarrow> u32" where
  "cp15_full_name name = set_field (set_field name 31 24 31) 23 16 0"

definition cp15_full_name64 :: "u32 \<Rightarrow> u32" where
  "cp15_full_name64 name = set_field (set_field name 31 24 63) 23 16 0"

definition cp15_read :: "u32 \<Rightarrow> machine \<Rightarrow> u32" where
  "cp15_read name h =
     (let full_name = cp15_full_name name;
          reg = (case cp15_parse full_name of Some c \<Rightarrow> asm_cp15_read c h | None \<Rightarrow> 0)
      in get_field reg (unat (get_hsb name)) (unat (get_lsb name)))"

definition cp15_read64 :: "u32 \<Rightarrow> machine \<Rightarrow> u64" where
  "cp15_read64 name h =
     (let full_name = cp15_full_name64 name;
          (reg_h, reg_l) =
            (case cp15_parse64 full_name of Some c \<Rightarrow> asm_cp15_read64 c h | None \<Rightarrow> (0, 0))
      in get_field64 (push_bit 32 (ucast reg_h) OR ucast reg_l)
           (unat (get_hsb name)) (unat (get_lsb name)))"

definition cp15_write :: "u32 \<Rightarrow> u32 \<Rightarrow> machine \<Rightarrow> machine" where
  "cp15_write name value h =
     (let full_name = cp15_full_name name;
          reg = (if full_name \<noteq> name
                 then set_field (cp15_read full_name h)
                        (unat (get_hsb name)) (unat (get_lsb name)) value
                 else value)
      in case cp15_parse full_name of Some c \<Rightarrow> asm_cp15_write reg c h | None \<Rightarrow> h)"

definition cp15_write64 :: "u32 \<Rightarrow> u64 \<Rightarrow> machine \<Rightarrow> machine" where
  "cp15_write64 name value h =
     (let full_name = cp15_full_name64 name;
          reg = (if full_name \<noteq> name
                 then set_field64 (cp15_read64 full_name h)
                        (unat (get_hsb name)) (unat (get_lsb name)) value
                 else value);
          reg_h = ucast (drop_bit 32 reg);
          reg_l = ucast reg
      in case cp15_parse64 full_name of
           Some c \<Rightarrow> asm_cp15_write64 reg_h reg_l c h | None \<Rightarrow> h)"

section \<open>Names are well formed\<close>

lemmas cp15_name_defs =
  MIDR_def CTR_def MPIDR_def MMFR0_def MMFR1_def MMFR2_def MMFR3_def CCSIDR0_def
  CCSIDR1_def CCSIDR2_def CLIDR_def CSSELR_def VPIDR_def SCTLR_def SCR_def
  HSCTLR_def HCR_def HDCR_def HCPTR_def HSTR_def TTBR0_def TTBR1_def TTBCR_def
  HTCR_def VTCR_def DACR_def DFSR_def IFSR_def ADFSR_def AIFSR_def HADFSR_def
  HAIFSR_def HSR_def DFAR_def IFAR_def HDFAR_def HIFAR_def HPFAR_def PRRR_def
  NMRR_def VBAR_def MVBAR_def ISR_def HVBAR_def FCSEIDR_def CONTEXTIDR_def
  TPIDR_URO_def HTPIDR_def

lemmas cp15_pack_defs = setcr_def setfd_def bit4_def bit8_def

lemmas cp15_eval = cp15_name_defs cp15_pack_defs
  get_lsb_def get_hsb_def get_crn_def get_opc1_def get_crm_def get_opc2_def

definition cp15_reg_names :: "u32 list" where
  "cp15_reg_names = cp15_full_names @ cp15_field_names"

lemma low_masks: "(0xF :: u32) = mask 4" "(0xFF :: u32) = mask 8" "(0xFFFF :: u32) = mask 16"
  by (simp_all add: mask_numeral)

lemma cp15_full_name_bits: "cp15_full_name n = take_bit 16 n OR push_bit 24 (mask 5)"
proof -
  have m: "(31 :: u32) = mask 5" by (simp add: mask_numeral)
  show ?thesis
    unfolding cp15_full_name_def m
    by (rule bit_word_eqI) (auto simp: field_simps32 bit_simps)
qed

lemma cp15_full_name_alt: "cp15_full_name n = (n AND 0xFFFF) OR 0x1F000000"
  by (simp add: cp15_full_name_bits take_bit_eq_mask mask_numeral)

lemma cp15_full_names_wf:
  "list_all (\<lambda>n. cp15_full_name n = n \<and> get_hsb n = 31 \<and> get_lsb n = 0) cp15_full_names"
  by (simp add: cp15_full_names_def cp15_eval cp15_full_name_alt)

lemma cp15_full_name_setfd: "cp15_full_name (setfd r h l) = cp15_full_name r"
proof -
  have "take_bit 16 (setfd r h l) = take_bit 16 r"
    unfolding setfd_def bit8_def low_masks
    by (rule bit_word_eqI) (auto simp: bit_simps)
  then show ?thesis by (simp add: cp15_full_name_bits)
qed

lemma get_hsb_setfd: "get_hsb (setfd r h l) = bit8 h"
  unfolding get_hsb_def setfd_def bit8_def low_masks
  by (rule bit_word_eqI) (auto simp: bit_simps)

lemma get_lsb_setfd: "get_lsb (setfd r h l) = bit8 l"
  unfolding get_lsb_def setfd_def bit8_def low_masks
  by (rule bit_word_eqI) (auto simp: bit_simps)

lemma cp15_field_table_wf:
  "list_all (\<lambda>(r, hsb, lsb). r \<in> set (map fst cp15_cases) \<and> r \<in> set cp15_full_names
     \<and> bit8 lsb \<le> bit8 hsb \<and> bit8 hsb < 32) cp15_field_table"
  by (simp add: cp15_field_table_def cp15_full_names_def cp15_cases_def bit8_def)

lemma cp15_full_names_cases:
  "list_all (\<lambda>n. n \<in> set (map fst cp15_cases) \<or> n = HTPIDR) cp15_full_names"
  by (simp add: cp15_full_names_def cp15_cases_def)

text \<open>
  A name the access functions handle: its register is in the \<open>switch\<close>, its bits lie in
  the register. Every enumerator but \<open>HTPIDR\<close> is one.
\<close>

definition cp15_name_ok :: "u32 \<Rightarrow> bool" where
  "cp15_name_ok n \<longleftrightarrow> cp15_parse (cp15_full_name n) \<noteq> None
     \<and> get_lsb n \<le> get_hsb n \<and> get_hsb n < 32"

lemma cp15_parse_cases: "n \<in> set (map fst cp15_cases) \<Longrightarrow> cp15_parse n \<noteq> None"
  by (auto simp: cp15_parse_def map_of_eq_None_iff)

lemma cp15_name_ok_enum:
  assumes "n \<in> set cp15_reg_names" and "n \<noteq> HTPIDR"
  shows "cp15_name_ok n"
proof (cases "n \<in> set cp15_full_names")
  case True
  with assms(2) cp15_full_names_cases have "n \<in> set (map fst cp15_cases)"
    by (auto simp: list_all_iff)
  with True cp15_full_names_wf show ?thesis
    by (simp add: cp15_name_ok_def cp15_parse_cases list_all_iff)
next
  case False
  with assms(1) obtain r h l where "(r, h, l) \<in> set cp15_field_table" and n: "n = setfd r h l"
    by (auto simp: cp15_reg_names_def cp15_field_names_def)
  with cp15_field_table_wf have r: "r \<in> set (map fst cp15_cases)" "r \<in> set cp15_full_names"
    and hl: "bit8 l \<le> bit8 h" "bit8 h < 32"
    by (auto simp: list_all_iff)
  from r(2) cp15_full_names_wf have "cp15_full_name r = r" by (simp add: list_all_iff)
  with r(1) hl show ?thesis
    by (simp add: cp15_name_ok_def n cp15_full_name_setfd get_hsb_setfd get_lsb_setfd
        cp15_parse_cases)
qed

section \<open>A write and the reads after it\<close>

lemma cp15_full_name_hsb: "get_hsb (cp15_full_name n) = 31"
proof -
  have m: "(31 :: u32) = mask 5" by (simp add: mask_numeral)
  show ?thesis
    unfolding get_hsb_def cp15_full_name_bits low_masks m
    by (intro bit_word_eqI) (auto simp: bit_simps)
qed

lemma cp15_full_name_lsb: "get_lsb (cp15_full_name n) = 0"
  unfolding get_lsb_def cp15_full_name_bits low_masks
  by (rule bit_word_eqI) (auto simp: bit_simps)

lemma cp15_full_name_idem: "cp15_full_name (cp15_full_name n) = cp15_full_name n"
  unfolding cp15_full_name_bits
  by (rule bit_word_eqI) (auto simp: bit_simps)

lemma set_field_whole: "set_field w 31 0 v = v"
  by (rule bit_word_eqI) (simp add: field_simps32)

lemma cp15_read_eq:
  "cp15_parse (cp15_full_name n) = Some c \<Longrightarrow>
     cp15_read n h = get_field (cp15 h c) (unat (get_hsb n)) (unat (get_lsb n))"
  by (simp add: cp15_read_def asm_cp15_read_def)

lemma cp15_read_whole:
  "cp15_parse (cp15_full_name n) = Some c \<Longrightarrow> cp15_read (cp15_full_name n) h = cp15 h c"
  using f32.get_whole [of "cp15 h c"]
  by (simp add: cp15_read_eq [of "cp15_full_name n"] cp15_full_name_idem
      cp15_full_name_hsb cp15_full_name_lsb)

lemma cp15_write_asm:
  assumes "cp15_parse (cp15_full_name n) = Some c"
  shows "cp15_write n v h =
    asm_cp15_write (set_field (cp15 h c) (unat (get_hsb n)) (unat (get_lsb n)) v) c h"
proof (cases "cp15_full_name n = n")
  case True
  then have "get_hsb n = 31" "get_lsb n = 0"
    using cp15_full_name_hsb [of n] cp15_full_name_lsb [of n] by simp_all
  with True assms show ?thesis by (simp add: cp15_write_def set_field_whole)
next
  case False
  with assms show ?thesis by (simp add: cp15_write_def cp15_read_whole)
qed

lemma cp15_write_eq:
  assumes "cp15_parse (cp15_full_name n) = Some c" and "c \<notin> set cp15_read_only"
  shows "cp15_write n v h =
    h\<lparr>cp15 := (cp15 h)(c := set_field (cp15 h c) (unat (get_hsb n)) (unat (get_lsb n)) v)\<rparr>"
  using assms(2) by (simp add: cp15_write_asm [OF assms(1)] asm_cp15_write_def)

lemma cp15_write_read_only:
  "cp15_parse (cp15_full_name n) = Some c \<Longrightarrow> c \<in> set cp15_read_only \<Longrightarrow> cp15_write n v h = h"
  by (simp add: cp15_write_asm asm_cp15_write_def)

lemma cp15_write_unknown: "cp15_parse (cp15_full_name n) = None \<Longrightarrow> cp15_write n v h = h"
  by (simp add: cp15_write_def)

text \<open>No access to a system register touches anything but the system registers.\<close>

lemma cp15_write_simps [hw_simps]:
  "mem (cp15_write n v h) = mem h" "dev (cp15_write n v h) = dev h"
  "trace (cp15_write n v h) = trace h" "banked (cp15_write n v h) = banked h"
  "cp15_64 (cp15_write n v h) = cp15_64 h" "shl_over (cp15_write n v h) = shl_over h"
  "ram (cp15_write n v h) a = ram h a"
  by (auto simp: cp15_write_def asm_cp15_write_def Let_def ram_def split: option.split)

lemma cp15_write64_simps [hw_simps]:
  "mem (cp15_write64 n w h) = mem h" "dev (cp15_write64 n w h) = dev h"
  "trace (cp15_write64 n w h) = trace h" "banked (cp15_write64 n w h) = banked h"
  "cp15 (cp15_write64 n w h) = cp15 h" "shl_over (cp15_write64 n w h) = shl_over h"
  "ram (cp15_write64 n w h) a = ram h a"
  by (auto simp: cp15_write64_def asm_cp15_write64_def Let_def ram_def split: option.split)

text \<open>The 64-bit register the guests use: the stage 2 table base with the VMID.\<close>

lemma word_halves:
  "push_bit 32 (ucast (ucast (drop_bit 32 v) :: u32)) OR ucast (ucast v :: u32) = (v :: u64)"
  by (rule bit_word_eqI) (auto simp: bit_simps)

lemmas cp15_eval64 = TTBR0_LPAE_def TTBR1_LPAE_def HTTBR_LPAE_def VTTBR_LPAE_def
  VTTBR_LPAE_BADDR_def VTTBR_LPAE_VMID_def setcr64_def setfd64_def bit4_def bit8_def

lemma cp15_full_name64_bits: "cp15_full_name64 n = take_bit 16 n OR push_bit 24 (mask 6)"
proof -
  have m: "(63 :: u32) = mask 6" by (simp add: mask_numeral)
  show ?thesis
    unfolding cp15_full_name64_def m
    by (rule bit_word_eqI) (auto simp: field_simps32 bit_simps)
qed

lemma cp15_full_name64_alt: "cp15_full_name64 n = (n AND 0xFFFF) OR 0x3F000000"
  by (simp add: cp15_full_name64_bits take_bit_eq_mask mask_numeral)

lemma cp15_parse_vttbr:
  "cp15_full_name64 VTTBR_LPAE = VTTBR_LPAE" "cp15_full_name64 VTTBR_LPAE_VMID = VTTBR_LPAE"
  "VTTBR_LPAE_VMID \<noteq> VTTBR_LPAE" "VTTBR_LPAE \<noteq> VTTBR_LPAE_VMID" "cp15_parse64 VTTBR_LPAE = Some (2, 6)"
  "get_hsb VTTBR_LPAE = 63" "get_lsb VTTBR_LPAE = 0"
  "get_hsb VTTBR_LPAE_VMID = 55" "get_lsb VTTBR_LPAE_VMID = 48"
  by (simp_all add: cp15_full_name64_alt cp15_eval64 cp15_parse64_def get_hsb_def get_lsb_def)

lemma cp15_read64_vttbr: "cp15_read64 VTTBR_LPAE h = cp15_64 h (2, 6)"
  using f64.get_whole [of "cp15_64 h (2, 6)"]
  by (simp add: cp15_read64_def cp15_parse_vttbr asm_cp15_read64_def word_halves)

lemma cp15_write64_vttbr:
  "cp15_write64 VTTBR_LPAE v h = h\<lparr>cp15_64 := (cp15_64 h)((2, 6) := v)\<rparr>"
  by (simp add: cp15_write64_def cp15_parse_vttbr asm_cp15_write64_def word_halves)

lemma cp15_write64_vttbr_vmid:
  "cp15_write64 VTTBR_LPAE_VMID v h =
     h\<lparr>cp15_64 := (cp15_64 h)((2, 6) := set_field64 (cp15_64 h (2, 6)) 55 48 v)\<rparr>"
  by (simp add: cp15_write64_def [of VTTBR_LPAE_VMID] cp15_parse_vttbr cp15_read64_vttbr
      asm_cp15_write64_def word_halves)

end
