(* ===== verification/Dev_Gic.thy ===== *)
theory Dev_Gic
  imports Io
begin

text \<open>
  The drivers of the physical interrupt controller: devices/dev_gic2_dist.c (the
  distributor), dev_gic2_cpu_if.c (acknowledge and end of interrupt), dev_gic2_vctrl.c
  (the list registers that hold a guest's virtual interrupts) and dev_gic2_vcpu_if.c
  (the guest's interface). A driver's state is the base address of its device; the
  record fields carry the driver's name where the C structs share a field name.
\<close>

section \<open>The distributor\<close>

record dev_gic2_dist =
  dist_base_addr :: u32

definition dev_gic2_dist_set_enable :: "dev_gic2_dist \<Rightarrow> bool \<Rightarrow> machine \<Rightarrow> machine" where
  "dev_gic2_dist_set_enable me en h =
     (if en then io_writew (dist_base_addr me) 1 h
      else io_writew (dist_base_addr me) 0 h)"

definition dev_gic2_dist_enable_irq :: "dev_gic2_dist \<Rightarrow> int \<Rightarrow> machine \<Rightarrow> machine res" where
  "dev_gic2_dist_enable_irq me irq h =
     (if irq \<ge> 0 \<and> irq \<le> 31
      then Inr (io_writew (dist_base_addr me + 0x100) (c_shl h 1 (nat irq)) h)
      else if irq \<ge> 32 \<and> irq \<le> 63
      then Inr (io_writew (dist_base_addr me + 0x104) (c_shl h 1 (nat irq)) h)
      else Inl (Exit d_dev_gic2_dist ''error enable irq %d''))"

definition dev_gic2_dist_disable_irq :: "dev_gic2_dist \<Rightarrow> int \<Rightarrow> machine \<Rightarrow> machine res" where
  "dev_gic2_dist_disable_irq me irq h =
     (if irq \<ge> 0 \<and> irq \<le> 31
      then Inr (io_writew (dist_base_addr me + 0x180) (c_shl h 1 (nat irq)) h)
      else if irq \<ge> 32 \<and> irq \<le> 63
      then Inr (io_writew (dist_base_addr me + 0x184) (c_shl h 1 (nat irq)) h)
      else Inl (Exit d_dev_gic2_dist ''error disable irq %d''))"

text \<open>The loop runs \<open>offset\<close> over 0x800, 0x804, .. 0x8F8, so \<open>n\<close> over 0, 1, .. 62.\<close>

definition dev_gic2_dist_set_target :: "dev_gic2_dist \<Rightarrow> int \<Rightarrow> machine \<Rightarrow> machine res" where
  "dev_gic2_dist_set_target me cpu_if h =
     (if cpu_if \<noteq> 0 then Inl (Exit d_dev_gic2_dist ''error set cpu_if target to %d'')
      else Inr (fold (\<lambda>n h. if n \<ge> 8 \<and> n \<le> 15
                            then io_writew (dist_base_addr me + (0x800 + 4 * of_nat n)) 0x01010101 h
                            else h) [0..<63] h))"

definition dev_gic2_dist_init :: "u32 \<Rightarrow> machine \<Rightarrow> (dev_gic2_dist \<times> machine) res" where
  "dev_gic2_dist_init base_addr h =
     (let me = \<lparr>dist_base_addr = base_addr\<rparr>
      in bindR (dev_gic2_dist_set_target me 0 h)
           (\<lambda>h. Inr (me, dev_gic2_dist_set_enable me False h)))"

section \<open>The CPU interface\<close>

record dev_gic2_cpu_if =
  cpu_if_base_addr :: u32

definition dev_gic2_cpu_if_init :: "u32 \<Rightarrow> dev_gic2_cpu_if" where
  "dev_gic2_cpu_if_init base_addr = \<lparr>cpu_if_base_addr = base_addr\<rparr>"

definition dev_gic2_cpu_if_set_enable :: "dev_gic2_cpu_if \<Rightarrow> bool \<Rightarrow> machine \<Rightarrow> machine" where
  "dev_gic2_cpu_if_set_enable me en h =
     io_writew (cpu_if_base_addr me) (if en then 1 else 0) h"

definition dev_gic2_cpu_if_write_eoi :: "dev_gic2_cpu_if \<Rightarrow> u32 \<Rightarrow> machine \<Rightarrow> machine" where
  "dev_gic2_cpu_if_write_eoi me irq_id h = io_writew (cpu_if_base_addr me + 0x10) irq_id h"

definition dev_gic2_cpu_if_read_ack :: "dev_gic2_cpu_if \<Rightarrow> machine \<Rightarrow> u32 \<times> machine" where
  "dev_gic2_cpu_if_read_ack me h = io_readw (cpu_if_base_addr me + 0x0C) h"

section \<open>The virtual CPU interface\<close>

record dev_gic2_vcpu_if =
  vcpu_if_base_address :: u32

definition dev_gic2_vcpu_if_init :: "u32 \<Rightarrow> dev_gic2_vcpu_if" where
  "dev_gic2_vcpu_if_init base_address = \<lparr>vcpu_if_base_address = base_address\<rparr>"

definition dev_gic2_vcpu_if_write_ctlr :: "dev_gic2_vcpu_if \<Rightarrow> u32 \<Rightarrow> machine \<Rightarrow> machine" where
  "dev_gic2_vcpu_if_write_ctlr me reg h = io_writew (vcpu_if_base_address me) reg h"

definition dev_gic2_vcpu_if_read_ctlr :: "dev_gic2_vcpu_if \<Rightarrow> machine \<Rightarrow> u32 \<times> machine" where
  "dev_gic2_vcpu_if_read_ctlr me h = io_readw (vcpu_if_base_address me) h"

section \<open>The virtual interface control: the list registers\<close>

datatype list_reg_state = LR_Invalid | LR_Pending | LR_Active | LR_PendingActive

fun list_reg_state_val :: "list_reg_state \<Rightarrow> u32" where
  "list_reg_state_val LR_Invalid = 0"
| "list_reg_state_val LR_Pending = 1"
| "list_reg_state_val LR_Active = 2"
| "list_reg_state_val LR_PendingActive = 3"

record dev_gic2_vctrl =
  vctrl_base_addr :: u32

definition dev_gic2_vctrl_init :: "u32 \<Rightarrow> dev_gic2_vctrl" where
  "dev_gic2_vctrl_init base_addr = \<lparr>vctrl_base_addr = base_addr\<rparr>"

definition dev_gic2_vctrl_set_enable :: "dev_gic2_vctrl \<Rightarrow> bool \<Rightarrow> machine \<Rightarrow> machine" where
  "dev_gic2_vctrl_set_enable me en h =
     io_writew (vctrl_base_addr me) (if en then 1 else 0) h"

definition dev_gic2_vctrl_write_list ::
  "dev_gic2_vctrl \<Rightarrow> nat \<Rightarrow> bool \<Rightarrow> list_reg_state \<Rightarrow> int \<Rightarrow> int \<Rightarrow> machine \<Rightarrow> machine" where
  "dev_gic2_vctrl_write_list me n hw state pid vid h =
     (let reg = 0;
          reg = set_bit32 reg 1 (if hw then 1 else 0);
          reg = set_field reg 29 28 (list_reg_state_val state);
          reg = set_field reg 19 10 (word_of_int pid);
          reg = set_field reg 9 0 (word_of_int vid)
      in io_writew (vctrl_base_addr me + 0x100 + of_nat n * 4) reg h)"

definition dev_gic2_vctrl_write_list_simple ::
  "dev_gic2_vctrl \<Rightarrow> nat \<Rightarrow> u32 \<Rightarrow> machine \<Rightarrow> machine" where
  "dev_gic2_vctrl_write_list_simple me n value h =
     io_writew (vctrl_base_addr me + 0x100 + of_nat n * 4) value h"

definition dev_gic2_vctrl_read_list :: "dev_gic2_vctrl \<Rightarrow> nat \<Rightarrow> machine \<Rightarrow> u32 \<times> machine" where
  "dev_gic2_vctrl_read_list me n h = io_readw (vctrl_base_addr me + 0x100 + of_nat n * 4) h"

definition dev_gic2_vctrl_clear_list :: "dev_gic2_vctrl \<Rightarrow> machine \<Rightarrow> machine" where
  "dev_gic2_vctrl_clear_list me h =
     fold (\<lambda>i h. dev_gic2_vctrl_write_list me i False LR_Invalid 0 0 h) [0..<64] h"

section \<open>What reaches the distributor\<close>

text \<open>
  An interrupt below 32 sets its own bit of the first enable register. For an interrupt
  of 32 to 63 the code shifts by the interrupt number itself, beyond the width of the
  word: the bit written is whatever the target's shifter makes of it.
\<close>

lemma dev_gic2_dist_enable_irq_low:
  "0 \<le> irq \<Longrightarrow> irq < 32 \<Longrightarrow> dev_gic2_dist_enable_irq me irq h
     = Inr (io_writew (dist_base_addr me + 0x100) (push_bit (nat irq) 1) h)"
  by (simp add: dev_gic2_dist_enable_irq_def c_shl_def)

lemma dev_gic2_dist_enable_irq_high:
  "32 \<le> irq \<Longrightarrow> irq < 64 \<Longrightarrow> dev_gic2_dist_enable_irq me irq h
     = Inr (io_writew (dist_base_addr me + 0x104) (shl_over h 1 (nat irq)) h)"
  by (simp add: dev_gic2_dist_enable_irq_def c_shl_def)

lemma dev_gic2_dist_disable_irq_high:
  "32 \<le> irq \<Longrightarrow> irq < 64 \<Longrightarrow> dev_gic2_dist_disable_irq me irq h
     = Inr (io_writew (dist_base_addr me + 0x184) (shl_over h 1 (nat irq)) h)"
  by (simp add: dev_gic2_dist_disable_irq_def c_shl_def)

lemma dev_gic2_dist_enable_irq_dev:
  "dev_gic2_dist_enable_irq me irq h = Inr h' \<Longrightarrow>
     dev h' = dev h \<and> banked h' = banked h \<and> cp15 h' = cp15 h \<and> cp15_64 h' = cp15_64 h
     \<and> shl_over h' = shl_over h"
  by (auto simp: dev_gic2_dist_enable_irq_def hw_simps split: if_splits)

lemma dev_gic2_dist_disable_irq_dev:
  "dev_gic2_dist_disable_irq me irq h = Inr h' \<Longrightarrow>
     dev h' = dev h \<and> banked h' = banked h \<and> cp15 h' = cp15 h \<and> cp15_64 h' = cp15_64 h
     \<and> shl_over h' = shl_over h"
  by (auto simp: dev_gic2_dist_disable_irq_def hw_simps split: if_splits)

end
