(* ===== verification/Cell_Bank.thy ===== *)
theory Cell_Bank
  imports Io
begin

text \<open>
  The interface of a bank of \<open>n\<close> memory cells, which several components use in the same
  way: the list registers of the interrupt controller and a guest's saved copy of them,
  the registers a trap pushes on the stack, and the descriptors of a page table. The
  laws are a read that returns the contents and changes none, and a write that changes
  one cell; the lemmas are about the loops the code runs over such a bank.
\<close>

text \<open>
  The loops \<open>for (i = 0; i < m; i++) l[i] = read(i)\<close> and
  \<open>for (i = 0; i < m; i++) write(i, l[i])\<close>.
\<close>

definition save_cells :: "(nat \<Rightarrow> 's \<Rightarrow> 'v \<times> 's) \<Rightarrow> nat \<Rightarrow> (nat \<Rightarrow> 'v) \<times> 's \<Rightarrow> (nat \<Rightarrow> 'v) \<times> 's" where
  "save_cells rd m = fold (\<lambda>i (l, s). let (v, s) = rd i s in (l(i := v), s)) [0..<m]"

definition restore_cells :: "(nat \<Rightarrow> 'v \<Rightarrow> 's \<Rightarrow> 's) \<Rightarrow> nat \<Rightarrow> (nat \<Rightarrow> 'v) \<Rightarrow> 's \<Rightarrow> 's" where
  "restore_cells wr m l = fold (\<lambda>i. wr i (l i)) [0..<m]"

lemma save_cells_0 [simp]: "save_cells rd 0 p = p"
  by (simp add: save_cells_def)

lemma save_cells_Suc:
  "save_cells rd (Suc m) p = (case save_cells rd m p of (l, s) \<Rightarrow>
     (l(m := fst (rd m s)), snd (rd m s)))"
  by (simp add: save_cells_def case_prod_beta)

lemma restore_cells_0 [simp]: "restore_cells wr 0 l s = s"
  by (simp add: restore_cells_def)

lemma restore_cells_Suc:
  "restore_cells wr (Suc m) l s = wr m (l m) (restore_cells wr m l s)"
  by (simp add: restore_cells_def)

text \<open>What every read (every write) keeps, the loops keep.\<close>

lemma save_cells_keeps:
  assumes "\<And>i s. i < m \<Longrightarrow> P s \<Longrightarrow> P (snd (rd i s))" and "P s"
  shows "P (snd (save_cells rd m (l, s)))"
  using assms
proof (induction m)
  case (Suc m)
  then show ?case by (auto simp: save_cells_Suc split: prod.splits)
qed simp

lemma restore_cells_keeps:
  assumes "\<And>i v s. i < m \<Longrightarrow> P s \<Longrightarrow> P (wr i v s)" and "P s"
  shows "P (restore_cells wr m l s)"
  using assms by (induction m) (auto simp: restore_cells_Suc)

locale cell_bank =
  fixes rd :: "nat \<Rightarrow> 's \<Rightarrow> 'v \<times> 's"
    and wr :: "nat \<Rightarrow> 'v \<Rightarrow> 's \<Rightarrow> 's"
    and view :: "'s \<Rightarrow> nat \<Rightarrow> 'v"
    and ok :: "'s \<Rightarrow> bool"
    and n :: nat
  assumes rd_value: "ok s \<Longrightarrow> i < n \<Longrightarrow> fst (rd i s) = view s i"
    and rd_ok: "ok s \<Longrightarrow> ok (snd (rd i s))"
    and rd_view: "ok s \<Longrightarrow> j < n \<Longrightarrow> view (snd (rd i s)) j = view s j"
    and wr_ok: "ok s \<Longrightarrow> ok (wr i v s)"
    and wr_view: "ok s \<Longrightarrow> i < n \<Longrightarrow> j < n \<Longrightarrow>
      view (wr i v s) j = (if i = j then v else view s j)"
begin

text \<open>Filling cells: a loop that writes \<open>g i\<close> to cell \<open>f i\<close>.\<close>

lemma fill_ok: "ok s \<Longrightarrow> ok (fold (\<lambda>i. wr (f i) (g i)) ks s)"
  by (induction ks arbitrary: s) (auto simp: wr_ok)

lemma fill_view_other:
  assumes "ok s" and "k < n" and "\<And>i. i \<in> set ks \<Longrightarrow> f i < n \<and> f i \<noteq> k"
  shows "view (fold (\<lambda>i. wr (f i) (g i)) ks s) k = view s k"
  using assms by (induction ks arbitrary: s) (auto simp: wr_ok wr_view)

lemma fill_view:
  assumes "ok s" and "\<And>i. i \<in> set ks \<Longrightarrow> f i < n" and "inj_on f (set ks)"
    and "i \<in> set ks"
  shows "view (fold (\<lambda>i. wr (f i) (g i)) ks s) (f i) = g i"
  using assms
proof (induction ks arbitrary: s)
  case (Cons a ks)
  show ?case
  proof (cases "i \<in> set ks")
    case True
    with Cons show ?thesis by (auto simp: wr_ok)
  next
    case False
    with Cons.prems have "i = a" and "\<And>j. j \<in> set ks \<Longrightarrow> f j < n \<and> f j \<noteq> f i"
      by (auto simp: inj_on_def)
    with Cons.prems show ?thesis
      by (simp add: fill_view_other wr_ok wr_view)
  qed
qed simp

text \<open>Saving the first \<open>m\<close> cells in an array, and writing an array back.\<close>

lemma save_cells_bank:
  assumes "ok s" and "m \<le> n"
  shows "fst (save_cells rd m (l, s)) = (\<lambda>i. if i < m then view s i else l i)
    \<and> ok (snd (save_cells rd m (l, s)))
    \<and> (\<forall>j < n. view (snd (save_cells rd m (l, s))) j = view s j)"
  using assms(2)
proof (induction m)
  case 0
  then show ?case using assms(1) by simp
next
  case (Suc m)
  obtain l' t where lt: "save_cells rd m (l, s) = (l', t)" by fastforce
  with Suc have l': "l' = (\<lambda>i. if i < m then view s i else l i)" and t: "ok t"
    and same: "\<forall>j < n. view t j = view s j" and m: "m < n"
    by simp_all
  have "l'(m := view s m) = (\<lambda>i. if i < Suc m then view s i else l i)"
    by (auto simp: l' fun_eq_iff less_Suc_eq)
  with t same m show ?case
    by (simp add: save_cells_Suc lt rd_value rd_ok rd_view)
qed

lemmas save_cells_value = save_cells_bank [THEN conjunct1]
lemmas save_cells_ok = save_cells_bank [THEN conjunct2, THEN conjunct1]
lemmas save_cells_view = save_cells_bank [THEN conjunct2, THEN conjunct2, rule_format]

lemma restore_cells_ok: "ok s \<Longrightarrow> ok (restore_cells wr m l s)"
  by (induction m) (auto simp: restore_cells_Suc wr_ok)

lemma restore_cells_view:
  "ok s \<Longrightarrow> m \<le> n \<Longrightarrow> k < n \<Longrightarrow>
     view (restore_cells wr m l s) k = (if k < m then l k else view s k)"
  by (induction m) (auto simp: restore_cells_Suc restore_cells_ok wr_view)

text \<open>What was saved from one state is what a later state shows after writing it back.\<close>

lemma save_restore:
  assumes "ok s" and "ok t" and "m \<le> n" and "k < m"
  shows "view (restore_cells wr m (fst (save_cells rd m (l, s))) t) k = view s k"
  using assms by (simp add: restore_cells_view save_cells_value)

end

end
