(* ===== verification/List_Registers.thy ===== *)
theory List_Registers
  imports Dev_Gic Cell_Bank
begin

text \<open>
  The injection of a virtual interrupt, which the code does twice with the same loop:
  guest_rpb_irq_handler on the list registers of the interrupt controller (the guest is
  running) and guest_rpb_irq_handler_suspend on the guest's saved copy of them. The loop
  is one function here, over a bank of list registers given by its read and write.
\<close>

section \<open>The loop\<close>

text \<open>The word put in a free list register.\<close>

definition list_reg_inject :: "u32 \<Rightarrow> int \<Rightarrow> int \<Rightarrow> u32" where
  "list_reg_inject reg pid vid =
     (let reg = set_bit32 reg 1 1;
          reg = set_field reg 29 28 (list_reg_state_val LR_Pending);
          reg = set_field reg 19 10 (word_of_int pid)
      in set_field reg 9 0 (word_of_int vid))"

definition list_reg_invalid :: "u32 \<Rightarrow> bool" where
  "list_reg_invalid reg \<longleftrightarrow> get_field reg 29 28 = list_reg_state_val LR_Invalid"

text \<open>The first invalid register takes the interrupt; \<^term>\<open>None\<close> when there is none.\<close>

fun inject_loop :: "(nat \<Rightarrow> 's \<Rightarrow> u32 \<times> 's) \<Rightarrow> (nat \<Rightarrow> u32 \<Rightarrow> 's \<Rightarrow> 's) \<Rightarrow>
    int \<Rightarrow> int \<Rightarrow> nat list \<Rightarrow> 's \<Rightarrow> 's option" where
  "inject_loop rd wr pid vid [] s = None"
| "inject_loop rd wr pid vid (i # ns) s =
     (let (reg, s1) = rd i s
      in if list_reg_invalid reg then Some (wr i (list_reg_inject reg pid vid) s1)
         else inject_loop rd wr pid vid ns s1)"

section \<open>The word of a pending interrupt\<close>

lemma bit_list_reg_inject:
  "bit (list_reg_inject reg pid vid) n \<longleftrightarrow>
     (if n < 10 then bit (word_of_int vid :: u32) n
      else if n < 20 then bit (word_of_int pid :: u32) (n - 10)
      else if n = 28 then True else if n = 29 then False else bit reg n)"
  by (auto simp: list_reg_inject_def field_simps32 bit_1_iff less_Suc_eq_le bit_0)

lemma list_reg_inject_state: "get_field (list_reg_inject reg pid vid) 29 28 = 1"
  by (rule bit_word_eqI) (auto simp: field_simps32 bit_list_reg_inject bit_1_iff)

lemma list_reg_inject_not_invalid: "\<not> list_reg_invalid (list_reg_inject reg pid vid)"
  by (simp add: list_reg_invalid_def list_reg_inject_state)

lemma list_reg_inject_pid:
  "get_field (list_reg_inject reg pid vid) 19 10 = take_bit 10 (word_of_int pid)"
  by (rule bit_word_eqI) (auto simp: field_simps32 bit_list_reg_inject bit_simps)

lemma list_reg_inject_vid:
  "get_field (list_reg_inject reg pid vid) 9 0 = take_bit 10 (word_of_int vid)"
  by (rule bit_word_eqI) (auto simp: field_simps32 bit_list_reg_inject bit_simps)

section \<open>The interface: a bank of 64 list registers\<close>

fun first_invalid :: "(nat \<Rightarrow> u32) \<Rightarrow> nat list \<Rightarrow> nat option" where
  "first_invalid v [] = None"
| "first_invalid v (i # ns) = (if list_reg_invalid (v i) then Some i else first_invalid v ns)"

lemma first_invalid_cong:
  "(\<And>i. i \<in> set ns \<Longrightarrow> v i = v' i) \<Longrightarrow> first_invalid v ns = first_invalid v' ns"
  by (induction ns) auto

lemma first_invalid_Some:
  "first_invalid v ns = Some i \<Longrightarrow> i \<in> set ns \<and> list_reg_invalid (v i)"
  by (induction ns) (auto split: if_splits)

lemma first_invalid_None:
  "first_invalid v ns = None \<longleftrightarrow> (\<forall>i \<in> set ns. \<not> list_reg_invalid (v i))"
  by (induction ns) auto

lemma first_invalid_least:
  "first_invalid v [0..<n] = Some i \<Longrightarrow> j < i \<Longrightarrow> \<not> list_reg_invalid (v j)"
proof (induction n)
  case (Suc n)
  have app: "first_invalid v (xs @ ys) =
      (case first_invalid v xs of None \<Rightarrow> first_invalid v ys | Some k \<Rightarrow> Some k)" for xs ys
    by (induction xs) auto
  show ?case
  proof (cases "first_invalid v [0..<n]")
    case None
    with Suc.prems show ?thesis
      using first_invalid_None [of v "[0..<n]"] by (auto simp: app split: if_splits)
  next
    case (Some k)
    with Suc show ?thesis by (simp add: app)
  qed
qed simp

locale list_reg_bank = cell_bank rd wr view ok 64
  for rd :: "nat \<Rightarrow> 's \<Rightarrow> u32 \<times> 's"
    and wr :: "nat \<Rightarrow> u32 \<Rightarrow> 's \<Rightarrow> 's"
    and view :: "'s \<Rightarrow> nat \<Rightarrow> u32"
    and ok :: "'s \<Rightarrow> bool"
begin

lemma inject_loop_None:
  assumes "ok s" and "set ns \<subseteq> {..<64}"
  shows "inject_loop rd wr pid vid ns s = None \<longleftrightarrow> first_invalid (view s) ns = None"
  using assms
proof (induction ns arbitrary: s)
  case (Cons i ns)
  have "first_invalid (view (snd (rd i s))) ns = first_invalid (view s) ns"
    using Cons.prems by (intro first_invalid_cong rd_view) auto
  with Cons show ?case by (simp add: case_prod_beta rd_value rd_ok)
qed simp

lemma inject_loop_Some:
  assumes "ok s" and "set ns \<subseteq> {..<64}" and "inject_loop rd wr pid vid ns s = Some t"
  obtains i where "first_invalid (view s) ns = Some i" and "ok t"
    and "\<And>j. j < 64 \<Longrightarrow> view t j =
      (if i = j then list_reg_inject (view s i) pid vid else view s j)"
  using assms
proof (induction ns arbitrary: s thesis)
  case Nil
  then show ?case by simp
next
  case (Cons i ns)
  show ?case
  proof (cases "list_reg_invalid (view s i)")
    case True
    with Cons.prems(2-4) have "t = wr i (list_reg_inject (view s i) pid vid) (snd (rd i s))"
      by (simp add: case_prod_beta rd_value)
    with True Cons.prems(2,3) show ?thesis
      by (intro Cons.prems(1) [of i]) (auto simp: wr_ok rd_ok wr_view rd_view)
  next
    case False
    with Cons.prems(2-4) have "inject_loop rd wr pid vid ns (snd (rd i s)) = Some t"
      by (simp add: case_prod_beta rd_value)
    from Cons.IH [OF _ rd_ok [OF Cons.prems(2)] _ this] Cons.prems(3)
    obtain k where k: "first_invalid (view (snd (rd i s))) ns = Some k" "ok t"
      "\<And>j. j < 64 \<Longrightarrow> view t j = (if k = j
         then list_reg_inject (view (snd (rd i s)) k) pid vid else view (snd (rd i s)) j)"
      by auto
    have same: "first_invalid (view (snd (rd i s))) ns = first_invalid (view s) ns"
      using Cons.prems by (intro first_invalid_cong rd_view) auto
    moreover have "k < 64"
      using first_invalid_Some [OF k(1)] Cons.prems(3) by auto
    ultimately show ?thesis
      using False k Cons.prems(2) by (intro Cons.prems(1) [of k]) (auto simp: rd_view)
  qed
qed

text \<open>Two banks with the same contents take the interrupt in the same register.\<close>

lemma inject_loop_view:
  assumes "ok s" and "set ns \<subseteq> {..<64}" and "inject_loop rd wr pid vid ns s = Some t"
    and "\<And>j. j < 64 \<Longrightarrow> view s j = v j" and "j < 64"
  shows "view t j = (case first_invalid v ns of None \<Rightarrow> v j
     | Some i \<Rightarrow> if i = j then list_reg_inject (v i) pid vid else v j)"
proof -
  obtain i where i: "first_invalid (view s) ns = Some i"
    "\<And>j. j < 64 \<Longrightarrow> view t j = (if i = j then list_reg_inject (view s i) pid vid else view s j)"
    using inject_loop_Some [OF assms(1-3)] by metis
  have "first_invalid (view s) ns = first_invalid v ns"
    using assms(2,4) by (intro first_invalid_cong) auto
  with i(1) have "first_invalid v ns = Some i" by simp
  moreover have "i < 64" using first_invalid_Some [OF i(1)] assms(2) by auto
  ultimately show ?thesis using i(2) assms(4,5) by simp
qed

end

section \<open>The list registers of the interrupt controller\<close>

definition list_reg_addr :: "dev_gic2_vctrl \<Rightarrow> nat \<Rightarrow> u32" where
  "list_reg_addr me n = vctrl_base_addr me + 0x100 + of_nat n * 4"

text \<open>
  The controller keeps what is written to a list register until the guest or the
  hypervisor changes it: its addresses answer with the last value written.
\<close>

definition live_list_ok :: "dev_gic2_vctrl \<Rightarrow> machine \<Rightarrow> bool" where
  "live_list_ok me h \<longleftrightarrow> (\<forall>n < 64. ram h (list_reg_addr me n)) \<and> aligned 2 (vctrl_base_addr me)"

definition live_list :: "dev_gic2_vctrl \<Rightarrow> machine \<Rightarrow> nat \<Rightarrow> u32" where
  "live_list me h n = load32 (mem h) (list_reg_addr me n)"

lemma aligned_list_reg_addr:
  assumes "aligned 2 (vctrl_base_addr me)" and "n < 64"
  shows "aligned 2 (list_reg_addr me n)"
proof -
  have "aligned 2 (0x100 + of_nat n * 4)"
    using assms(2) by (simp add: aligned_def unat_word_ariths unat_of_nat)
  then show ?thesis
    using aligned_add [OF assms(1)] by (simp add: list_reg_addr_def add.assoc)
qed

lemma list_reg_addr_inj: "i < 64 \<Longrightarrow> j < 64 \<Longrightarrow> list_reg_addr me i = list_reg_addr me j \<Longrightarrow> i = j"
proof -
  assume ij: "i < 64" "j < 64" and "list_reg_addr me i = list_reg_addr me j"
  then have "unat (of_nat i * 4 :: u32) = unat (of_nat j * 4 :: u32)"
    by (simp add: list_reg_addr_def)
  with ij show "i = j" by (simp add: unat_word_ariths unat_of_nat)
qed

interpretation live: list_reg_bank
  "dev_gic2_vctrl_read_list me" "dev_gic2_vctrl_write_list_simple me" "live_list me"
  "live_list_ok me" for me
proof (unfold_locales, goal_cases)
  case (1 s i)
  then show ?case
    by (simp add: dev_gic2_vctrl_read_list_def live_list_ok_def live_list_def list_reg_addr_def
        io_readw_ram)
next
  case (2 s i)
  then show ?case
    by (simp add: dev_gic2_vctrl_read_list_def live_list_ok_def hw_simps ram_def)
next
  case (3 s j i)
  then show ?case by (simp add: dev_gic2_vctrl_read_list_def live_list_def hw_simps)
next
  case (4 s i v)
  then show ?case
    by (simp add: dev_gic2_vctrl_write_list_simple_def live_list_ok_def hw_simps)
next
  case (5 s i j v)
  then show ?case
    using list_reg_addr_inj [of i j me]
    by (simp add: dev_gic2_vctrl_write_list_simple_def live_list_ok_def live_list_def hw_simps
        load32_store32 aligned_list_reg_addr flip: list_reg_addr_def)
qed

section \<open>A saved copy of the list registers\<close>

interpretation saved: list_reg_bank
  "\<lambda>i (l :: nat \<Rightarrow> u32). (l i, l)" "\<lambda>i v l. l(i := v)" "\<lambda>l. l" "\<lambda>_. True"
  by unfold_locales auto

end
