(* ===== verification/Debug_Utils.thy ===== *)
theory Debug_Utils
  imports Meteor_Prelude
begin

text \<open>
  sys/debug_utils.c and the macros of sys/include/debug_utils.h: messages of a debug unit,
  on the console and in a log file per unit. \<open>release\<close> is the macro \<open>RELEASE\<close>, which compiles
  most of it away. A \<open>FILE*\<close> is a number, 0 the null pointer; what \<open>fopen\<close> returns is a
  parameter. A message is the text that \<open>vsnprintf\<close> makes of it, before it is cut to the buffer.
\<close>

section \<open>State\<close>

datatype stream = Stderr | Log_File nat

type_synonym printed = "(stream \<times> string) list"

record debug_unit =
  unit_print :: int \<comment> \<open>the field \<open>print\<close>\<close>
  unit_log :: int \<comment> \<open>the field \<open>log\<close>\<close>
  fd :: nat

text \<open>\<open>debug_units\<close> has an entry for each unit but the last of the enum, which counts them.\<close>

record debug_state =
  path_prefix :: string \<comment> \<open>128 bytes with the final 0\<close>
  debug_units :: "debug_unit_enum \<Rightarrow> debug_unit"
  close_at_exit :: bool \<comment> \<open>\<open>debug_utils_close\<close> is registered with \<open>atexit\<close>\<close>

definition debug_unit_list :: "debug_unit_enum list" where
  "debug_unit_list = [d_meteor, d_exception_handler, d_guest, d_guest_rpb, d_scheduler,
     d_hypervisor_call, d_monitor, d_dev_gic2_cpu_if, d_dev_gic2_vctrl, d_dev_gic2_dist,
     d_vdev_rpb_sysctrl, d_vdev_rpb_sysreg, d_vdev_gic2_dist, d_vdev_timer, d_pagetable,
     d_memory_allocator]"

fun debug_unit_names :: "debug_unit_enum \<Rightarrow> string" where
  "debug_unit_names d_meteor = ''d_meteor''"
| "debug_unit_names d_exception_handler = ''d_exception_handler''"
| "debug_unit_names d_guest = ''d_guest''"
| "debug_unit_names d_guest_rpb = ''d_guest_rpb''"
| "debug_unit_names d_scheduler = ''d_scheduler''"
| "debug_unit_names d_hypervisor_call = ''d_hypervisor_call''"
| "debug_unit_names d_monitor = ''d_monitor''"
| "debug_unit_names d_dev_gic2_cpu_if = ''d_dev_gic2_cpu_if''"
| "debug_unit_names d_dev_gic2_vctrl = ''d_dev_gic2_vctrl''"
| "debug_unit_names d_dev_gic2_dist = ''d_dev_gic2_dist''"
| "debug_unit_names d_vdev_rpb_sysctrl = ''d_vdev_rpb_sysctrl''"
| "debug_unit_names d_vdev_rpb_sysreg = ''d_vdev_rpb_sysreg''"
| "debug_unit_names d_vdev_gic2_dist = ''d_vdev_gic2_dist''"
| "debug_unit_names d_vdev_timer = ''d_vdev_timer''"
| "debug_unit_names d_pagetable = ''d_pagetable''"
| "debug_unit_names d_memory_allocator = ''d_memory_allocator''"
| "debug_unit_names DEBUG_UNIT_COUNT = ''DEBUG_UNIT_COUNT''"

definition debug_unit_at :: "debug_unit_enum \<Rightarrow> debug_state \<Rightarrow> debug_unit res" where
  "debug_unit_at ue st =
     (if ue = DEBUG_UNIT_COUNT then Inl (OutOfBounds ''debug_units'' 16)
      else Inr (debug_units st ue))"

definition upd_unit :: "debug_unit_enum \<Rightarrow> (debug_unit \<Rightarrow> debug_unit) \<Rightarrow> debug_state \<Rightarrow>
    debug_state res" where
  "upd_unit ue f st = bindR (debug_unit_at ue st)
     (\<lambda>u. Inr (st\<lparr>debug_units := (debug_units st)(ue := f u)\<rparr>))"

section \<open>Setting up\<close>

definition debug_utils_init :: "string \<Rightarrow> debug_state \<Rightarrow> debug_state res" where
  "debug_utils_init prefix st =
     (if 128 \<le> length prefix then Inl (OutOfBounds ''path_prefix'' (int (length prefix)))
      else
        let st = st\<lparr>path_prefix := prefix, close_at_exit := True\<rparr>
        in Inr (fold (\<lambda>ue st. st\<lparr>debug_units := (debug_units st)
                  (ue := \<lparr>unit_print = 0, unit_log = 0, fd = 0\<rparr>)\<rparr>) debug_unit_list st))"

text \<open>The files that are closed.\<close>

definition debug_utils_close :: "bool \<Rightarrow> debug_state \<Rightarrow> nat list" where
  "debug_utils_close release st =
     (if release then []
      else filter (\<lambda>f. f \<noteq> 0) (map (\<lambda>ue. fd (debug_units st ue)) debug_unit_list))"

definition debug_utils_setp :: "bool \<Rightarrow> debug_unit_enum \<Rightarrow> debug_state \<Rightarrow> debug_state res" where
  "debug_utils_setp release ue st =
     (if release then Inr st else upd_unit ue (\<lambda>u. u\<lparr>unit_print := 1\<rparr>) st)"

definition debug_utils_unsetp :: "bool \<Rightarrow> debug_unit_enum \<Rightarrow> debug_state \<Rightarrow> debug_state res" where
  "debug_utils_unsetp release ue st =
     (if release then Inr st else upd_unit ue (\<lambda>u. u\<lparr>unit_print := 0\<rparr>) st)"

definition debug_utils_setl :: "bool \<Rightarrow> (string \<Rightarrow> nat) \<Rightarrow> debug_unit_enum \<Rightarrow> debug_state \<Rightarrow>
    debug_state res" where
  "debug_utils_setl release fopen ue st =
     (if release then Inr st
      else
        bindR (debug_unit_at ue st) (\<lambda>u.
        bindR
         (if fd u = 0 then
            let file_name = path_prefix st @ debug_unit_names ue @ ''.log''
            in if 128 \<le> length file_name
               then Inl (OutOfBounds ''file_name'' (int (length file_name)))
               else bindR (upd_unit ue (\<lambda>u. u\<lparr>fd := fopen file_name\<rparr>) st) (\<lambda>st.
                      if fopen file_name = 0 then Inl (Exit ue ''error opening log file: %s'')
                      else Inr st)
          else Inr st)
         (\<lambda>st. upd_unit ue (\<lambda>u. u\<lparr>unit_log := 1\<rparr>) st)))"

definition debug_utils_unsetl :: "bool \<Rightarrow> debug_unit_enum \<Rightarrow> debug_state \<Rightarrow> debug_state res" where
  "debug_utils_unsetl release ue st =
     (if release then Inr st else upd_unit ue (\<lambda>u. u\<lparr>unit_log := 0\<rparr>) st)"

section \<open>Messages\<close>

text \<open>\<open>%d\<close>, and \<open>%08X\<close> with its eight digits.\<close>

fun digits :: "nat \<Rightarrow> string" where
  "digits n = (if n < 10 then [char_of (48 + n)] else digits (n div 10) @ [char_of (48 + n mod 10)])"

declare digits.simps [simp del]

definition show_int :: "int \<Rightarrow> string" where
  "show_int i = (if i < 0 then ''-'' @ digits (nat (- i)) else digits (nat i))"

definition show_hex8 :: "u32 \<Rightarrow> string" where
  "show_hex8 w = map (\<lambda>k. ''0123456789ABCDEF'' ! unat (drop_bit (4 * k) w AND 0xF)) (rev [0..<8])"

text \<open>\<open>head\<close> has room for 127 characters and \<open>_main\<close> for 255; \<open>tail\<close> is \<open>]\<close> and a new line.\<close>

definition buf_size :: nat where "buf_size = 256"

definition head_of :: "debug_unit_enum \<Rightarrow> string" where
  "head_of ue = take (buf_size div 2 - 1) (''['' @ debug_unit_names ue @ '']['')"

definition head_of_id :: "u32 \<Rightarrow> debug_unit_enum \<Rightarrow> string" where
  "head_of_id i ue =
     take (buf_size div 2 - 1) (''['' @ debug_unit_names ue @ ''_'' @ show_int (sint i) @ '']['')"

definition line_of :: "string \<Rightarrow> string \<Rightarrow> string" where
  "line_of head msg = head @ take (buf_size - 1) msg @ [CHR '']'', CHR 0x0A]"

definition to_console :: "string \<Rightarrow> printed" where
  "to_console line = [(Stderr, ''   '' @ line)]"

definition to_log :: "debug_unit \<Rightarrow> string \<Rightarrow> printed" where
  "to_log u line = (if unit_log u \<noteq> 0 then [(Log_File (fd u), line)] else [])"

text \<open>\<open>printd_base\<close> and \<open>printdi_base\<close> differ in the head only, and so do the next two.\<close>

definition printd_head :: "bool \<Rightarrow> string \<Rightarrow> debug_unit_enum \<Rightarrow> string \<Rightarrow> debug_state \<Rightarrow> printed res" where
  "printd_head release head ue msg st =
     (if release then Inr []
      else bindR (debug_unit_at ue st) (\<lambda>u.
        if unit_print u \<noteq> 0 \<or> unit_log u \<noteq> 0 then
          Inr ((if unit_print u \<noteq> 0 then to_console (line_of head msg) else [])
               @ to_log u (line_of head msg))
        else Inr []))"

definition printd_base :: "bool \<Rightarrow> debug_unit_enum \<Rightarrow> string \<Rightarrow> debug_state \<Rightarrow> printed res" where
  "printd_base release ue = printd_head release (head_of ue) ue"

definition printdi_base :: "bool \<Rightarrow> u32 \<Rightarrow> debug_unit_enum \<Rightarrow> string \<Rightarrow> debug_state \<Rightarrow> printed res" where
  "printdi_base release i ue = printd_head release (head_of_id i ue) ue"

text \<open>The second result says whether \<open>exit\<close> is called at the end.\<close>

definition printm_head :: "bool \<Rightarrow> string \<Rightarrow> bool \<Rightarrow> debug_unit_enum \<Rightarrow> string \<Rightarrow> debug_state \<Rightarrow>
    (printed \<times> bool) res" where
  "printm_head release head leave ue msg st =
     bindR (if release then Inr []
            else bindR (debug_unit_at ue st) (\<lambda>u. Inr (to_log u (line_of head msg))))
       (\<lambda>log. Inr (to_console (line_of head msg) @ log, leave))"

definition printm_base :: "bool \<Rightarrow> bool \<Rightarrow> debug_unit_enum \<Rightarrow> string \<Rightarrow> debug_state \<Rightarrow>
    (printed \<times> bool) res" where
  "printm_base release leave ue = printm_head release (head_of ue) leave ue"

definition printmi_base :: "bool \<Rightarrow> bool \<Rightarrow> u32 \<Rightarrow> debug_unit_enum \<Rightarrow> string \<Rightarrow> debug_state \<Rightarrow>
    (printed \<times> bool) res" where
  "printmi_base release leave i ue = printm_head release (head_of_id i ue) leave ue"

definition printe_base :: "string \<Rightarrow> printed" where
  "printe_base msg = to_console (line_of ''['' msg)"

text \<open>The macros. \<open>printm_once\<close> has a static variable for each place it is used at.\<close>

definition printd :: "bool \<Rightarrow> debug_unit_enum \<Rightarrow> string \<Rightarrow> debug_state \<Rightarrow> printed res" where
  "printd release ue msg st = printd_base release ue msg st"

definition printm :: "bool \<Rightarrow> debug_unit_enum \<Rightarrow> string \<Rightarrow> debug_state \<Rightarrow> (printed \<times> bool) res" where
  "printm release ue msg st = printm_base release False ue msg st"

definition printb :: "bool \<Rightarrow> debug_unit_enum \<Rightarrow> string \<Rightarrow> debug_state \<Rightarrow> (printed \<times> bool) res" where
  "printb release ue msg st = printm_base release True ue msg st"

definition printm_once :: "bool \<Rightarrow> debug_unit_enum \<Rightarrow> string \<Rightarrow> bool \<times> debug_state \<Rightarrow>
    (bool \<times> printed) res" where
  "printm_once release ue msg = (\<lambda>(first, st).
     if first then bindR (printm_base release False ue msg st) (\<lambda>(out, _). Inr (False, out))
     else Inr (first, []))"

definition printdi :: "bool \<Rightarrow> u32 \<Rightarrow> debug_unit_enum \<Rightarrow> string \<Rightarrow> debug_state \<Rightarrow> printed res" where
  "printdi release i ue msg st = printdi_base release i ue msg st"

definition printmi :: "bool \<Rightarrow> u32 \<Rightarrow> debug_unit_enum \<Rightarrow> string \<Rightarrow> debug_state \<Rightarrow> (printed \<times> bool) res" where
  "printmi release i ue msg st = printmi_base release False i ue msg st"

definition printbi :: "bool \<Rightarrow> u32 \<Rightarrow> debug_unit_enum \<Rightarrow> string \<Rightarrow> debug_state \<Rightarrow> (printed \<times> bool) res" where
  "printbi release i ue msg st = printmi_base release True i ue msg st"

section \<open>A log that is switched on is open\<close>

text \<open>The operations that change the state, with what \<open>fopen\<close> returns.\<close>

datatype debug_op = Set_Print debug_unit_enum | Unset_Print debug_unit_enum
  | Set_Log debug_unit_enum "string \<Rightarrow> nat" | Unset_Log debug_unit_enum

fun debug_do :: "bool \<Rightarrow> debug_op \<Rightarrow> debug_state \<Rightarrow> debug_state res" where
  "debug_do release (Set_Print ue) st = debug_utils_setp release ue st"
| "debug_do release (Unset_Print ue) st = debug_utils_unsetp release ue st"
| "debug_do release (Set_Log ue fopen) st = debug_utils_setl release fopen ue st"
| "debug_do release (Unset_Log ue) st = debug_utils_unsetl release ue st"

fun debug_run :: "bool \<Rightarrow> debug_op list \<Rightarrow> debug_state \<Rightarrow> debug_state res" where
  "debug_run release [] st = Inr st"
| "debug_run release (oper # opers) st = bindR (debug_do release oper st) (debug_run release opers)"

definition logs_open :: "debug_state \<Rightarrow> bool" where
  "logs_open st \<longleftrightarrow> (\<forall>ue. ue \<noteq> DEBUG_UNIT_COUNT \<longrightarrow> unit_log (debug_units st ue) \<noteq> 0 \<longrightarrow>
     fd (debug_units st ue) \<noteq> 0)"

lemma debug_unit_list_set: "set debug_unit_list = {ue. ue \<noteq> DEBUG_UNIT_COUNT}"
  unfolding debug_unit_list_def by (auto, metis debug_unit_enum.exhaust)

lemma clear_units:
  "debug_units (fold (\<lambda>ue st. st\<lparr>debug_units := (debug_units st)(ue := u)\<rparr>) ues st) ue
    = (if ue \<in> set ues then u else debug_units st ue)"
  by (induction ues arbitrary: st) auto

lemma debug_utils_init_open: "debug_utils_init p st = Inr st' \<Longrightarrow> logs_open st'"
  by (auto simp: debug_utils_init_def Let_def logs_open_def clear_units debug_unit_list_set
      split: if_splits)

lemma upd_unit_open:
  assumes "upd_unit ue f st = Inr st'" and "logs_open st"
    and "unit_log (f (debug_units st ue)) \<noteq> 0 \<Longrightarrow> fd (f (debug_units st ue)) \<noteq> 0"
  shows "logs_open st'"
  using assms by (auto simp: upd_unit_def debug_unit_at_def logs_open_def split: if_splits)

lemma setl_open:
  assumes "debug_utils_setl release fopen ue st = Inr st'" and "logs_open st"
  shows "logs_open st'"
proof (cases "release \<or> fd (debug_units st ue) \<noteq> 0")
  case True
  with assms show ?thesis
    by (auto simp: debug_utils_setl_def debug_unit_at_def split: if_splits elim!: upd_unit_open)
next
  case False
  with assms(1) have "st' = st\<lparr>debug_units := (debug_units st)(ue := (debug_units st ue)
      \<lparr>fd := fd (debug_units st' ue), unit_log := 1\<rparr>)\<rparr>" "fd (debug_units st' ue) \<noteq> 0"
    by (auto simp: debug_utils_setl_def debug_unit_at_def upd_unit_def Let_def split: if_splits)
  then have "debug_units st' = (debug_units st)(ue := (debug_units st ue)
      \<lparr>fd := fd (debug_units st' ue), unit_log := 1\<rparr>)"
    by (metis debug_state.select_convs(2) debug_state.surjective debug_state.update_convs(2))
  then have "debug_units st' ue' = debug_units st ue'" if "ue' \<noteq> ue" for ue'
    using that by (metis fun_upd_apply)
  with assms(2) \<open>fd (debug_units st' ue) \<noteq> 0\<close> show ?thesis unfolding logs_open_def by metis
qed

lemma debug_do_open:
  assumes "debug_do release oper st = Inr st'" and "logs_open st"
  shows "logs_open st'"
proof (cases "release \<or> (\<exists>ue fopen. oper = Set_Log ue fopen)")
  case True
  with assms show ?thesis
    by (cases oper) (auto simp: debug_utils_setp_def debug_utils_unsetp_def debug_utils_unsetl_def
        intro: setl_open)
next
  case False
  with assms show ?thesis
    by (cases oper) (auto simp: debug_utils_setp_def debug_utils_unsetp_def debug_utils_unsetl_def
        logs_open_def upd_unit_def debug_unit_at_def split: if_splits)
qed

lemma debug_ops_open:
  assumes "debug_run release opers st = Inr st'" and "logs_open st"
  shows "logs_open st'"
  using assms
proof (induction opers arbitrary: st)
  case (Cons oper opers)
  then show ?case by (auto simp: bindR_eq_Inr intro: debug_do_open)
qed simp

lemma line_length: "length head \<le> 127 \<Longrightarrow> length (line_of head msg) \<le> 384"
  by (simp add: line_of_def buf_size_def)

lemma printm_head_lines:
  assumes "printm_head release head leave ue msg st = Inr (out, l)" and "logs_open st"
    and "length head \<le> 127" and "(s, line) \<in> set out"
  shows "s \<noteq> Log_File 0 \<and> length line \<le> 387"
  using assms line_length [OF assms(3), of msg]
  by (auto simp: printm_head_def to_console_def to_log_def debug_unit_at_def logs_open_def
      split: if_splits)

lemma printd_head_lines:
  assumes "printd_head release head ue msg st = Inr out" and "logs_open st"
    and "length head \<le> 127" and "(s, line) \<in> set out"
  shows "s \<noteq> Log_File 0 \<and> length line \<le> 387"
  using assms line_length [OF assms(3), of msg]
  by (auto simp: printd_head_def to_console_def to_log_def debug_unit_at_def logs_open_def
      split: if_splits)

lemma head_length: "length (head_of ue) \<le> 127" "length (head_of_id i ue) \<le> 127"
  by (simp_all add: head_of_def head_of_id_def buf_size_def)

end
