(* ===== verification/Monitor.thy ===== *)
theory Monitor
  imports Io Debug_Utils
begin

text \<open>
  vmm/monitor.c: one 64-bit counter per event, for each guest and for the system. The
  messages that \<open>monitor_print\<close> passes to \<open>printm\<close> are a list of their own.
\<close>

section \<open>Events\<close>

datatype monitor_events =
    TRAP_WFI | TRAP_CP15 | TRAP_DABORT_VDEV | ALLOCATE_PAGE | TRAP_IRQ | VM_SWITCH

instantiation monitor_events :: enum
begin

definition enum_monitor_events :: "monitor_events list" where
  "enum_monitor_events =
     [TRAP_WFI, TRAP_CP15, TRAP_DABORT_VDEV, ALLOCATE_PAGE, TRAP_IRQ, VM_SWITCH]"

definition enum_all_monitor_events :: "(monitor_events \<Rightarrow> bool) \<Rightarrow> bool" where
  "enum_all_monitor_events P \<longleftrightarrow> P TRAP_WFI \<and> P TRAP_CP15 \<and> P TRAP_DABORT_VDEV
     \<and> P ALLOCATE_PAGE \<and> P TRAP_IRQ \<and> P VM_SWITCH"

definition enum_ex_monitor_events :: "(monitor_events \<Rightarrow> bool) \<Rightarrow> bool" where
  "enum_ex_monitor_events P \<longleftrightarrow> P TRAP_WFI \<or> P TRAP_CP15 \<or> P TRAP_DABORT_VDEV
     \<or> P ALLOCATE_PAGE \<or> P TRAP_IRQ \<or> P VM_SWITCH"

lemma monitor_events_UNIV:
  "UNIV = {TRAP_WFI, TRAP_CP15, TRAP_DABORT_VDEV, ALLOCATE_PAGE, TRAP_IRQ, VM_SWITCH}"
  using monitor_events.exhaust by blast

instance
proof
  show "UNIV = set (enum_class.enum :: monitor_events list)"
    by (simp add: enum_monitor_events_def monitor_events_UNIV)
  show "distinct (enum_class.enum :: monitor_events list)"
    by (simp add: enum_monitor_events_def)
  show "enum_class.enum_all P \<longleftrightarrow> Ball UNIV P" for P :: "monitor_events \<Rightarrow> bool"
    by (simp add: enum_all_monitor_events_def monitor_events_UNIV)
  show "enum_class.enum_ex P \<longleftrightarrow> Bex UNIV P" for P :: "monitor_events \<Rightarrow> bool"
    by (simp add: enum_ex_monitor_events_def monitor_events_UNIV)
qed

end

section \<open>The monitor\<close>

record monitor =
  print_count :: u32
  events :: "monitor_events \<Rightarrow> u64"

definition monitor_trigger :: "monitor_events \<Rightarrow> monitor \<Rightarrow> monitor" where
  "monitor_trigger event mon = mon\<lparr>events := (events mon)(event := events mon event + 1)\<rparr>"

definition monitor_read :: "monitor_events \<Rightarrow> monitor \<Rightarrow> u64" where
  "monitor_read event mon = events mon event"

definition monitor_reset :: "monitor \<Rightarrow> monitor" where
  "monitor_reset mon =
     fold (\<lambda>event mon. mon\<lparr>events := (events mon)(event := 0)\<rparr>) enum_class.enum
       (mon\<lparr>print_count := 0\<rparr>)"

definition monitor_print :: "monitor \<Rightarrow> monitor" where
  "monitor_print mon = mon\<lparr>print_count := print_count mon + 1\<rparr>"

text \<open>A line of the report, \<open>... = 0x%08X%08X\<close> on the two halves of the counter.\<close>

definition monitor_line :: "string \<Rightarrow> u64 \<Rightarrow> string" where
  "monitor_line label v = label @ '' = 0x'' @ show_hex8 (ucast (drop_bit 32 v))
     @ show_hex8 (ucast v AND mask32 31 0)"

definition monitor_print_lines :: "monitor \<Rightarrow> string list" where
  "monitor_print_lines mon =
     [''print count = '' @ show_int (sint (print_count mon)),
      monitor_line ''trap wfi'' (events mon TRAP_WFI),
      monitor_line ''trap cp15'' (events mon TRAP_CP15),
      monitor_line ''trap dabort vdev'' (events mon TRAP_DABORT_VDEV),
      monitor_line ''trap irq'' (events mon TRAP_IRQ),
      monitor_line ''vm switch'' (events mon VM_SWITCH)]"

section \<open>Counting\<close>

lemma monitor_reset_eq: "monitor_reset mon = mon\<lparr>print_count := 0, events := (\<lambda>_. 0)\<rparr>"
proof -
  have "(\<lambda>e. 0) = (events mon)(TRAP_WFI := 0, TRAP_CP15 := 0, TRAP_DABORT_VDEV := 0,
      ALLOCATE_PAGE := 0, TRAP_IRQ := 0, VM_SWITCH := 0)"
    by (auto simp: fun_eq_iff split: monitor_events.split) (metis monitor_events.exhaust)
  then show ?thesis by (simp add: monitor_reset_def enum_monitor_events_def)
qed

lemma monitor_read_trigger:
  "monitor_read e (monitor_trigger e' m) = monitor_read e m + (if e = e' then 1 else 0)"
  by (simp add: monitor_read_def monitor_trigger_def)

lemma monitor_read_triggers:
  "monitor_read e (fold monitor_trigger es m) = monitor_read e m + of_nat (count_list es e)"
  by (induction es arbitrary: m) (auto simp: monitor_read_trigger)

end
