(* ===== verification/Dev_Timer.thy ===== *)
theory Dev_Timer
  imports Io
begin

text \<open>
  The drivers of the dual timer (devices/dev_timer.c), of the board's counters
  (devices/dev_sys_ctrl.c) and of the file ROM (devices/dev_rom.c). The timer driver keeps
  the addresses of the registers of its two timers and a shadow of each control
  register; C arrays of two are functions of the timer's number.
\<close>

section \<open>The dual timer\<close>

datatype timer_mode = TimerMode_Free | TimerMode_Period

record dev_timer =
  timer_base_address :: u32
  load :: "nat \<Rightarrow> u32"
  timer_value :: "nat \<Rightarrow> u32"
  control :: "nat \<Rightarrow> u32"
  control_reg :: "nat \<Rightarrow> u32"
  int_clear :: "nat \<Rightarrow> u32"

text \<open>Every setter changes the shadow and then writes it to the control register.\<close>

definition dev_timer_update :: "dev_timer \<Rightarrow> nat \<Rightarrow> u32 \<Rightarrow> machine \<Rightarrow> dev_timer \<times> machine" where
  "dev_timer_update me n reg h =
     (me\<lparr>control_reg := (control_reg me)(n := reg)\<rparr>, io_writew (control me n) reg h)"

definition dev_timer_set_wrapping ::
  "dev_timer \<Rightarrow> nat \<Rightarrow> bool \<Rightarrow> machine \<Rightarrow> dev_timer \<times> machine" where
  "dev_timer_set_wrapping me n wrapping h =
     dev_timer_update me n
       (if wrapping then set_bit32 (control_reg me n) 0 0
        else set_bit32 (control_reg me n) 1 0) h"

definition dev_timer_set_size ::
  "dev_timer \<Rightarrow> nat \<Rightarrow> int \<Rightarrow> machine \<Rightarrow> dev_timer \<times> machine" where
  "dev_timer_set_size me n sz h =
     dev_timer_update me n
       (if sz = 16 then set_bit32 (control_reg me n) 1 0
        else if sz = 32 then set_bit32 (control_reg me n) 1 1
        else control_reg me n) h"

definition dev_timer_set_prescale ::
  "dev_timer \<Rightarrow> nat \<Rightarrow> int \<Rightarrow> machine \<Rightarrow> dev_timer \<times> machine" where
  "dev_timer_set_prescale me n prescale h =
     dev_timer_update me n
       (if prescale = 1 then set_field (control_reg me n) 3 2 0b00
        else if prescale = 16 then set_field (control_reg me n) 3 2 0b01
        else if prescale = 256 then set_field (control_reg me n) 3 2 0b10
        else control_reg me n) h"

definition dev_timer_set_interrupt ::
  "dev_timer \<Rightarrow> nat \<Rightarrow> bool \<Rightarrow> machine \<Rightarrow> dev_timer \<times> machine" where
  "dev_timer_set_interrupt me n int_en h =
     dev_timer_update me n
       (if int_en then set_bit32 (control_reg me n) 5 1
        else set_bit32 (control_reg me n) 5 0) h"

definition dev_timer_set_mode ::
  "dev_timer \<Rightarrow> nat \<Rightarrow> timer_mode \<Rightarrow> machine \<Rightarrow> dev_timer \<times> machine" where
  "dev_timer_set_mode me n mode h =
     dev_timer_update me n
       (case mode of TimerMode_Free \<Rightarrow> set_bit32 (control_reg me n) 6 0
        | TimerMode_Period \<Rightarrow> set_bit32 (control_reg me n) 6 1) h"

definition dev_timer_set_enable ::
  "dev_timer \<Rightarrow> nat \<Rightarrow> bool \<Rightarrow> machine \<Rightarrow> dev_timer \<times> machine" where
  "dev_timer_set_enable me n en h =
     dev_timer_update me n
       (if en then set_bit32 (control_reg me n) 7 1
        else set_bit32 (control_reg me n) 7 0) h"

definition dev_timer_get_load :: "dev_timer \<Rightarrow> nat \<Rightarrow> machine \<Rightarrow> u32 \<times> machine" where
  "dev_timer_get_load me n h = io_readw (load me n) h"

definition dev_timer_set_load :: "dev_timer \<Rightarrow> nat \<Rightarrow> u32 \<Rightarrow> machine \<Rightarrow> machine" where
  "dev_timer_set_load me n l h = io_writew (load me n) l h"

definition dev_timer_get_value :: "dev_timer \<Rightarrow> nat \<Rightarrow> machine \<Rightarrow> u32 \<times> machine" where
  "dev_timer_get_value me n h = io_readw (timer_value me n) h"

definition dev_timer_set_value :: "dev_timer \<Rightarrow> nat \<Rightarrow> u32 \<Rightarrow> machine \<Rightarrow> machine" where
  "dev_timer_set_value me n v h = io_writew (timer_value me n) v h"

definition dev_timer_clear_interrupt :: "dev_timer \<Rightarrow> nat \<Rightarrow> machine \<Rightarrow> machine" where
  "dev_timer_clear_interrupt me n h = io_writew (int_clear me n) 0 h"

definition dev_timer_init :: "dev_timer \<Rightarrow> u32 \<Rightarrow> machine \<Rightarrow> dev_timer \<times> machine" where
  "dev_timer_init me base_address h =
     (let me = me\<lparr>timer_base_address := base_address,
                  load := (load me)(0 := base_address + 0x0000, 1 := base_address + 0x0020),
                  timer_value := (timer_value me)(0 := base_address + 0x0004,
                                                  1 := base_address + 0x0024),
                  control := (control me)(0 := base_address + 0x0008, 1 := base_address + 0x0028),
                  control_reg := (control_reg me)(0 := 0, 1 := 0),
                  int_clear := (int_clear me)(0 := base_address + 0x000c,
                                              1 := base_address + 0x002c)\<rparr>
      in fold (\<lambda>i (me, h).
           let (me, h) = dev_timer_set_wrapping me i False h;
               (me, h) = dev_timer_set_size me i 32 h;
               (me, h) = dev_timer_set_prescale me i 1 h;
               (me, h) = dev_timer_set_interrupt me i False h;
               (me, h) = dev_timer_set_mode me i TimerMode_Period h
           in dev_timer_set_enable me i False h) [0..<2] (me, h))"

section \<open>The board's counters\<close>

record dev_sys_ctrl =
  base_addr_reg :: u32
  base_addr_ctrl :: u32

definition dev_sys_ctrl_init :: "u32 \<Rightarrow> u32 \<Rightarrow> dev_sys_ctrl" where
  "dev_sys_ctrl_init reg ctrl = \<lparr>base_addr_reg = reg, base_addr_ctrl = ctrl\<rparr>"

definition dev_sys_ctrl_100counter :: "dev_sys_ctrl \<Rightarrow> machine \<Rightarrow> u32 \<times> machine" where
  "dev_sys_ctrl_100counter me h = io_readw (base_addr_reg me + 0x24) h"

definition dev_sys_ctrl_24Mcounter :: "dev_sys_ctrl \<Rightarrow> machine \<Rightarrow> u32 \<times> machine" where
  "dev_sys_ctrl_24Mcounter me h = io_readw (base_addr_reg me + 0x5C) h"

section \<open>The ROM of files\<close>

text \<open>A sequence of files, each a size word and that many bytes.\<close>

record dev_rom =
  rom_base_address :: u32
  cur_address :: u32
  rom_size :: u32

definition dev_rom_init :: "dev_rom \<Rightarrow> u32 \<Rightarrow> dev_rom" where
  "dev_rom_init dr base_address = dr\<lparr>rom_base_address := base_address\<rparr>"

definition dev_rom_set_file :: "dev_rom \<Rightarrow> u32 \<Rightarrow> machine \<Rightarrow> dev_rom \<times> machine" where
  "dev_rom_set_file dr file_id h =
     (let dr = dr\<lparr>cur_address := rom_base_address dr\<rparr>;
          (dr, h) = fold (\<lambda>i (dr, h).
             let (size, h) = io_readw (cur_address dr) h
             in (dr\<lparr>cur_address := cur_address dr + (size + 4)\<rparr>, h)) [0..<unat file_id] (dr, h);
          (size, h) = io_readw (cur_address dr) h
      in (dr\<lparr>rom_size := size, cur_address := cur_address dr + 4\<rparr>, h))"

definition dev_rom_readb :: "dev_rom \<Rightarrow> machine \<Rightarrow> u8 \<times> dev_rom \<times> machine" where
  "dev_rom_readb dr h =
     (let (b, h) = io_readb (cur_address dr) h
      in (b, dr\<lparr>cur_address := cur_address dr + 1\<rparr>, h))"

definition dev_rom_readw :: "dev_rom \<Rightarrow> machine \<Rightarrow> u32 \<times> dev_rom \<times> machine" where
  "dev_rom_readw dr h =
     (let (word, h) = io_readw (cur_address dr) h
      in (word, dr\<lparr>cur_address := cur_address dr + 4\<rparr>, h))"

section \<open>What the setters leave in the control register\<close>

definition dev_timer_shadow_ok :: "dev_timer \<Rightarrow> nat \<Rightarrow> machine \<Rightarrow> bool" where
  "dev_timer_shadow_ok me n h \<longleftrightarrow> load32 (mem h) (control me n) = control_reg me n"

lemma dev_timer_update_shadow:
  "dev_timer_update me n reg h = (me', h') \<Longrightarrow> dev_timer_shadow_ok me' n h'"
  by (auto simp: dev_timer_update_def dev_timer_shadow_ok_def hw_simps load32_store32_same)

lemmas dev_timer_setters = dev_timer_set_wrapping_def dev_timer_set_size_def
  dev_timer_set_prescale_def dev_timer_set_interrupt_def dev_timer_set_mode_def
  dev_timer_set_enable_def

lemma dev_timer_setters_shadow:
  "dev_timer_set_wrapping me n b h = (me', h') \<Longrightarrow> dev_timer_shadow_ok me' n h'"
  "dev_timer_set_size me n k h = (me', h') \<Longrightarrow> dev_timer_shadow_ok me' n h'"
  "dev_timer_set_prescale me n k h = (me', h') \<Longrightarrow> dev_timer_shadow_ok me' n h'"
  "dev_timer_set_interrupt me n b h = (me', h') \<Longrightarrow> dev_timer_shadow_ok me' n h'"
  "dev_timer_set_mode me n m h = (me', h') \<Longrightarrow> dev_timer_shadow_ok me' n h'"
  "dev_timer_set_enable me n b h = (me', h') \<Longrightarrow> dev_timer_shadow_ok me' n h'"
  by (auto simp: dev_timer_setters intro: dev_timer_update_shadow)

end
