(* ===== verification/Vdev.thy ===== *)
theory Vdev
  imports Dev_Gic Dev_Timer
begin

text \<open>
  The virtual devices of a guest, which serve its trapped loads and stores:
  v_devices/vdev_gic2_dist.c (the interrupt distributor), vdev_timer.c, vdev_rpb_sysctrl.c
  and vdev_rpb_sysreg.c. An access the device does not know stops the hypervisor
  (\<open>printb\<close>).
\<close>

section \<open>The virtual distributor\<close>

record virq_state =
  virq_en :: bool
  virq_pid :: int

text \<open>The pointer to the physical distributor is the driver's constant state.\<close>

record vdev_gic2_dist =
  vdist_en :: bool
  virq :: "nat \<Rightarrow> virq_state" \<comment> \<open>64 entries\<close>
  vdist_sys_gic_dist :: dev_gic2_dist

definition vdev_gic2_dist_init :: "vdev_gic2_dist \<Rightarrow> dev_gic2_dist \<Rightarrow> vdev_gic2_dist" where
  "vdev_gic2_dist_init me sys_gic_dist =
     (let me = me\<lparr>vdist_en := False\<rparr>;
          me = fold (\<lambda>i me. me\<lparr>virq := (virq me)(i := \<lparr>virq_en = False, virq_pid = -1\<rparr>)\<rparr>)
                 [0..<64] me
      in me\<lparr>vdist_sys_gic_dist := sys_gic_dist\<rparr>)"

definition vdev_gic2_dist_map_virq :: "vdev_gic2_dist \<Rightarrow> nat \<Rightarrow> int \<Rightarrow> vdev_gic2_dist" where
  "vdev_gic2_dist_map_virq me vid pid =
     me\<lparr>virq := (virq me)(vid := (virq me vid)\<lparr>virq_pid := pid\<rparr>)\<rparr>"

definition vdev_gic2_dist_irq_to_virq :: "vdev_gic2_dist \<Rightarrow> int \<Rightarrow> int" where
  "vdev_gic2_dist_irq_to_virq me pid =
     (case find (\<lambda>i. virq_pid (virq me i) = pid) [0..<64] of
        Some i \<Rightarrow> int i | None \<Rightarrow> -1)"

definition vdev_gic2_dist_read :: "vdev_gic2_dist \<Rightarrow> u32 \<Rightarrow> u32 res" where
  "vdev_gic2_dist_read me offset =
     (if offset = 0x04
      then Inr (push_bit 11 0b11111 OR push_bit 10 1 OR push_bit 5 1 OR push_bit 0 1)
      else Inl (Exit d_vdev_gic2_dist ''read error, offset = 0x%X''))"

text \<open>
  One round of the loops over a set-enable and a clear-enable register: bit \<open>i\<close> of
  \<open>data\<close> is virtual interrupt \<open>ir_base + i\<close>, an index of the array of 64 that the code
  does not check.
\<close>

definition vdev_gic2_dist_isenable ::
  "u32 \<Rightarrow> nat \<Rightarrow> nat \<Rightarrow> vdev_gic2_dist \<times> machine \<Rightarrow> (vdev_gic2_dist \<times> machine) res" where
  "vdev_gic2_dist_isenable data ir_base i = (\<lambda>(me, h).
     let ir = ir_base + i
     in if get_bit data i \<noteq> 0 then
          if ir \<ge> 64 then Inl (OutOfBounds ''virq'' (int ir))
          else
            let me = me\<lparr>virq := (virq me)(ir := (virq me ir)\<lparr>virq_en := True\<rparr>)\<rparr>;
                pid = virq_pid (virq me ir)
            in if pid \<noteq> -1 then
                 bindR (dev_gic2_dist_enable_irq (vdist_sys_gic_dist me) pid h) (\<lambda>h. Inr (me, h))
               else Inr (me, h)
        else Inr (me, h))"

definition vdev_gic2_dist_icenable ::
  "u32 \<Rightarrow> nat \<Rightarrow> nat \<Rightarrow> vdev_gic2_dist \<times> machine \<Rightarrow> (vdev_gic2_dist \<times> machine) res" where
  "vdev_gic2_dist_icenable data ir_base i = (\<lambda>(me, h).
     let ir = ir_base + i
     in if get_bit data i \<noteq> 0 then
          if ir \<ge> 64 then Inl (OutOfBounds ''virq'' (int ir))
          else
            let me = me\<lparr>virq := (virq me)(ir := (virq me ir)\<lparr>virq_en := False\<rparr>)\<rparr>;
                pid = virq_pid (virq me ir)
            in if pid \<noteq> -1 then
                 bindR (dev_gic2_dist_disable_irq (vdist_sys_gic_dist me) pid h) (\<lambda>h. Inr (me, h))
               else Inr (me, h)
        else Inr (me, h))"

text \<open>
  The loop over a target register only prints; what is left of it is the check on
  \<open>n\<close>. Of the software generated interrupts every kind that is addressed to a CPU is
  an error; the loop over the CPUs has one round (\<open>cpu_count = 1\<close>).
\<close>

definition vdev_gic2_dist_write ::
  "vdev_gic2_dist \<Rightarrow> u32 \<Rightarrow> u32 \<Rightarrow> machine \<Rightarrow> (vdev_gic2_dist \<times> machine) res" where
  "vdev_gic2_dist_write me offset data h =
     (if offset = 0x0 then
        let group0_en = get_bit data 0 \<noteq> 0; group1_en = get_bit data 1 \<noteq> 0
        in if group0_en \<and> group1_en
           then Inl (Exit d_vdev_gic2_dist ''enable group0,1 at the same time, not implemented.'')
           else if group0_en \<or> group1_en then Inr (me\<lparr>vdist_en := True\<rparr>, h)
           else Inr (me\<lparr>vdist_en := False\<rparr>, h)
      else if offset = 0x80 then Inr (me, h)
      else if offset \<ge> 0x100 \<and> offset \<le> 0x17C then
        let n = (offset - 0x100) div 4; ir_base = n * 32
        in forR (vdev_gic2_dist_isenable data (unat ir_base)) [0..<32] (me, h)
      else if offset \<ge> 0x180 \<and> offset \<le> 0x1FC then
        let n = (offset - 0x180) div 4; ir_base = n * 32
        in forR (vdev_gic2_dist_icenable data (unat ir_base)) [0..<32] (me, h)
      else if offset \<ge> 0x400 \<and> offset \<le> 0x7F8 then Inr (me, h)
      else if offset \<ge> 0x800 \<and> offset \<le> 0x8F8 then
        let n = (offset - 0x800) div 4
        in if n \<le> 7 then Inl (Exit d_vdev_gic2_dist ''target register n = %d (< 7)'')
           else Inr (me, h)
      else if offset \<ge> 0xC00 \<and> offset \<le> 0xCFC then Inr (me, h)
      else if offset = 0xF00 then
        let target_list_filter = get_field data 25 24;
            cpu_target_list = get_field data 23 16
        in if target_list_filter = 0 then
             if get_bit cpu_target_list 0 \<noteq> 0
             then Inl (Exit d_vdev_gic2_dist ''send spi[%d] to cpu[%d]'')
             else Inr (me, h)
           else if target_list_filter = 1
           then Inl (Exit d_vdev_gic2_dist ''send to other cpus'')
           else if target_list_filter = 2
           then Inl (Exit d_vdev_gic2_dist ''send to iteself'')
           else Inl (Exit d_vdev_gic2_dist ''soft interrupt target_list_filter error (=%d)'')
      else Inl (Exit d_vdev_gic2_dist ''write 0x%X:0x%X error''))"

section \<open>The virtual timer\<close>

record vdev_timer =
  vtimer_load :: "nat \<Rightarrow> u32"
  vtimer_value :: "nat \<Rightarrow> u32"

definition vdev_timer_init :: "vdev_timer \<Rightarrow> vdev_timer" where
  "vdev_timer_init me =
     fold (\<lambda>i me. me\<lparr>vtimer_load := (vtimer_load me)(i := 0),
                     vtimer_value := (vtimer_value me)(i := 0)\<rparr>) [0..<2] me"

definition vdev_timer_read :: "vdev_timer \<Rightarrow> u32 \<Rightarrow> u32 res" where
  "vdev_timer_read me offset =
     (if offset = 0x0000 then Inr (vtimer_load me 0)
      else if offset = 0x0004 then Inr (vtimer_value me 0)
      else if offset = 0x0020 then Inr (vtimer_load me 1)
      else if offset = 0x0024 then Inr (vtimer_value me 1)
      else Inl (Exit d_vdev_timer ''read 0x%X error''))"

definition vdev_timer_write :: "vdev_timer \<Rightarrow> u32 \<Rightarrow> u32 \<Rightarrow> vdev_timer res" where
  "vdev_timer_write me offset data =
     (if offset = 0x0000 then
        Inr (me\<lparr>vtimer_load := (vtimer_load me)(0 := data),
                vtimer_value := (vtimer_value me)(0 := data)\<rparr>)
      else if offset = 0x0004 \<or> offset = 0x0008 \<or> offset = 0x000c then Inr me
      else if offset = 0x0020 then
        Inr (me\<lparr>vtimer_load := (vtimer_load me)(1 := data),
                vtimer_value := (vtimer_value me)(1 := data)\<rparr>)
      else if offset = 0x0024 \<or> offset = 0x0028 \<or> offset = 0x002c then Inr me
      else Inl (Exit d_vdev_timer ''write 0x%X:0x%X error''))"

section \<open>System control and system registers\<close>

text \<open>Neither device has state.\<close>

definition vdev_rpb_sysctrl_read :: "u32 \<Rightarrow> u32 res" where
  "vdev_rpb_sysctrl_read offset =
     (if offset = 0x0000 then Inr 0
      else if offset = 0x0fe0 then Inr 0x80
      else if offset = 0x0fe4 then Inr 0x11
      else if offset = 0x0fe8 then Inr 0x04
      else if offset = 0x0fec then Inr 0x00
      else if offset = 0x0ff0 then Inr 0x0d
      else if offset = 0x0ff4 then Inr 0xf0
      else if offset = 0x0ff8 then Inr 0x05
      else if offset = 0x0ffc then Inr 0xb1
      else Inl (Exit d_vdev_rpb_sysctrl ''read error, offset = 0x%X''))"

definition vdev_rpb_sysctrl_write :: "u32 \<Rightarrow> u32 \<Rightarrow> unit res" where
  "vdev_rpb_sysctrl_write offset data =
     (if offset = 0x00 then Inr ()
      else Inl (Exit d_vdev_rpb_sysctrl ''write 0x%X:0x%X error''))"

text \<open>The counter is read once for the debug message and once for the result.\<close>

definition vdev_rpb_sysreg_read :: "dev_sys_ctrl \<Rightarrow> u32 \<Rightarrow> machine \<Rightarrow> (u32 \<times> machine) res" where
  "vdev_rpb_sysreg_read sys_ctrl offset h =
     (if offset = 0x24 then
        let (_, h) = dev_sys_ctrl_100counter sys_ctrl h
        in Inr (dev_sys_ctrl_100counter sys_ctrl h)
      else if offset = 0x5C then
        let (_, h) = dev_sys_ctrl_24Mcounter sys_ctrl h
        in Inr (dev_sys_ctrl_24Mcounter sys_ctrl h)
      else Inl (Exit d_vdev_rpb_sysreg ''read error, offset = 0x%X''))"

definition vdev_rpb_sysreg_write :: "u32 \<Rightarrow> u32 \<Rightarrow> 'a res" where
  "vdev_rpb_sysreg_write offset data = Inl (Exit d_vdev_rpb_sysreg ''write 0x%X:0x%X error'')"

section \<open>The map from physical to virtual interrupts\<close>

lemma vdev_gic2_dist_init_virq:
  "i < 64 \<Longrightarrow> virq (vdev_gic2_dist_init me d) i = \<lparr>virq_en = False, virq_pid = -1\<rparr>"
proof -
  have "virq (fold (\<lambda>i me. me\<lparr>virq := (virq me)(i := v)\<rparr>) [0..<n] me) i
      = (if i < n then v else virq me i)" for n v and me :: vdev_gic2_dist
    by (induction n) auto
  then show "i < 64 \<Longrightarrow> ?thesis" by (simp add: vdev_gic2_dist_init_def Let_def)
qed

lemma vdev_gic2_dist_init_simps [simp]:
  "vdist_sys_gic_dist (vdev_gic2_dist_init me d) = d"
  "vdist_en (vdev_gic2_dist_init me d) = False"
proof -
  have "vdist_en (fold (\<lambda>i me. me\<lparr>virq := (virq me)(i := v)\<rparr>) ks me) = vdist_en me" for v ks
    and me :: vdev_gic2_dist
    by (induction ks arbitrary: me) auto
  then show "vdist_en (vdev_gic2_dist_init me d) = False"
    by (simp add: vdev_gic2_dist_init_def Let_def)
qed (simp add: vdev_gic2_dist_init_def Let_def)

lemma irq_to_virq_found:
  "vdev_gic2_dist_irq_to_virq me p = v \<Longrightarrow> v \<noteq> -1 \<Longrightarrow>
     0 \<le> v \<and> v < 64 \<and> virq_pid (virq me (nat v)) = p"
  by (auto simp: vdev_gic2_dist_irq_to_virq_def find_Some_iff split: option.splits)

lemma irq_to_virq_none:
  "vdev_gic2_dist_irq_to_virq me p = -1 \<longleftrightarrow> (\<forall>i < 64. virq_pid (virq me i) \<noteq> p)"
  by (auto simp: vdev_gic2_dist_irq_to_virq_def find_None_iff find_Some_iff split: option.splits)

lemma irq_to_virq_unique:
  assumes "i < 64" and "virq_pid (virq me i) = p"
    and "\<And>j. j < 64 \<Longrightarrow> virq_pid (virq me j) = p \<Longrightarrow> j = i"
  shows "vdev_gic2_dist_irq_to_virq me p = int i"
proof -
  have "vdev_gic2_dist_irq_to_virq me p \<noteq> -1"
    using assms(1,2) by (auto simp: irq_to_virq_none)
  from irq_to_virq_found [OF refl this]
  have v: "0 \<le> vdev_gic2_dist_irq_to_virq me p" "vdev_gic2_dist_irq_to_virq me p < 64"
    "virq_pid (virq me (nat (vdev_gic2_dist_irq_to_virq me p))) = p"
    by simp_all
  then have "nat (vdev_gic2_dist_irq_to_virq me p) = i" using assms(3) by simp
  with v(1) show ?thesis by simp
qed

section \<open>Enabling and disabling virtual interrupts\<close>

text \<open>The interrupts whose bit is set in \<open>data\<close> change, the others do not.\<close>

definition vdist_set_en :: "nat \<Rightarrow> nat \<Rightarrow> u32 \<Rightarrow> bool \<Rightarrow> vdev_gic2_dist \<Rightarrow> vdev_gic2_dist" where
  "vdist_set_en k ir_base data b me = me\<lparr>virq := (\<lambda>ir.
     if ir_base \<le> ir \<and> ir < ir_base + k \<and> bit data (ir - ir_base)
     then (virq me ir)\<lparr>virq_en := b\<rparr> else virq me ir)\<rparr>"

text \<open>The physical interrupts behind them, in the order the loop visits them.\<close>

definition vdist_forwarded :: "nat \<Rightarrow> nat \<Rightarrow> u32 \<Rightarrow> vdev_gic2_dist \<Rightarrow> int list" where
  "vdist_forwarded k ir_base data me =
     filter (\<lambda>p. p \<noteq> -1) (map (\<lambda>i. virq_pid (virq me (ir_base + i)))
       (filter (bit data) [0..<k]))"

lemma vdist_set_en_0 [simp]: "vdist_set_en 0 base data b me = me"
  by (rule vdev_gic2_dist.equality) (auto simp: vdist_set_en_def fun_eq_iff)

lemma vdist_set_en_Suc:
  "vdist_set_en (Suc k) base data b me =
     (if bit data k
      then (vdist_set_en k base data b me)\<lparr>virq := (virq (vdist_set_en k base data b me))
        (base + k := (virq (vdist_set_en k base data b me) (base + k))\<lparr>virq_en := b\<rparr>)\<rparr>
      else vdist_set_en k base data b me)"
  by (rule vdev_gic2_dist.equality) (auto simp: vdist_set_en_def fun_eq_iff less_Suc_eq)

lemma vdist_set_en_pid [simp]:
  "virq_pid (virq (vdist_set_en k base data b me) ir) = virq_pid (virq me ir)"
  "vdist_sys_gic_dist (vdist_set_en k base data b me) = vdist_sys_gic_dist me"
  by (simp_all add: vdist_set_en_def)

definition dist_enable_all :: "dev_gic2_dist \<Rightarrow> int list \<Rightarrow> machine \<Rightarrow> machine res" where
  "dist_enable_all d ps h = foldl (\<lambda>r p. bindR r (dev_gic2_dist_enable_irq d p)) (Inr h) ps"

definition dist_disable_all :: "dev_gic2_dist \<Rightarrow> int list \<Rightarrow> machine \<Rightarrow> machine res" where
  "dist_disable_all d ps h = foldl (\<lambda>r p. bindR r (dev_gic2_dist_disable_irq d p)) (Inr h) ps"

lemma vdist_enable_step:
  assumes "base + i < 64" and "i < 32"
  shows "vdev_gic2_dist_isenable data base i (me, h) =
    (let me' = me\<lparr>virq := (virq me)(base + i := (virq me (base + i))\<lparr>virq_en := True\<rparr>)\<rparr>;
         p = virq_pid (virq me (base + i))
     in if \<not> bit data i then Inr (me, h) else if p = -1 then Inr (me', h)
        else bindR (dev_gic2_dist_enable_irq (vdist_sys_gic_dist me) p h) (\<lambda>h. Inr (me', h)))"
  using assms by (simp add: vdev_gic2_dist_isenable_def Let_def field_simps32)

lemma vdist_disable_step:
  assumes "base + i < 64" and "i < 32"
  shows "vdev_gic2_dist_icenable data base i (me, h) =
    (let me' = me\<lparr>virq := (virq me)(base + i := (virq me (base + i))\<lparr>virq_en := False\<rparr>)\<rparr>;
         p = virq_pid (virq me (base + i))
     in if \<not> bit data i then Inr (me, h) else if p = -1 then Inr (me', h)
        else bindR (dev_gic2_dist_disable_irq (vdist_sys_gic_dist me) p h) (\<lambda>h. Inr (me', h)))"
  using assms by (simp add: vdev_gic2_dist_icenable_def Let_def field_simps32)

lemma vdist_forwarded_Suc:
  "vdist_forwarded (Suc k) base data me = vdist_forwarded k base data me @
     (if bit data k \<and> virq_pid (virq me (base + k)) \<noteq> -1
      then [virq_pid (virq me (base + k))] else [])"
  by (simp add: vdist_forwarded_def)

lemma dist_enable_all_snoc: "dist_enable_all d (ps @ [p]) h =
    bindR (dist_enable_all d ps h) (dev_gic2_dist_enable_irq d p)"
  by (simp add: dist_enable_all_def)

lemma dist_disable_all_snoc: "dist_disable_all d (ps @ [p]) h =
    bindR (dist_disable_all d ps h) (dev_gic2_dist_disable_irq d p)"
  by (simp add: dist_disable_all_def)

lemma isenable_loop:
  assumes "base + k \<le> 64" and "k \<le> 32"
  shows "forR (vdev_gic2_dist_isenable data base) [0..<k] (me, h) =
    bindR (dist_enable_all (vdist_sys_gic_dist me) (vdist_forwarded k base data me) h)
      (\<lambda>h'. Inr (vdist_set_en k base data True me, h'))"
  using assms
proof (induction k)
  case 0
  then show ?case by (simp add: dist_enable_all_def vdist_forwarded_def)
next
  case (Suc k)
  then have k: "base + k < 64" "k < 32" by simp_all
  show ?case
    using Suc k
    by (cases "dist_enable_all (vdist_sys_gic_dist me) (vdist_forwarded k base data me) h")
      (auto simp: forR_Suc vdist_set_en_Suc vdist_enable_step vdist_forwarded_Suc
        dist_enable_all_snoc simp del: upt_Suc)
qed

lemma icenable_loop:
  assumes "base + k \<le> 64" and "k \<le> 32"
  shows "forR (vdev_gic2_dist_icenable data base) [0..<k] (me, h) =
    bindR (dist_disable_all (vdist_sys_gic_dist me) (vdist_forwarded k base data me) h)
      (\<lambda>h'. Inr (vdist_set_en k base data False me, h'))"
  using assms
proof (induction k)
  case 0
  then show ?case by (simp add: dist_disable_all_def vdist_forwarded_def)
next
  case (Suc k)
  then have k: "base + k < 64" "k < 32" by simp_all
  show ?case
    using Suc k
    by (cases "dist_disable_all (vdist_sys_gic_dist me) (vdist_forwarded k base data me) h")
      (auto simp: forR_Suc vdist_set_en_Suc vdist_disable_step vdist_forwarded_Suc
        dist_disable_all_snoc simp del: upt_Suc)
qed

text \<open>Beyond the array every set bit is an access out of bounds.\<close>

lemma isenable_loop_oob:
  assumes "base \<ge> 64" and "\<forall>i \<in> set ns. i < 32" and "\<exists>i \<in> set ns. bit data i"
  shows "\<exists>i \<in> set ns. bit data i \<and>
    forR (vdev_gic2_dist_isenable data base) ns (me, h) = Inl (OutOfBounds ''virq'' (int (base + i)))"
  using assms
  by (induction ns) (auto simp: vdev_gic2_dist_isenable_def field_simps32 Let_def)

lemma icenable_loop_oob:
  assumes "base \<ge> 64" and "\<forall>i \<in> set ns. i < 32" and "\<exists>i \<in> set ns. bit data i"
  shows "\<exists>i \<in> set ns. bit data i \<and>
    forR (vdev_gic2_dist_icenable data base) ns (me, h) = Inl (OutOfBounds ''virq'' (int (base + i)))"
  using assms
  by (induction ns) (auto simp: vdev_gic2_dist_icenable_def field_simps32 Let_def)

lemma nonzero_word_bit: "(data :: u32) \<noteq> 0 \<Longrightarrow> \<exists>i < 32. bit data i"
  using bit_word_eqI [of data 0] by auto

text \<open>
  No access to the distributor changes the physical machine beyond stores to the physical
  distributor, and none changes the interrupt map.
\<close>

definition same_cpu :: "machine \<Rightarrow> machine \<Rightarrow> bool" where
  "same_cpu h h' \<longleftrightarrow> dev h' = dev h \<and> banked h' = banked h \<and> cp15 h' = cp15 h
     \<and> cp15_64 h' = cp15_64 h \<and> shl_over h' = shl_over h"

lemma same_cpu_refl [simp]: "same_cpu h h"
  by (simp add: same_cpu_def)

lemma same_cpu_trans: "same_cpu h1 h2 \<Longrightarrow> same_cpu h2 h3 \<Longrightarrow> same_cpu h1 h3"
  by (simp add: same_cpu_def)

lemma dist_enable_all_cpu: "dist_enable_all d ps h = Inr h' \<Longrightarrow> same_cpu h h'"
proof (induction ps arbitrary: h' rule: rev_induct)
  case (snoc p ps)
  then show ?case
    by (fastforce simp: dist_enable_all_snoc same_cpu_def dest: dev_gic2_dist_enable_irq_dev)
qed (simp add: dist_enable_all_def)

lemma dist_disable_all_cpu: "dist_disable_all d ps h = Inr h' \<Longrightarrow> same_cpu h h'"
proof (induction ps arbitrary: h' rule: rev_induct)
  case (snoc p ps)
  then show ?case
    by (fastforce simp: dist_disable_all_snoc same_cpu_def dest: dev_gic2_dist_disable_irq_dev)
qed (simp add: dist_disable_all_def)

end
