(* ===== verification/Pagetable.thy ===== *)
theory Pagetable
  imports Cell_Bank
begin

text \<open>
  vmm/pagetable.c: a guest's stage 2 translation table in the long descriptor format. One
  level 1 table of four entries, four level 2 tables of 512 entries each and level 3 tables
  of 512 entries each, taken one after the other from \<open>l3_base\<close>.
\<close>

section \<open>The code\<close>

record pagetable_ld =
  l1_base :: u64
  l2_base :: u64
  l3_base :: u64
  page_count :: u32

definition pagetable_init :: "u64 \<Rightarrow> machine \<Rightarrow> pagetable_ld \<times> machine" where
  "pagetable_init base h =
     (let pt = \<lparr>l1_base = base, l2_base = base + 0x1000, l3_base = base + 0x5000,
                page_count = 0\<rparr>;
          h = fold (\<lambda>i h.
                let addr = l1_base pt + of_nat i * 0x08;
                    l2_addr = l2_base pt + of_nat i * 0x1000;
                    l1_desc = 0b11;
                    l1_desc = set_field64 l1_desc 39 12 (drop_bit 12 l2_addr)
                in io_writed (ucast addr) l1_desc h) [0..<4] h;
          h = fold (\<lambda>i h.
                let addr = l2_base pt + of_nat i * 0x08; l2_desc = 0
                in io_writed (ucast addr) l2_desc h) [0..<4 * 512] h;
          h = fold (\<lambda>i h.
                let addr = l3_base pt + of_nat i * 0x08; l3_desc = 0
                in io_writed (ucast addr) l3_desc h) [0..<8 * 512] h
      in (pt, h))"

definition pagetable_set_block :: "pagetable_ld \<Rightarrow> u64 \<Rightarrow> u32 \<Rightarrow> machine \<Rightarrow> machine" where
  "pagetable_set_block pt ipa pa h =
     (let l1_desc_addr = set_field64 0 39 5 (get_field64 (l1_base pt) 39 5);
          l1_desc_addr = set_field64 l1_desc_addr 4 3 (get_field64 ipa 31 30);
          (l1_desc, h) = io_readd (ucast l1_desc_addr) h;
          l2_desc_addr = set_field64 0 39 12 (get_field64 l1_desc 39 12);
          l2_desc_addr = set_field64 l2_desc_addr 11 3 (get_field64 ipa 29 21);
          l2_desc = push_bit 10 1 OR 1;
          l2_desc = set_field64 l2_desc 39 21 (ucast (drop_bit 21 pa))
      in io_writed (ucast l2_desc_addr) l2_desc h)"

definition pagetable_set_page ::
  "pagetable_ld \<Rightarrow> u64 \<Rightarrow> u32 \<Rightarrow> machine \<Rightarrow> pagetable_ld \<times> machine" where
  "pagetable_set_page pt ipa pa h =
     (let l1_desc_addr = set_field64 0 39 5 (get_field64 (l1_base pt) 39 5);
          l1_desc_addr = set_field64 l1_desc_addr 4 3 (get_field64 ipa 31 30);
          (l1_desc, h) = io_readd (ucast l1_desc_addr) h;
          l2_desc_addr = set_field64 0 39 12 (get_field64 l1_desc 39 12);
          l2_desc_addr = set_field64 l2_desc_addr 11 3 (get_field64 ipa 29 21);
          (l2_desc, h) = io_readd (ucast l2_desc_addr) h;
          (pt, l2_desc, l3_desc_addr, h) =
            (if get_field64 l2_desc 1 0 \<noteq> 0b11 then
               let l3_desc_addr = l3_base pt + ucast (page_count pt * 0x1000);
                   pt = pt\<lparr>page_count := page_count pt + 1\<rparr>;
                   l2_desc = set_field64 0b11 39 12 (get_field64 l3_desc_addr 39 12)
               in (pt, l2_desc, l3_desc_addr, io_writed (ucast l2_desc_addr) l2_desc h)
             else (pt, l2_desc, 0, h));
          l3_desc_addr = set_field64 l3_desc_addr 39 12 (get_field64 l2_desc 39 12);
          l3_desc_addr = set_field64 l3_desc_addr 11 3 (get_field64 ipa 20 12);
          l3_desc = push_bit 10 1 OR 0b11;
          l3_desc = set_field64 l3_desc 39 12 (get_field64 (ucast pa) 39 12)
      in (pt, io_writed (ucast l3_desc_addr) l3_desc h))"

section \<open>What the hardware makes of the table\<close>

text \<open>
  The stage 2 translation of the architecture for the configuration meteor_cp15_init
  chooses (4 KiB granule, start at level 1, 32-bit input): the specification the table
  is built for. The result is the physical address; \<^term>\<open>None\<close> is a translation fault,
  which the guest's access traps on. Permissions and attributes are not part of it.
\<close>

definition s2_walk :: "(u32 \<Rightarrow> u8) \<Rightarrow> u64 \<Rightarrow> u32 \<Rightarrow> u64 option" where
  "s2_walk m base ipa =
     (let ipa = ucast ipa :: u64;
          d1 = load64 m (ucast (base + get_field64 ipa 31 30 * 8))
      in if get_field64 d1 1 0 = 1
         then Some (set_field64 (take_bit 30 ipa) 39 30 (get_field64 d1 39 30))
         else if get_field64 d1 1 0 \<noteq> 3 then None
         else
           let d2 = load64 m (ucast (set_field64 0 39 12 (get_field64 d1 39 12)
                                     + get_field64 ipa 29 21 * 8))
           in if get_field64 d2 1 0 = 1
              then Some (set_field64 (take_bit 21 ipa) 39 21 (get_field64 d2 39 21))
              else if get_field64 d2 1 0 \<noteq> 3 then None
              else
                let d3 = load64 m (ucast (set_field64 0 39 12 (get_field64 d2 39 12)
                                          + get_field64 ipa 20 12 * 8))
                in if get_field64 d3 1 0 = 3
                   then Some (set_field64 (take_bit 12 ipa) 39 12 (get_field64 d3 39 12))
                   else None)"

section \<open>The descriptors as one bank of cells\<close>

text \<open>
  The tables of a guest lie in one region: slot \<open>i\<close> (\<open>i < 4\<close>) is entry \<open>i\<close> of the level 1
  table, slot \<open>512 + j\<close> (\<open>j < 2048\<close>) entry \<open>j\<close> of the level 2 tables, and slot
  \<open>2560 + 512 * t + j\<close> entry \<open>j\<close> of level 3 table \<open>t\<close>.
\<close>

definition pt_slot :: "u32 \<Rightarrow> nat \<Rightarrow> u32" where
  "pt_slot b k = b + 8 * of_nat k"

definition pt_region :: "u32 \<Rightarrow> nat \<Rightarrow> machine \<Rightarrow> bool" where
  "pt_region b n h \<longleftrightarrow> aligned 12 b \<and> unat b + 8 * n \<le> 2 ^ 32
     \<and> (\<forall>k < n. ram h (pt_slot b k) \<and> ram h (pt_slot b k + 4))"

definition pt_cell :: "(u32 \<Rightarrow> u8) \<Rightarrow> u32 \<Rightarrow> nat \<Rightarrow> u64" where
  "pt_cell m b k = load64 m (pt_slot b k)"

lemma pt_slot_unat:
  assumes "unat b + 8 * n \<le> 2 ^ 32" and "k < n"
  shows "unat (pt_slot b k) = unat b + 8 * k"
proof -
  have "pt_slot b k = of_nat (unat b + 8 * k)" by (simp add: pt_slot_def)
  moreover have "unat b + 8 * k < 2 ^ LENGTH(32)" using assms by simp
  ultimately show ?thesis by (simp only: unat_of_nat mod_less)
qed

lemma pt_slot_aligned:
  assumes "aligned 12 b" and "unat b + 8 * n \<le> 2 ^ 32" and "k < n"
  shows "aligned 3 (pt_slot b k)"
proof -
  have "8 dvd unat b"
    using aligned_mono [OF assms(1), of 3] by (simp add: aligned_dvd)
  then have "8 dvd unat b + 8 * k" by (rule dvd_add) (rule dvd_triv_left)
  then have "2 ^ 3 dvd unat (pt_slot b k)" by (simp only: pt_slot_unat [OF assms(2,3)]) simp
  then show ?thesis by (simp only: aligned_dvd)
qed

lemma pt_slot_eq_iff:
  assumes "unat b + 8 * n \<le> 2 ^ 32" and "i < n" and "j < n"
  shows "pt_slot b i = pt_slot b j \<longleftrightarrow> i = j"
proof
  assume "pt_slot b i = pt_slot b j"
  then have "unat b + 8 * i = unat b + 8 * j"
    using pt_slot_unat [OF assms(1,2)] pt_slot_unat [OF assms(1,3)] by metis
  then show "i = j" by simp
qed simp

lemma pt_region_dev: "dev h' = dev h \<Longrightarrow> pt_region b n h' = pt_region b n h"
  by (simp add: pt_region_def ram_def)

lemma pt_region_mono: "pt_region b n h \<Longrightarrow> k \<le> n \<Longrightarrow> pt_region b k h"
  by (auto simp: pt_region_def)

interpretation slots: cell_bank
  "\<lambda>k. io_readd (pt_slot b k)" "\<lambda>k. io_writed (pt_slot b k)" "\<lambda>h. pt_cell (mem h) b"
  "pt_region b n" n for b n
proof (unfold_locales, goal_cases)
  case (1 s i)
  then show ?case by (simp add: pt_region_def pt_cell_def io_readd_ram)
next
  case (2 s i)
  then show ?case by (simp add: pt_region_def hw_simps)
next
  case (3 s j i)
  then show ?case by (simp add: hw_simps)
next
  case (4 s i v)
  then show ?case by (simp add: pt_region_def hw_simps)
next
  case (5 s i j v)
  then have al: "aligned 12 b" and le: "unat b + 8 * n \<le> 2 ^ 32" and ij: "i < n" "j < n"
    by (simp_all add: pt_region_def)
  show ?case
    using pt_slot_aligned [OF al le ij(1)] pt_slot_aligned [OF al le ij(2)]
      pt_slot_eq_iff [OF le ij]
    by (simp add: hw_simps pt_cell_def load64_store64)
qed

lemma sample_region: "aligned 12 b \<Longrightarrow> unat b + 8 * n \<le> 2 ^ 32 \<Longrightarrow> pt_region b n sample_machine"
  by (simp add: pt_region_def)

end
