(* ===== verification/Guest.thy ===== *)
theory Guest
  imports Cp15 List_Registers Monitor Vdev Pagetable
begin

text \<open>
  guests/include/guest.h and guests/guest.c: a guest, the backup of its processor context
  and the functions that save and restore it. The trapped registers of the running guest
  lie on the hypervisor's stack (vector.s): \<open>R0_usr\<close> at \<open>sp - 4 * 14\<close> up to \<open>R12_usr\<close>
  at \<open>sp - 4 * 2\<close> and \<open>LR_usr\<close> at \<open>sp - 4\<close>; a stack pointer of 0 says that no trap
  has pushed any.
\<close>

section \<open>The guest\<close>

datatype wfi_state_t = WFI_In | WFI_Out | WFI_PendingIRQ

record sched_info =
  wfi_state :: wfi_state_t

datatype guest_type =
  Realview_PB | I_Know_Boss_Will_Need_New_Board | And_You_Are_The_Choosen_One | RIP

record guest_rf =
  r_usr :: "nat \<Rightarrow> u32" \<comment> \<open>13 entries\<close>
  sp_usr :: u32
  sp_svc :: u32
  sp_abt :: u32
  sp_und :: u32
  sp_irq :: u32
  sp_fiq :: u32
  lr_usr :: u32
  lr_svc :: u32
  lr_abt :: u32
  lr_und :: u32
  lr_irq :: u32
  lr_fiq :: u32
  spsr_svc :: u32
  spsr_abt :: u32
  spsr_und :: u32
  spsr_irq :: u32
  spsr_fiq :: u32
  elr_hyp :: u32
  spsr_hyp :: u32

record guest_cp15 =
  csselr :: u32
  sctlr :: u32
  ttbr0 :: u32
  ttbr1 :: u32
  ttbcr :: u32
  dacr :: u32
  dfsr :: u32
  ifsr :: u32
  dfar :: u32
  ifar :: u32
  prrr :: u32
  nmrr :: u32
  fcseidr :: u32
  contextidr :: u32
  tpidr_uro :: u32
  vttbr_lpae :: u64

record guest_vcpu_if =
  ctlr :: u32

record guest_backup =
  dirty :: bool
  bk_rf :: guest_rf
  bk_cp15 :: guest_cp15
  bk_vcpu_if :: guest_vcpu_if
  bk_list :: "nat \<Rightarrow> u32" \<comment> \<open>64 entries\<close>

record guest =
  valid :: bool
  guest_kind :: guest_type \<comment> \<open>the field \<open>type\<close>\<close>
  guest_id :: int \<comment> \<open>the field \<open>id\<close>\<close>
  mem_base_pa :: u32
  guest_mem_base :: u32
  highmem_base :: u32
  mem_size :: u32
  kernel_base :: u32
  initrd_base :: u32
  atag_base :: u32
  vcpu_if_base :: u32
  pt :: pagetable_ld
  sched :: sched_info
  bk :: guest_backup
  mon :: monitor
  vdev_gic_dist :: vdev_gic2_dist
  vdev_timer_2 :: vdev_timer

section \<open>The registers on the stack\<close>

definition read_reg_from_stack :: "u32 \<Rightarrow> u32 \<Rightarrow> machine \<Rightarrow> (u32 \<times> machine) res" where
  "read_reg_from_stack sp rn h =
     bindR (if rn \<le> 12 then Inr (4 * (14 - rn))
            else if rn = 14 then Inr 4
            else Inl (Exit d_guest ''read_reg_in_stack error''))
       (\<lambda>offset. Inr (io_readw (sp - offset) h))"

definition write_reg_to_stack :: "u32 \<Rightarrow> u32 \<Rightarrow> u32 \<Rightarrow> machine \<Rightarrow> machine res" where
  "write_reg_to_stack sp rn val h =
     bindR (if rn \<le> 12 then Inr (4 * (14 - rn))
            else if rn = 14 then Inr 4
            else Inl (Exit d_guest ''read_reg_in_stack error''))
       (\<lambda>offset. Inr (io_writew (sp - offset) val h))"

section \<open>The register file\<close>

definition guest_backup_rf :: "guest \<Rightarrow> u32 \<Rightarrow> machine \<Rightarrow> (guest \<times> machine) res" where
  "guest_backup_rf vm sp h =
     bindR
      (if sp \<noteq> 0 then
         forR (\<lambda>i (rf, h). bindR (read_reg_from_stack sp (of_nat i) h)
             (\<lambda>(v, h). Inr (rf\<lparr>r_usr := (r_usr rf)(i := v)\<rparr>, h)))
           [0..<13] (bk_rf (bk vm), h)
       else Inr (bk_rf (bk vm), h))
      (\<lambda>(rf, h).
         let rf = rf\<lparr>sp_usr := mrs SP_usr h, sp_svc := mrs SP_svc h, sp_abt := mrs SP_abt h,
                     sp_und := mrs SP_und h, sp_irq := mrs SP_irq h, sp_fiq := mrs SP_fiq h\<rparr>
         in bindR
             (if sp \<noteq> 0 then
                bindR (read_reg_from_stack sp 14 h) (\<lambda>(v, h). Inr (rf\<lparr>lr_usr := v\<rparr>, h))
              else Inr (rf, h))
             (\<lambda>(rf, h).
                let rf = rf\<lparr>lr_svc := mrs LR_svc h, lr_abt := mrs LR_abt h,
                      lr_und := mrs LR_und h, lr_irq := mrs LR_irq h, lr_fiq := mrs LR_fiq h,
                      spsr_svc := mrs SPSR_svc h, spsr_abt := mrs SPSR_abt h,
                      spsr_und := mrs SPSR_und h, spsr_irq := mrs SPSR_irq h,
                      spsr_fiq := mrs SPSR_fiq h,
                      elr_hyp := mrs ELR_hyp h, spsr_hyp := mrs SPSR_hyp h\<rparr>
                in Inr (vm\<lparr>bk := (bk vm)\<lparr>bk_rf := rf\<rparr>\<rparr>, h)))"

definition guest_restore_rf :: "guest \<Rightarrow> u32 \<Rightarrow> machine \<Rightarrow> machine res" where
  "guest_restore_rf vm sp h =
     (let rf = bk_rf (bk vm) in
      bindR
       (if sp \<noteq> 0 then
          forR (\<lambda>i h. write_reg_to_stack sp (of_nat i) (r_usr rf i) h) [0..<13] h
        else Inr h)
       (\<lambda>h.
          let h = msr SP_usr (sp_usr rf) h; h = msr SP_svc (sp_svc rf) h;
              h = msr SP_abt (sp_abt rf) h; h = msr SP_und (sp_und rf) h;
              h = msr SP_irq (sp_irq rf) h; h = msr SP_fiq (sp_fiq rf) h
          in bindR (if sp \<noteq> 0 then write_reg_to_stack sp 14 (lr_usr rf) h else Inr h)
              (\<lambda>h.
                 let h = msr LR_svc (lr_svc rf) h; h = msr LR_abt (lr_abt rf) h;
                     h = msr LR_und (lr_und rf) h; h = msr LR_irq (lr_irq rf) h;
                     h = msr LR_fiq (lr_fiq rf) h;
                     h = msr SPSR_svc (spsr_svc rf) h; h = msr SPSR_abt (spsr_abt rf) h;
                     h = msr SPSR_und (spsr_und rf) h; h = msr SPSR_irq (spsr_irq rf) h;
                     h = msr SPSR_fiq (spsr_fiq rf) h;
                     h = msr ELR_hyp (elr_hyp rf) h
                 in Inr (msr SPSR_hyp (spsr_hyp rf) h))))"

section \<open>System registers, list registers, virtual CPU interface\<close>

definition guest_backup_cp15 :: "guest \<Rightarrow> machine \<Rightarrow> guest" where
  "guest_backup_cp15 vm h =
     vm\<lparr>bk := (bk vm)\<lparr>bk_cp15 :=
       \<lparr>csselr = cp15_read CSSELR h, sctlr = cp15_read SCTLR h, ttbr0 = cp15_read TTBR0 h,
        ttbr1 = cp15_read TTBR1 h, ttbcr = cp15_read TTBCR h, dacr = cp15_read DACR h,
        dfsr = cp15_read DFSR h, ifsr = cp15_read IFSR h, dfar = cp15_read DFAR h,
        ifar = cp15_read IFAR h, prrr = cp15_read PRRR h, nmrr = cp15_read NMRR h,
        fcseidr = cp15_read FCSEIDR h, contextidr = cp15_read CONTEXTIDR h,
        tpidr_uro = cp15_read TPIDR_URO h,
        vttbr_lpae = cp15_read64 VTTBR_LPAE h\<rparr>\<rparr>\<rparr>"

definition guest_restore_cp15 :: "guest \<Rightarrow> machine \<Rightarrow> machine" where
  "guest_restore_cp15 vm h =
     (let c = bk_cp15 (bk vm);
          h = cp15_write CSSELR (csselr c) h;
          h = cp15_write SCTLR (sctlr c) h;
          h = cp15_write TTBR0 (ttbr0 c) h;
          h = cp15_write TTBR1 (ttbr1 c) h;
          h = cp15_write TTBCR (ttbcr c) h;
          h = cp15_write DACR (dacr c) h;
          h = cp15_write DFSR (dfsr c) h;
          h = cp15_write IFSR (ifsr c) h;
          h = cp15_write DFAR (dfar c) h;
          h = cp15_write IFAR (ifar c) h;
          h = cp15_write PRRR (prrr c) h;
          h = cp15_write NMRR (nmrr c) h;
          h = cp15_write FCSEIDR (fcseidr c) h;
          h = cp15_write CONTEXTIDR (contextidr c) h;
          h = cp15_write TPIDR_URO (tpidr_uro c) h
      in cp15_write64 VTTBR_LPAE (vttbr_lpae c) h)"

definition guest_backup_list :: "dev_gic2_vctrl \<Rightarrow> guest \<Rightarrow> machine \<Rightarrow> guest \<times> machine" where
  "guest_backup_list sys_gic_vctrl vm h =
     (let (l, h) = save_cells (dev_gic2_vctrl_read_list sys_gic_vctrl) 64 (bk_list (bk vm), h)
      in (vm\<lparr>bk := (bk vm)\<lparr>bk_list := l\<rparr>\<rparr>, h))"

definition guest_restore_list :: "dev_gic2_vctrl \<Rightarrow> guest \<Rightarrow> machine \<Rightarrow> machine" where
  "guest_restore_list sys_gic_vctrl vm h =
     restore_cells (dev_gic2_vctrl_write_list_simple sys_gic_vctrl) 64 (bk_list (bk vm)) h"

definition guest_backup_gic2_vcpu_if ::
  "dev_gic2_vcpu_if \<Rightarrow> guest \<Rightarrow> machine \<Rightarrow> guest \<times> machine" where
  "guest_backup_gic2_vcpu_if sys_gic_vcpu_if vm h =
     (let (v, h) = dev_gic2_vcpu_if_read_ctlr sys_gic_vcpu_if h
      in (vm\<lparr>bk := (bk vm)\<lparr>bk_vcpu_if := \<lparr>ctlr = v\<rparr>\<rparr>\<rparr>, h))"

definition guest_restore_gic2_vcpu_if ::
  "dev_gic2_vcpu_if \<Rightarrow> guest \<Rightarrow> machine \<Rightarrow> machine" where
  "guest_restore_gic2_vcpu_if sys_gic_vcpu_if vm h =
     dev_gic2_vcpu_if_write_ctlr sys_gic_vcpu_if (ctlr (bk_vcpu_if (bk vm))) h"

section \<open>Suspending and restoring a guest\<close>

text \<open>
  The drivers of the list registers and of the virtual CPU interface are the global
  variables of meteor_global_state.c. \<open>guest_restore\<close> also sets the global \<open>vm_id\<close>,
  the first component of its result.
\<close>

definition guest_suspend ::
  "dev_gic2_vctrl \<Rightarrow> dev_gic2_vcpu_if \<Rightarrow> guest \<Rightarrow> u32 \<Rightarrow> machine \<Rightarrow> (guest \<times> machine) res" where
  "guest_suspend sys_gic_vctrl sys_gic_vcpu_if vm sp h =
     bindR
      (if dirty (bk vm) then
         bindR (guest_backup_rf vm sp h) (\<lambda>(vm, h).
           let vm = guest_backup_cp15 vm h;
               (vm, h) = guest_backup_gic2_vcpu_if sys_gic_vcpu_if vm h
           in Inr (guest_backup_list sys_gic_vctrl vm h))
       else Inr (vm, h))
      (\<lambda>(vm, h). Inr (vm\<lparr>bk := (bk vm)\<lparr>dirty := False\<rparr>\<rparr>, h))"

definition guest_restore ::
  "dev_gic2_vctrl \<Rightarrow> dev_gic2_vcpu_if \<Rightarrow> guest \<Rightarrow> u32 \<Rightarrow> machine \<Rightarrow> (int \<times> guest \<times> machine) res" where
  "guest_restore sys_gic_vctrl sys_gic_vcpu_if vm sp h =
     (if \<not> dirty (bk vm) then
        bindR (guest_restore_rf vm sp h) (\<lambda>h.
          let h = guest_restore_cp15 vm h;
              h = guest_restore_gic2_vcpu_if sys_gic_vcpu_if vm h;
              h = guest_restore_list sys_gic_vctrl vm h;
              vm_id = guest_id vm;
              h = cp15_write64 VTTBR_LPAE_VMID (word_of_int vm_id) h
          in Inr (vm_id, vm\<lparr>bk := (bk vm)\<lparr>dirty := True\<rparr>\<rparr>, h))
      else Inl (Exit d_guest ''restore dirty backup''))"

end
