(* ===== verification/Stage2_Map.thy ===== *)
theory Stage2_Map
  imports Pagetable
begin

text \<open>
  What pagetable.c builds, abstractly: a map with blocks of 2 MiB and pages of 4 KiB. The
  relation \<open>pt_rel\<close> ties it to the descriptors in memory; every operation of the code
  refines an operation on the map, and the hardware's walk of the descriptors is the
  lookup in the map.
\<close>

section \<open>The map\<close>

datatype l2_entry = L2_Invalid | L2_Block u32 | L2_Table nat

record stage2 =
  l2 :: "nat \<Rightarrow> l2_entry"
  l3 :: "nat \<Rightarrow> nat \<Rightarrow> u32 option"
  tables :: nat

definition l2_index :: "u64 \<Rightarrow> nat" where
  "l2_index ipa = unat (get_field64 ipa 31 21)"

definition l3_index :: "u64 \<Rightarrow> nat" where
  "l3_index ipa = unat (get_field64 ipa 20 12)"

definition stage2_empty :: stage2 where
  "stage2_empty = \<lparr>l2 = (\<lambda>_. L2_Invalid), l3 = (\<lambda>_ _. None), tables = 0\<rparr>"

definition stage2_block :: "u64 \<Rightarrow> u32 \<Rightarrow> stage2 \<Rightarrow> stage2" where
  "stage2_block ipa pa s = s\<lparr>l2 := (l2 s)(l2_index ipa := L2_Block pa)\<rparr>"

definition stage2_put :: "nat \<Rightarrow> nat \<Rightarrow> u32 \<Rightarrow> stage2 \<Rightarrow> stage2" where
  "stage2_put t j pa s = s\<lparr>l3 := (l3 s)(t := (l3 s t)(j := Some pa))\<rparr>"

definition stage2_new_table :: "nat \<Rightarrow> stage2 \<Rightarrow> stage2" where
  "stage2_new_table i s = s\<lparr>l2 := (l2 s)(i := L2_Table (tables s)), tables := tables s + 1\<rparr>"

definition stage2_page :: "u64 \<Rightarrow> u32 \<Rightarrow> stage2 \<Rightarrow> stage2" where
  "stage2_page ipa pa s =
     (case l2 s (l2_index ipa) of
        L2_Table t \<Rightarrow> stage2_put t (l3_index ipa) pa s
      | _ \<Rightarrow> stage2_put (tables s) (l3_index ipa) pa (stage2_new_table (l2_index ipa) s))"

text \<open>The address an input address is mapped to: the upper bits are the output's.\<close>

definition stage2_lookup :: "stage2 \<Rightarrow> u32 \<Rightarrow> u32 option" where
  "stage2_lookup s ipa =
     (case l2 s (l2_index (ucast ipa)) of
        L2_Invalid \<Rightarrow> None
      | L2_Block pa \<Rightarrow> Some (copy_field pa ipa 20 0)
      | L2_Table t \<Rightarrow> map_option (\<lambda>pa. copy_field pa ipa 11 0) (l3 s t (l3_index (ucast ipa))))"

text \<open>
  Well-formed: a table index in use is below the number of tables handed out, no two
  level 2 entries share a table, and the tables not handed out are empty.
\<close>

definition stage2_wf :: "stage2 \<Rightarrow> bool" where
  "stage2_wf s \<longleftrightarrow> (\<forall>i t. l2 s i = L2_Table t \<longrightarrow> t < tables s)
     \<and> (\<forall>i j t. l2 s i = L2_Table t \<and> l2 s j = L2_Table t \<longrightarrow> i = j)
     \<and> (\<forall>t \<ge> tables s. \<forall>j. l3 s t j = None)"

lemma stage2_empty_wf: "stage2_wf stage2_empty"
  by (simp add: stage2_wf_def stage2_empty_def)

lemma stage2_block_wf: "stage2_wf s \<Longrightarrow> stage2_wf (stage2_block ipa pa s)"
  by (auto simp: stage2_wf_def stage2_block_def split: if_splits)

lemma stage2_put_wf: "stage2_wf s \<Longrightarrow> t < tables s \<Longrightarrow> stage2_wf (stage2_put t j pa s)"
  by (auto simp: stage2_wf_def stage2_put_def)

lemma stage2_new_table_wf: "stage2_wf s \<Longrightarrow> stage2_wf (stage2_new_table i s)"
  unfolding stage2_wf_def stage2_new_table_def
  by (auto simp: less_Suc_eq split: if_splits)

lemma stage2_page_wf: "stage2_wf s \<Longrightarrow> stage2_wf (stage2_page ipa pa s)"
  unfolding stage2_page_def
  by (auto split: l2_entry.split intro!: stage2_put_wf stage2_new_table_wf)
    (auto simp: stage2_wf_def stage2_new_table_def)

section \<open>Reading the map back\<close>

text \<open>Two addresses are in the same block (page) when they agree above bit 20 (bit 11).\<close>

lemma stage2_lookup_empty: "stage2_lookup stage2_empty ipa = None"
  by (simp add: stage2_lookup_def stage2_empty_def)

lemma stage2_lookup_block:
  "stage2_lookup (stage2_block x pa s) y =
     (if l2_index (ucast y) = l2_index x then Some (copy_field pa y 20 0)
      else stage2_lookup s y)"
  by (simp add: stage2_lookup_def stage2_block_def split: l2_entry.split)

text \<open>
  A page is added to its block's level 3 table. When the block was mapped as a block, the
  new table replaces it: the rest of the block is unmapped.
\<close>

lemma stage2_lookup_page:
  assumes "stage2_wf s"
  shows "stage2_lookup (stage2_page x pa s) y =
     (if l2_index (ucast y) = l2_index x \<and> l3_index (ucast y) = l3_index x
      then Some (copy_field pa y 11 0)
      else if l2_index (ucast y) = l2_index x \<and> (\<exists>p. l2 s (l2_index x) = L2_Block p)
      then None
      else stage2_lookup s y)"
proof -
  have own: "j = i" if "l2 s i = L2_Table t" "l2 s j = L2_Table t" for i j t
    using assms that unfolding stage2_wf_def by blast
  have used: "t \<noteq> tables s" if "l2 s i = L2_Table t" for i t
    using assms that unfolding stage2_wf_def by blast
  have fresh: "l3 s (tables s) j = None" for j
    using assms unfolding stage2_wf_def by blast
  show ?thesis
  proof (cases "l2 s (l2_index x)")
    case (L2_Table t)
    with own [OF L2_Table, of "l2_index (ucast y)"] show ?thesis
      by (cases "l2 s (l2_index (ucast y))")
        (auto simp: stage2_lookup_def stage2_page_def stage2_put_def)
  next
    case L2_Invalid
    with used [of "l2_index (ucast y)"] fresh show ?thesis
      by (cases "l2 s (l2_index (ucast y))")
        (auto simp: stage2_lookup_def stage2_page_def stage2_put_def stage2_new_table_def)
  next
    case (L2_Block p)
    with used [of "l2_index (ucast y)"] fresh show ?thesis
      by (cases "l2 s (l2_index (ucast y))")
        (auto simp: stage2_lookup_def stage2_page_def stage2_put_def stage2_new_table_def)
  qed
qed

section \<open>Fields as numbers\<close>

lemma unat_get_field64:
  assumes "msb < 64" and "lsb \<le> msb"
  shows "unat (get_field64 w msb lsb) = unat w div 2 ^ lsb mod 2 ^ (Suc msb - lsb)"
proof -
  have "get_field64 w msb lsb = take_bit (Suc msb - lsb) (drop_bit lsb w)"
    using assms by (intro bit_word_eqI) (auto simp: field_simps32 bit_simps ac_simps)
  then show ?thesis
    by (simp only: unsigned_take_bit_eq unat_drop_bit_eq)
      (simp add: drop_bit_eq_div take_bit_eq_mod)
qed

lemma l2_index_split:
  "l2_index ipa = 512 * unat (get_field64 ipa 31 30) + unat (get_field64 ipa 29 21)"
proof -
  have "unat ipa div 2 ^ 21 mod (512 * 4)
      = 512 * (unat ipa div 2 ^ 21 div 512 mod 4) + unat ipa div 2 ^ 21 mod 512"
    by (rule mod_mult2_eq)
  then show ?thesis
    by (simp add: l2_index_def unat_get_field64 div_mult2_eq [symmetric])
qed

lemma l2_index_less: "l2_index ipa < 2048"
  by (simp add: l2_index_def unat_get_field64)

lemma l3_index_less: "l3_index ipa < 512"
  by (simp add: l3_index_def unat_get_field64)

end
