(* ===== verification/Stage2_Refine.thy ===== *)
theory Stage2_Refine
  imports Stage2_Map
begin

text \<open>
  The refinement of the stage 2 map by the descriptors of pagetable.c: initialising,
  mapping a block and mapping a page keep the relation \<open>pt_rel\<close>, and a walk over
  related descriptors is a lookup in the map.
\<close>

section \<open>The descriptors\<close>

definition table_word :: "u32 \<Rightarrow> u64" where
  "table_word a = set_field64 0b11 39 12 (get_field64 (ucast a) 39 12)"

definition block_word :: "u32 \<Rightarrow> u64" where
  "block_word pa = set_field64 0x401 39 21 (ucast (drop_bit 21 pa))"

definition page_word :: "u32 \<Rightarrow> u64" where
  "page_word pa = set_field64 0x403 39 12 (get_field64 (ucast pa) 39 12)"

fun l2_word :: "u32 \<Rightarrow> l2_entry \<Rightarrow> u64" where
  "l2_word b L2_Invalid = 0"
| "l2_word b (L2_Block pa) = block_word pa"
| "l2_word b (L2_Table t) = table_word (b + 0x5000 + of_nat t * 0x1000)"

fun l3_word :: "u32 option \<Rightarrow> u64" where
  "l3_word None = 0"
| "l3_word (Some pa) = page_word pa"

text \<open>The slots of the tables: 4 at level 1, 2048 at level 2, 8 tables of 512 at level 3.\<close>

abbreviation pt_slots :: nat where
  "pt_slots \<equiv> 6656"

definition pt_rel :: "u32 \<Rightarrow> stage2 \<Rightarrow> pagetable_ld \<Rightarrow> machine \<Rightarrow> bool" where
  "pt_rel b s pt h \<longleftrightarrow> pt_region b pt_slots h
     \<and> pt = \<lparr>l1_base = ucast b, l2_base = ucast b + 0x1000, l3_base = ucast b + 0x5000,
            page_count = of_nat (tables s)\<rparr>
     \<and> stage2_wf s \<and> tables s \<le> 8
     \<and> (\<forall>i < 4. pt_cell (mem h) b i = table_word (b + 0x1000 + of_nat i * 0x1000))
     \<and> (\<forall>i < 2048. pt_cell (mem h) b (512 + i) = l2_word b (l2 s i))
     \<and> (\<forall>t < 8. \<forall>j < 512. pt_cell (mem h) b (2560 + 512 * t + j) = l3_word (l3 s t j))"

lemma pt_relD:
  assumes "pt_rel b s pt h"
  shows pt_rel_region: "pt_region b pt_slots h"
    and pt_rel_pt: "pt = \<lparr>l1_base = ucast b, l2_base = ucast b + 0x1000,
        l3_base = ucast b + 0x5000, page_count = of_nat (tables s)\<rparr>"
    and pt_rel_wf: "stage2_wf s"
    and pt_rel_tables: "tables s \<le> 8"
    and pt_rel_l1: "i < 4 \<Longrightarrow> pt_cell (mem h) b i = table_word (b + 0x1000 + of_nat i * 0x1000)"
    and pt_rel_l2: "i < 2048 \<Longrightarrow> pt_cell (mem h) b (512 + i) = l2_word b (l2 s i)"
    and pt_rel_l3: "t < 8 \<Longrightarrow> j < 512 \<Longrightarrow>
        pt_cell (mem h) b (2560 + 512 * t + j) = l3_word (l3 s t j)"
  using assms unfolding pt_rel_def by blast+

lemma pt_region_aligned: "pt_region b n h \<Longrightarrow> aligned 12 b"
  by (simp add: pt_region_def)

lemma word_type [pt_simps]:
  "get_field64 (table_word a) (Suc 0) 0 = 3"
  "get_field64 (block_word a) (Suc 0) 0 = 1"
  "get_field64 (page_word a) (Suc 0) 0 = 3"
  "get_field64 0 (Suc 0) 0 = 0"
  by (simp_all add: table_word_def block_word_def page_word_def f64.get_put_other)
    (simp_all add: get_field64_def mask64_def)

lemma table_word_out [pt_simps]:
  "get_field64 (table_word a) 39 12 = get_field64 (ucast a) 39 12"
  by (intro bit_word_eqI) (auto simp: table_word_def field_simps32)

lemma page_word_out [pt_simps]:
  "get_field64 (page_word a) 39 12 = get_field64 (ucast a) 39 12"
  by (intro bit_word_eqI) (auto simp: page_word_def field_simps32)

lemma block_word_out [pt_simps]:
  "get_field64 (block_word a) 39 21 = get_field64 (ucast a) 39 21"
  by (intro bit_word_eqI) (auto simp: block_word_def field_simps32 bit_simps ac_simps)

section \<open>The address of a descriptor\<close>

lemma aligned_bit: "aligned n a \<Longrightarrow> i < n \<Longrightarrow> \<not> bit a i"
proof -
  assume "aligned n a" and "i < n"
  then have "take_bit n (unat a) = 0" by (simp add: aligned_def take_bit_eq_mod)
  then have "\<not> bit (take_bit n (unat a)) i" by simp
  with \<open>i < n\<close> show ?thesis by (simp add: bit_take_bit_iff bit_unsigned_iff)
qed

text \<open>
  The code builds an entry's address by fields, the architecture by an addition; a table
  is aligned, so that both are entry \<open>f\<close> of the table at \<open>w\<close>.
\<close>

lemma entry_address:
  assumes "aligned 12 w" and "\<And>i. bit f i \<Longrightarrow> i < 9"
  shows "w OR push_bit 3 f = w + 8 * f"
proof -
  have "w AND push_bit 3 f = 0"
  proof (rule bit_word_eqI)
    fix i
    show "bit (w AND push_bit 3 f) i = bit 0 i"
      using aligned_bit [OF assms(1), of i] assms(2) [of "i - 3"]
      by (cases "i < 12") (auto simp: bit_simps)
  qed
  then show ?thesis
    by (simp add: word_or_disjoint_plus push_bit_eq_mult mult.commute)
qed

lemma pt_slot_ucast: "pt_slot w (unat (f :: u64)) = w + 8 * ucast f"
  by (simp add: pt_slot_def)

lemma ucast_add_64: "(ucast (x + y :: u64) :: u32) = ucast x + ucast y"
  by (simp add: word_unat_eq_iff unat_word_ariths unsigned_ucast_eq take_bit_eq_mod mod_simps
      mod_mod_cancel)

lemma ucast_mult_64: "(ucast (x * y :: u64) :: u32) = ucast x * ucast y"
  by (simp add: word_unat_eq_iff unat_word_ariths unsigned_ucast_eq take_bit_eq_mod mod_simps
      mod_mod_cancel)

lemma aligned_field:
  fixes w :: u32
  assumes "aligned 12 w" and "k \<le> 12"
  shows "set_field64 0 39 k (get_field64 (ucast w) 39 k) = ucast w"
proof (rule bit_word_eqI)
  fix n
  show "bit (set_field64 0 39 k (get_field64 (ucast w) 39 k)) n = bit (ucast w :: u64) n"
    using aligned_bit [OF assms(1), of n] assms(2) bit_imp_le_length [of w n]
    by (auto simp: bit_simps field_simps32)
qed

lemmas aligned_base = aligned_field [where k = 12, simplified] aligned_field [where k = 5, simplified]

lemma set_address:
  fixes w :: u32
  assumes "aligned 12 w" and "\<And>i. bit f i \<Longrightarrow> i < 9"
  shows "ucast (set_field64 (ucast w) 11 3 f) = pt_slot w (unat f)"
proof -
  have "ucast (set_field64 (ucast w) 11 3 f) = w OR push_bit 3 (ucast f)"
  proof (rule bit_word_eqI)
    fix i assume "i < LENGTH(32)"
    with aligned_bit [OF assms(1), of i] assms(2) [of "i - 3"]
    show "bit (ucast (set_field64 (ucast w) 11 3 f) :: u32) i = bit (w OR push_bit 3 (ucast f)) i"
      by (auto simp: bit_simps field_simps32)
  qed
  also have "\<dots> = w + 8 * ucast f"
    using assms by (intro entry_address) (auto simp: bit_simps)
  finally show ?thesis by (simp add: pt_slot_ucast)
qed

lemma set_address_l1:
  fixes w :: u32
  assumes "aligned 12 w" and "\<And>i. bit f i \<Longrightarrow> i < 2"
  shows "ucast (set_field64 (ucast w) 4 3 f) = pt_slot w (unat f)"
proof -
  have "set_field64 (ucast w) 4 3 f = set_field64 (ucast w) 11 3 f"
    using aligned_bit [OF assms(1)] assms(2)
    by (intro bit_word_eqI) (auto simp: bit_simps field_simps32, force+)
  moreover have "bit f i \<Longrightarrow> i < 9" for i using assms(2) [of i] by simp
  ultimately show ?thesis by (simp add: set_address assms(1))
qed

lemma ucast_ucast_64 [simp]: "ucast (ucast (w :: u32) :: u64) = w"
  by (intro bit_word_eqI) (auto simp: bit_simps)

lemma walk_address: "ucast (ucast (w :: u32) + f * 8 :: u64) = pt_slot w (unat f)"
  by (simp add: pt_slot_ucast ucast_add_64 ucast_mult_64)

text \<open>Where the entries lie among the slots of the region.\<close>

lemma pt_slot_l2: "pt_slot (b + 0x1000 + of_nat i * 0x1000) j = pt_slot b (512 + (512 * i + j))"
  by (simp add: pt_slot_def algebra_simps)

lemma pt_slot_l3: "pt_slot (b + 0x5000 + of_nat t * 0x1000) j = pt_slot b (2560 + 512 * t + j)"
  by (simp add: pt_slot_def algebra_simps)

lemma aligned_table:
  assumes "aligned 12 b"
  shows "aligned 12 (b + 0x1000 + of_nat i * 0x1000)" "aligned 12 (b + 0x5000 + of_nat i * 0x1000)"
proof -
  have "of_nat i * 0x1000 = (of_nat (4096 * i) :: u32)" by simp
  moreover have "(2 ^ 12 :: nat) dvd 4096 * i mod 2 ^ LENGTH(32)"
    by (rule dvd_mod) simp_all
  ultimately have "aligned 12 (of_nat i * 0x1000)"
    unfolding aligned_dvd by (simp only: unat_of_nat)
  moreover have "aligned 12 0x1000" "aligned 12 0x5000" by (simp_all add: aligned_def)
  ultimately show "aligned 12 (b + 0x1000 + of_nat i * 0x1000)"
      "aligned 12 (b + 0x5000 + of_nat i * 0x1000)"
    using assms by (simp_all add: aligned_add)
qed

section \<open>The walk is the lookup\<close>

lemma field_bits:
  "bit (get_field64 w 31 30) i \<Longrightarrow> i < 2" "bit (get_field64 w 31 30) i \<Longrightarrow> i < 9"
  "bit (get_field64 w 29 21) i \<Longrightarrow> i < 9" "bit (get_field64 w 20 12) i \<Longrightarrow> i < 9"
  by (auto simp: field_simps32)

text \<open>The level 2 table of an input address.\<close>

definition l2_table :: "u32 \<Rightarrow> u64 \<Rightarrow> u32" where
  "l2_table b ipa = b + 0x1000 + ucast (get_field64 ipa 31 30) * 0x1000"

lemma aligned_l2_table: "aligned 12 b \<Longrightarrow> aligned 12 (l2_table b ipa)"
  using aligned_table(1) [of b "unat (get_field64 ipa 31 30)"]
  by (simp add: l2_table_def)

lemma pt_slot_l2_table:
  "pt_slot (l2_table b ipa) (unat (get_field64 ipa 29 21)) = pt_slot b (512 + l2_index ipa)"
  using pt_slot_l2 [of b "unat (get_field64 ipa 31 30)" "unat (get_field64 ipa 29 21)"]
  by (simp add: l2_table_def l2_index_split)

lemma pt_rel_load_l1:
  assumes "pt_rel b s pt h"
  shows "load64 (mem h) (pt_slot b (unat (get_field64 ipa 31 30)))
    = table_word (l2_table b ipa)"
proof -
  have "unat (get_field64 ipa 31 30) < 4" by (simp add: unat_get_field64)
  from pt_rel_l1 [OF assms this] show ?thesis by (simp add: pt_cell_def l2_table_def)
qed

lemma pt_rel_load_l2:
  assumes "pt_rel b s pt h"
  shows "load64 (mem h) (pt_slot b (512 + l2_index ipa)) = l2_word b (l2 s (l2_index ipa))"
  using pt_rel_l2 [OF assms l2_index_less [of ipa]] by (simp only: pt_cell_def)

lemma pt_rel_load_l3:
  assumes "pt_rel b s pt h" and "t < 8"
  shows "load64 (mem h) (pt_slot b (2560 + 512 * t + unat (get_field64 ipa 20 12)))
    = l3_word (l3 s t (l3_index ipa))"
  using pt_rel_l3 [OF assms l3_index_less [of ipa]]
  by (simp only: pt_cell_def l3_index_def)

lemma block_output:
  "set_field64 (take_bit 21 (ucast y)) 39 21 (get_field64 (ucast pa) 39 21)
     = ucast (copy_field pa y 20 0)" for y pa :: u32
  by (intro bit_word_eqI) (auto simp: field_simps32 bit_simps dest: bit_imp_le_length)

lemma page_output:
  "set_field64 (take_bit 12 (ucast y)) 39 12 (get_field64 (ucast pa) 39 12)
     = ucast (copy_field pa y 11 0)" for y pa :: u32
  by (intro bit_word_eqI) (auto simp: field_simps32 bit_simps dest: bit_imp_le_length)

lemma s2_walk_lookup:
  assumes "pt_rel b s pt h"
  shows "s2_walk (mem h) (ucast b) ipa = map_option ucast (stage2_lookup s ipa)"
proof -
  note al = pt_region_aligned [OF pt_rel_region [OF assms]]
  note walk = s2_walk_def Let_def walk_address aligned_base aligned_l2_table [OF al]
    aligned_table(2) [OF al] pt_slot_l2_table pt_slot_l3 pt_rel_load_l1 [OF assms]
    pt_rel_load_l2 [OF assms] pt_simps stage2_lookup_def
  show ?thesis
  proof (cases "l2 s (l2_index (ucast ipa))")
    case (L2_Table t)
    have "t < tables s" using pt_rel_wf [OF assms] L2_Table unfolding stage2_wf_def by blast
    then have t: "t < 8" using pt_rel_tables [OF assms] by simp
    show ?thesis
      by (cases "l3 s t (l3_index (ucast ipa))")
        (simp_all add: walk pt_rel_load_l3 [OF assms t] L2_Table page_output)
  qed (simp_all add: walk block_output)
qed

section \<open>Writing a descriptor\<close>

lemma pt_rel_same:
  "mem h' = mem h \<Longrightarrow> dev h' = dev h \<Longrightarrow> pt_rel b s pt h' = pt_rel b s pt h"
  using pt_region_dev [of h' h b pt_slots] by (simp add: pt_rel_def)

lemma pt_rel_readd [simp]: "pt_rel b s pt (snd (io_readd a h)) = pt_rel b s pt h"
  by (rule pt_rel_same) (simp_all add: hw_simps)

lemma pt_rel_write:
  assumes rel: "pt_rel b s pt h" and k: "k < pt_slots" "4 \<le> k" and "stage2_wf s'" and "tables s' \<le> 8"
    and pt': "pt' = pt\<lparr>page_count := of_nat (tables s')\<rparr>"
    and l2: "\<And>i. i < 2048 \<Longrightarrow> l2_word b (l2 s' i) = (if 512 + i = k then v else l2_word b (l2 s i))"
    and l3: "\<And>t j. t < 8 \<Longrightarrow> j < 512 \<Longrightarrow>
      l3_word (l3 s' t j) = (if 2560 + 512 * t + j = k then v else l3_word (l3 s t j))"
  shows "pt_rel b s' pt' (io_writed (pt_slot b k) v h)"
proof -
  note reg = pt_rel_region [OF rel]
  have cell: "pt_cell (mem (io_writed (pt_slot b k) v h)) b m
      = (if k = m then v else pt_cell (mem h) b m)" if "m < pt_slots" for m
    by (rule slots.wr_view [OF reg k(1) that])
  show ?thesis
    unfolding pt_rel_def
  proof (intro conjI allI impI)
    show "pt_region b pt_slots (io_writed (pt_slot b k) v h)" by (rule slots.wr_ok [OF reg])
    show "pt' = \<lparr>l1_base = ucast b, l2_base = ucast b + 0x1000, l3_base = ucast b + 0x5000,
        page_count = of_nat (tables s')\<rparr>"
      unfolding pt' pt_rel_pt [OF rel] by simp
    show "pt_cell (mem (io_writed (pt_slot b k) v h)) b i = table_word (b + 0x1000 + of_nat i * 0x1000)"
      if "i < 4" for i
      using cell [of i] pt_rel_l1 [OF rel that] k(2) that by simp
    show "pt_cell (mem (io_writed (pt_slot b k) v h)) b (512 + i) = l2_word b (l2 s' i)"
      if "i < 2048" for i
      using cell [of "512 + i"] pt_rel_l2 [OF rel that] l2 [OF that] that by (simp split: if_splits)
    show "pt_cell (mem (io_writed (pt_slot b k) v h)) b (2560 + 512 * t + j) = l3_word (l3 s' t j)"
      if "t < 8" and "j < 512" for t j
      using cell [of "2560 + 512 * t + j"] pt_rel_l3 [OF rel that] l3 [OF that] that
      by (simp split: if_splits)
  qed fact+
qed

lemma pt_rel_write_l2:
  assumes rel: "pt_rel b s pt h" and i: "i < 2048"
    and s': "s' = s\<lparr>l2 := (l2 s)(i := e), tables := k\<rparr>" and "stage2_wf s'" and "k \<le> 8"
  shows "pt_rel b s' (pt\<lparr>page_count := of_nat k\<rparr>)
    (io_writed (pt_slot b (512 + i)) (l2_word b e) h)"
  by (rule pt_rel_write [OF rel]) (use assms in auto)

lemma pt_rel_write_l3:
  assumes rel: "pt_rel b s pt h" and t: "t < tables s" and j: "j < 512"
  shows "pt_rel b (stage2_put t j pa s) pt
    (io_writed (pt_slot b (2560 + 512 * t + j)) (page_word pa) h)"
proof (rule pt_rel_write [OF rel])
  have t8: "t < 8" using t pt_rel_tables [OF rel] by simp
  show "2560 + 512 * t + j < pt_slots" using t8 j by simp
  show "stage2_wf (stage2_put t j pa s)" by (rule stage2_put_wf [OF pt_rel_wf [OF rel] t])
  show "l3_word (l3 (stage2_put t j pa s) t' j')
      = (if 2560 + 512 * t' + j' = 2560 + 512 * t + j then page_word pa else l3_word (l3 s t' j'))"
    if "j' < 512" for t' j'
  proof -
    have "2560 + 512 * t' + j' = 2560 + 512 * t + j \<longleftrightarrow> t' = t \<and> j' = j"
    proof
      assume "2560 + 512 * t' + j' = 2560 + 512 * t + j"
      then have eq: "512 * t' + j' = 512 * t + j" by simp
      then have "(512 * t' + j') div 512 = (512 * t + j) div 512" by (rule arg_cong)
      then have "t' = t" using that j by simp
      with eq show "t' = t \<and> j' = j" by simp
    qed simp
    then show ?thesis by (auto simp: stage2_put_def)
  qed
qed (use pt_rel_tables [OF rel] pt_rel_pt [OF rel] j in \<open>simp_all add: stage2_put_def\<close>)

section \<open>Mapping a block\<close>

lemma set_block_eq:
  assumes rel: "pt_rel b s pt h"
  shows "pagetable_set_block pt ipa pa h =
    io_writed (pt_slot b (512 + l2_index ipa)) (block_word pa)
      (snd (io_readd (pt_slot b (unat (get_field64 ipa 31 30))) h))"
proof -
  note reg = pt_rel_region [OF rel]
  note al = pt_region_aligned [OF reg]
  have "unat (get_field64 ipa 31 30) < 4" by (simp add: unat_get_field64)
  then have "fst (io_readd (pt_slot b (unat (get_field64 ipa 31 30))) h) = table_word (l2_table b ipa)"
    using slots.rd_value [OF reg] pt_rel_load_l1 [OF rel] by (simp add: pt_cell_def)
  then show ?thesis
    by (simp add: pagetable_set_block_def pt_rel_pt [OF rel] Let_def case_prod_beta
        aligned_base al set_address_l1 set_address aligned_l2_table field_bits pt_simps
        pt_slot_l2_table block_word_def)
qed

lemma set_block_refines:
  assumes rel: "pt_rel b s pt h"
  shows "pt_rel b (stage2_block ipa pa s) pt (pagetable_set_block pt ipa pa h)"
proof -
  have "stage2_block ipa pa s = s\<lparr>l2 := (l2 s)(l2_index ipa := L2_Block pa), tables := tables s\<rparr>"
    by (simp add: stage2_block_def)
  from pt_rel_write_l2 [OF _ l2_index_less this
      stage2_block_wf [OF pt_rel_wf [OF rel]] pt_rel_tables [OF rel],
      where pt = pt and h = "snd (io_readd (pt_slot b (unat (get_field64 ipa 31 30))) h)"]
  show ?thesis
    using rel by (simp add: set_block_eq pt_rel_pt [OF rel])
qed

section \<open>Mapping a page\<close>

text \<open>What the code reads on its way: the level 1 and the level 2 descriptor.\<close>

definition after_walk :: "u32 \<Rightarrow> u64 \<Rightarrow> machine \<Rightarrow> machine" where
  "after_walk b ipa h = snd (io_readd (pt_slot b (512 + l2_index ipa))
     (snd (io_readd (pt_slot b (unat (get_field64 ipa 31 30))) h)))"

lemma pt_rel_after_walk [simp]: "pt_rel b s pt (after_walk b ipa h) = pt_rel b s pt h"
  by (simp add: after_walk_def)

lemma read_descriptors:
  assumes rel: "pt_rel b s pt h"
  shows "fst (io_readd (pt_slot b (unat (get_field64 ipa 31 30))) h) = table_word (l2_table b ipa)"
    and "fst (io_readd (pt_slot b (512 + l2_index ipa))
      (snd (io_readd (pt_slot b (unat (get_field64 ipa 31 30))) h))) = l2_word b (l2 s (l2_index ipa))"
proof -
  note reg = pt_rel_region [OF rel]
  have "unat (get_field64 ipa 31 30) < 4" by (simp add: unat_get_field64)
  then show "fst (io_readd (pt_slot b (unat (get_field64 ipa 31 30))) h) = table_word (l2_table b ipa)"
    using slots.rd_value [OF reg] pt_rel_load_l1 [OF rel] by (simp add: pt_cell_def)
  have "512 + l2_index ipa < pt_slots" using l2_index_less [of ipa] by simp
  with slots.rd_value [OF slots.rd_ok [OF reg]]
  show "fst (io_readd (pt_slot b (512 + l2_index ipa))
      (snd (io_readd (pt_slot b (unat (get_field64 ipa 31 30))) h))) = l2_word b (l2 s (l2_index ipa))"
    using pt_rel_load_l2 [OF rel] by (simp add: pt_cell_def hw_simps)
qed

lemma l3_table_address:
  assumes "unat b + 8 * pt_slots \<le> 2 ^ 32" and "t < 8"
  shows "ucast b + 0x5000 + ucast (of_nat t * 0x1000 :: u32)
    = (ucast (b + 0x5000 + of_nat t * 0x1000 :: u32) :: u64)"
proof -
  have "t * 4096 < 2 ^ 32" using assms(2) by simp
  moreover have "unat b + 20480 + t * 4096 < 2 ^ 32" using assms by simp
  ultimately show ?thesis
    by (simp add: word_unat_eq_iff unat_word_ariths unsigned_ucast_eq unat_of_nat take_bit_eq_mod)
qed

lemma set_page_eq_table:
  assumes rel: "pt_rel b s pt h" and e: "l2 s (l2_index ipa) = L2_Table t"
  shows "pagetable_set_page pt ipa pa h =
    (pt, io_writed (pt_slot b (2560 + 512 * t + l3_index ipa)) (page_word pa) (after_walk b ipa h))"
proof -
  note al = pt_region_aligned [OF pt_rel_region [OF rel]]
  show ?thesis
    by (simp add: pagetable_set_page_def pt_rel_pt [OF rel] Let_def case_prod_beta
        aligned_base al set_address_l1 set_address aligned_l2_table aligned_table field_bits
        pt_simps pt_slot_l2_table read_descriptors [OF rel] e pt_slot_l3 page_word_def
        l3_index_def after_walk_def)
qed

lemma set_page_eq_new:
  assumes rel: "pt_rel b s pt h" and e: "\<And>t. l2 s (l2_index ipa) \<noteq> L2_Table t" and k: "tables s < 8"
  shows "pagetable_set_page pt ipa pa h =
    (pt\<lparr>page_count := of_nat (Suc (tables s))\<rparr>,
     io_writed (pt_slot b (2560 + 512 * tables s + l3_index ipa)) (page_word pa)
       (io_writed (pt_slot b (512 + l2_index ipa)) (l2_word b (L2_Table (tables s)))
         (after_walk b ipa h)))"
proof -
  note al = pt_region_aligned [OF pt_rel_region [OF rel]]
  have "unat b + 8 * pt_slots \<le> 2 ^ 32" using pt_rel_region [OF rel] by (simp add: pt_region_def)
  note addr = l3_table_address [OF this k]
  have type: "get_field64 (l2_word b (l2 s (l2_index ipa))) (Suc 0) 0 \<noteq> 3"
  proof (cases "l2 s (l2_index ipa)")
    case (L2_Table t)
    with e [of t] show ?thesis by simp
  qed (simp_all add: pt_simps)
  show ?thesis
    by (simp add: pagetable_set_page_def pt_rel_pt [OF rel] Let_def case_prod_beta
        aligned_base al set_address_l1 set_address aligned_l2_table aligned_table field_bits
        pt_simps pt_slot_l2_table read_descriptors [OF rel] type addr pt_slot_l3 page_word_def
        l3_index_def after_walk_def table_word_def [symmetric] f64.put_get_same)
qed

lemma set_page_refines:
  assumes rel: "pt_rel b s pt h"
    and room: "(\<exists>t. l2 s (l2_index ipa) = L2_Table t) \<or> tables s < 8"
  shows "pt_rel b (stage2_page ipa pa s) (fst (pagetable_set_page pt ipa pa h))
    (snd (pagetable_set_page pt ipa pa h))"
proof (cases "\<exists>t. l2 s (l2_index ipa) = L2_Table t")
  case True
  then obtain t where t: "l2 s (l2_index ipa) = L2_Table t" by blast
  have "t < tables s" using pt_rel_wf [OF rel] t unfolding stage2_wf_def by blast
  then show ?thesis
    using pt_rel_write_l3 [OF _ _ l3_index_less, of b s pt "after_walk b ipa h" t] rel t
    by (simp add: set_page_eq_table stage2_page_def)
next
  case False
  then have new: "\<And>t. l2 s (l2_index ipa) \<noteq> L2_Table t" and k: "tables s < 8"
    using room by auto
  let ?s = "stage2_new_table (l2_index ipa) s"
  let ?h = "io_writed (pt_slot b (512 + l2_index ipa)) (l2_word b (L2_Table (tables s)))
    (after_walk b ipa h)"
  have page: "stage2_page ipa pa s = stage2_put (tables s) (l3_index ipa) pa ?s"
    using new by (simp add: stage2_page_def split: l2_entry.split)
  have "pt_rel b ?s (pt\<lparr>page_count := of_nat (Suc (tables s))\<rparr>) ?h"
    by (rule pt_rel_write_l2 [OF _ l2_index_less])
      (use rel k stage2_new_table_wf [OF pt_rel_wf [OF rel]] in \<open>simp_all add: stage2_new_table_def\<close>)
  then show ?thesis
    using pt_rel_write_l3 [OF _ _ l3_index_less, of b ?s _ ?h "tables s"]
    by (simp add: set_page_eq_new [OF rel new k] page) (simp add: stage2_new_table_def)
qed

section \<open>Initialising the table\<close>

lemma ucast_of_nat_64: "(ucast (of_nat i :: u64) :: u32) = of_nat i"
  by (simp add: word_unat_eq_iff unsigned_ucast_eq unat_of_nat take_bit_eq_mod mod_mod_cancel)

lemma set_field64_drop: "set_field64 x 39 12 (drop_bit 12 v) = set_field64 x 39 12 (get_field64 v 39 12)"
  by (intro bit_word_eqI) (auto simp: field_simps32 bit_simps add.commute)

lemma init_l1_word:
  assumes "unat b + 8 * pt_slots \<le> 2 ^ 32" and "i < 4"
  shows "set_field64 0b11 39 12 (drop_bit 12 (ucast b + 0x1000 + of_nat i * 0x1000))
    = table_word (b + 0x1000 + of_nat i * 0x1000)"
proof -
  have "unat b + 4096 + i * 4096 < 2 ^ 32" using assms by simp
  then have "ucast b + 0x1000 + of_nat i * 0x1000 = (ucast (b + 0x1000 + of_nat i * 0x1000 :: u32) :: u64)"
    using assms(2)
    by (simp add: word_unat_eq_iff unat_word_ariths unsigned_ucast_eq unat_of_nat take_bit_eq_mod)
  then show ?thesis by (simp add: set_field64_drop table_word_def)
qed

definition init_slots :: "u32 \<Rightarrow> machine \<Rightarrow> machine" where
  "init_slots b h =
    fold (\<lambda>i. io_writed (pt_slot b (2560 + i)) 0) [0..<4096]
      (fold (\<lambda>i. io_writed (pt_slot b (512 + i)) 0) [0..<2048]
        (fold (\<lambda>i. io_writed (pt_slot b i) (table_word (b + 0x1000 + of_nat i * 0x1000))) [0..<4] h))"

lemma pagetable_init_eq:
  assumes b: "unat b + 8 * pt_slots \<le> 2 ^ 32"
  shows "pagetable_init (ucast b) h = (\<lparr>l1_base = ucast b, l2_base = ucast b + 0x1000,
    l3_base = ucast b + 0x5000, page_count = 0\<rparr>, init_slots b h)"
proof -
  have "fold (\<lambda>i. io_writed (pt_slot b i)
        (set_field64 0b11 39 12 (drop_bit 12 (ucast b + 0x1000 + of_nat i * 0x1000)))) [0..<4] h
    = fold (\<lambda>i. io_writed (pt_slot b i) (table_word (b + 0x1000 + of_nat i * 0x1000))) [0..<4] h"
    by (rule fold_cong) (simp_all add: init_l1_word [OF b])
  moreover have "ucast (ucast b + of_nat i * 8 :: u64) = pt_slot b i"
      "ucast (ucast b + 0x1000 + of_nat i * 8 :: u64) = pt_slot b (512 + i)"
      "ucast (ucast b + 0x5000 + of_nat i * 8 :: u64) = pt_slot b (2560 + i)" for i
    by (simp_all only: pt_slot_def ucast_add_64 ucast_mult_64 ucast_of_nat_64 ucast_ucast_64)
      simp_all
  moreover have "(4 * 512 :: nat) = 2048" "(8 * 512 :: nat) = 4096" by simp_all
  ultimately show ?thesis
    by (simp only: pagetable_init_def Let_def pagetable_ld.simps init_slots_def)
qed

lemma init_refines:
  assumes reg: "pt_region b pt_slots h"
  shows "pt_rel b stage2_empty (fst (pagetable_init (ucast b) h)) (snd (pagetable_init (ucast b) h))"
proof -
  have b: "unat b + 8 * pt_slots \<le> 2 ^ 32" using reg by (simp only: pt_region_def)
  let ?h1 = "fold (\<lambda>i. io_writed (pt_slot b i) (table_word (b + 0x1000 + of_nat i * 0x1000))) [0..<4] h"
  let ?h2 = "fold (\<lambda>i. io_writed (pt_slot b (512 + i)) 0) [0..<2048] ?h1"
  have r1: "pt_region b pt_slots ?h1" by (rule slots.fill_ok [OF reg])
  have r2: "pt_region b pt_slots ?h2" by (rule slots.fill_ok [OF r1])
  have r3: "pt_region b pt_slots (init_slots b h)"
    unfolding init_slots_def by (rule slots.fill_ok [OF r2])
  have c1: "pt_cell (mem (init_slots b h)) b i = table_word (b + 0x1000 + of_nat i * 0x1000)"
    if "i < 4" for i
  proof -
    have "pt_cell (mem (init_slots b h)) b i = pt_cell (mem ?h2) b i"
      unfolding init_slots_def by (rule slots.fill_view_other [OF r2]) (use that in auto)
    also have "\<dots> = pt_cell (mem ?h1) b i"
      by (rule slots.fill_view_other [OF r1]) (use that in auto)
    also have "\<dots> = table_word (b + 0x1000 + of_nat i * 0x1000)"
      by (rule slots.fill_view [OF reg, where f = "\<lambda>i. i"]) (use that in auto)
    finally show ?thesis .
  qed
  have c2: "pt_cell (mem (init_slots b h)) b (512 + i) = 0" if "i < 2048" for i
  proof -
    have "pt_cell (mem (init_slots b h)) b (512 + i) = pt_cell (mem ?h2) b (512 + i)"
      unfolding init_slots_def by (rule slots.fill_view_other [OF r2]) (use that in auto)
    also have "\<dots> = 0"
      by (rule slots.fill_view [OF r1, where f = "\<lambda>i. 512 + i"]) (use that in \<open>auto intro: inj_onI\<close>)
    finally show ?thesis .
  qed
  have c3: "pt_cell (mem (init_slots b h)) b (2560 + k) = 0" if "k < 4096" for k
    unfolding init_slots_def
    by (rule slots.fill_view [OF r2, where f = "\<lambda>i. 2560 + i"]) (use that in \<open>auto intro: inj_onI\<close>)
  have "pt_cell (mem (init_slots b h)) b (2560 + 512 * t + j) = 0" if "t < 8" "j < 512" for t j
    using c3 [of "512 * t + j"] that by (simp add: add.assoc)
  with c1 c2 r3 show ?thesis
    unfolding pagetable_init_eq [OF b] pt_rel_def
    by (simp add: stage2_empty_wf) (simp add: stage2_empty_def)
qed

end
