(* ===== verification/Memory_Allocator.thy ===== *)
theory Memory_Allocator
  imports Guest Stage2_Refine
begin

text \<open>
  vmm/memory_allocator.c: the pages of 4 KiB that the hypervisor hands to its guests on
  demand. The static variable \<open>last_i\<close> of \<open>memory_allocator_new_page\<close>, where the search
  for a free page goes on, is an argument and a result here.
\<close>

section \<open>The code\<close>

definition MEM_SIZE :: nat where "MEM_SIZE = 4 * 128 * 1024 * 1024"
definition PAGE_SIZE :: nat where "PAGE_SIZE = 4 * 1024"
definition PAGE_COUNT :: nat where "PAGE_COUNT = (MEM_SIZE div 1024) div (PAGE_SIZE div 1024)"

record memory_allocator =
  target_vm :: "nat \<Rightarrow> int" \<comment> \<open>PAGE_COUNT entries, as the next two\<close>
  alloc_ipa :: "nat \<Rightarrow> u32"
  alloc_high_ipa :: "nat \<Rightarrow> u32"
  alloc_mem_base :: u32
  alloc_count :: u32

definition memory_allocator_init :: "memory_allocator \<Rightarrow> u32 \<Rightarrow> memory_allocator" where
  "memory_allocator_init me base =
     (let me = fold (\<lambda>i me. me\<lparr>target_vm := (target_vm me)(i := -1)\<rparr>) [0..<PAGE_COUNT] me
      in me\<lparr>alloc_mem_base := base, alloc_count := 0\<rparr>)"

definition memory_allocator_page_exist ::
  "memory_allocator \<Rightarrow> guest \<Rightarrow> u32 \<Rightarrow> u32 \<Rightarrow> bool" where
  "memory_allocator_page_exist me vm ipa high_ipa \<longleftrightarrow>
     list_ex (\<lambda>i. target_vm me i = guest_id vm \<and> alloc_ipa me i = ipa
       \<and> alloc_high_ipa me i = high_ipa) [0..<PAGE_COUNT]"

text \<open>The slot \<open>i\<close> is free: take it and map it at both addresses of the guest.\<close>

definition memory_allocator_take ::
  "memory_allocator \<Rightarrow> guest \<Rightarrow> u32 \<Rightarrow> u32 \<Rightarrow> nat \<Rightarrow> machine \<Rightarrow>
    u32 \<times> memory_allocator \<times> guest \<times> machine" where
  "memory_allocator_take me vm ipa high_ipa i h =
     (let me = me\<lparr>target_vm := (target_vm me)(i := guest_id vm),
                  alloc_ipa := (alloc_ipa me)(i := ipa),
                  alloc_high_ipa := (alloc_high_ipa me)(i := high_ipa),
                  alloc_count := alloc_count me + 1\<rparr>;
          pa = alloc_mem_base me + of_nat (i * PAGE_SIZE);
          (p, h) = pagetable_set_page (pt vm) (ucast ipa) pa h;
          (p, h) = pagetable_set_page p (ucast high_ipa) pa h
      in (pa, me, vm\<lparr>pt := p\<rparr>, h))"

text \<open>The first argument counts the rounds of the loop that are left.\<close>

fun memory_allocator_search ::
  "nat \<Rightarrow> memory_allocator \<Rightarrow> nat \<Rightarrow> guest \<Rightarrow> u32 \<Rightarrow> u32 \<Rightarrow> machine \<Rightarrow>
    (u32 \<times> memory_allocator \<times> nat \<times> guest \<times> machine) res" where
  "memory_allocator_search 0 me last_i vm ipa high_ipa h =
     Inl (Exit d_memory_allocator ''memory_allocator_new() no free memory'')"
| "memory_allocator_search (Suc n) me last_i vm ipa high_ipa h =
     (let last_i = last_i + 1;
          last_i = (if last_i \<ge> PAGE_COUNT then 0 else last_i)
      in if target_vm me last_i = -1 then
           let (pa, me, vm, h) = memory_allocator_take me vm ipa high_ipa last_i h
           in Inr (pa, me, last_i, vm, h)
         else memory_allocator_search n me last_i vm ipa high_ipa h)"

definition memory_allocator_new_page ::
  "memory_allocator \<Rightarrow> nat \<Rightarrow> guest \<Rightarrow> u32 \<Rightarrow> u32 \<Rightarrow> machine \<Rightarrow>
    (u32 \<times> memory_allocator \<times> nat \<times> guest \<times> machine) res" where
  "memory_allocator_new_page me last_i vm ipa high_ipa h =
     memory_allocator_search PAGE_COUNT me last_i vm ipa high_ipa h"

definition memory_allocator_free_page :: "memory_allocator \<Rightarrow> guest \<Rightarrow> u32 \<Rightarrow> u32 \<Rightarrow> u32 res" where
  "memory_allocator_free_page me vm ipa high_ipa =
     Inl (Exit d_memory_allocator ''memory_allocator_free() not implemented yet'')"

section \<open>The search\<close>

lemma PAGE_COUNT_eq: "PAGE_COUNT = 131072"
  by (simp add: PAGE_COUNT_def MEM_SIZE_def PAGE_SIZE_def)

lemma PAGE_COUNT_pos [simp]: "0 < PAGE_COUNT"
  by (simp add: PAGE_COUNT_eq)

lemma init_target [simp]:
  "i < PAGE_COUNT \<Longrightarrow> target_vm (memory_allocator_init me base) i = -1"
  "alloc_mem_base (memory_allocator_init me base) = base"
  "alloc_count (memory_allocator_init me base) = 0"
proof -
  have "target_vm (fold (\<lambda>i me. me\<lparr>target_vm := (target_vm me)(i := v)\<rparr>) [0..<n] me) i
      = (if i < n then v else target_vm me i)" for n v and me :: memory_allocator
    by (induction n) auto
  then show "i < PAGE_COUNT \<Longrightarrow> target_vm (memory_allocator_init me base) i = -1"
    by (simp add: memory_allocator_init_def Let_def)
qed (simp_all add: memory_allocator_init_def Let_def)

text \<open>The slot the search visits in round \<open>k\<close>, counted from 0.\<close>

definition visited :: "nat \<Rightarrow> nat \<Rightarrow> nat" where
  "visited last_i k = (last_i + 1 + k) mod PAGE_COUNT"

lemma visited_0:
  "last_i < PAGE_COUNT \<Longrightarrow> visited last_i 0 = (if last_i + 1 \<ge> PAGE_COUNT then 0 else last_i + 1)"
  by (cases "last_i + 1 = PAGE_COUNT") (simp_all add: visited_def)

lemma visited_Suc: "visited (visited last_i 0) k = visited last_i (Suc k)"
  using mod_add_left_eq [of "last_i + 1" PAGE_COUNT "1 + k"] by (simp add: visited_def add.commute)

lemma visited_less [simp]: "visited last_i k < PAGE_COUNT"
  by (simp add: visited_def)

lemma search_Suc:
  assumes "last_i < PAGE_COUNT"
  shows "memory_allocator_search (Suc n) me last_i vm ipa high_ipa h =
     (if target_vm me (visited last_i 0) = -1 then
        let (pa, me, vm, h) = memory_allocator_take me vm ipa high_ipa (visited last_i 0) h
        in Inr (pa, me, visited last_i 0, vm, h)
      else memory_allocator_search n me (visited last_i 0) vm ipa high_ipa h)"
  using assms by (simp add: visited_0)

lemma search_result:
  assumes "last_i < PAGE_COUNT"
  shows "memory_allocator_search n me last_i vm ipa high_ipa h =
    (case find (\<lambda>k. target_vm me (visited last_i k) = -1) [0..<n] of
       None \<Rightarrow> Inl (Exit d_memory_allocator ''memory_allocator_new() no free memory'')
     | Some k \<Rightarrow> let (pa, me, vm, h) = memory_allocator_take me vm ipa high_ipa (visited last_i k) h
                in Inr (pa, me, visited last_i k, vm, h))"
  using assms
proof (induction n arbitrary: last_i)
  case (Suc n)
  let ?P = "\<lambda>k. target_vm me (visited last_i k) = -1"
  have "find P (map Suc ks) = map_option Suc (find (\<lambda>k. P (Suc k)) ks)" for P ks
    by (induction ks) auto
  then have rest: "find ?P (map Suc [0..<n]) = map_option Suc (find (\<lambda>k. ?P (Suc k)) [0..<n])" .
  have split: "[0..<Suc n] = 0 # map Suc [0..<n]"
    by (metis map_Suc_upt upt_conv_Cons zero_less_Suc)
  show ?case
  proof (cases "?P 0")
    case True
    with Suc.prems show ?thesis unfolding search_Suc [OF Suc.prems] split by simp
  next
    case False
    then have "find ?P [0..<Suc n] = map_option Suc (find (\<lambda>k. ?P (Suc k)) [0..<n])"
      unfolding split using rest by simp
    with False show ?thesis
      unfolding search_Suc [OF Suc.prems] Suc.IH [OF visited_less] visited_Suc
      by (simp split: option.split)
  qed
qed simp

text \<open>The rounds of the loop visit every slot.\<close>

lemma visited_all: "i < PAGE_COUNT \<Longrightarrow> last_i < PAGE_COUNT \<Longrightarrow> \<exists>k < PAGE_COUNT. visited last_i k = i"
proof -
  assume i: "i < PAGE_COUNT" and l: "last_i < PAGE_COUNT"
  let ?k = "(i + PAGE_COUNT - (last_i + 1)) mod PAGE_COUNT"
  have "visited last_i ?k = (last_i + 1 + (i + PAGE_COUNT - (last_i + 1))) mod PAGE_COUNT"
    unfolding visited_def by (rule mod_add_right_eq)
  also have "\<dots> = i" using i l by simp
  finally show ?thesis by (intro exI [of _ ?k]) simp
qed

section \<open>Allocation\<close>

text \<open>The count is the number of slots in use.\<close>

definition alloc_wf :: "memory_allocator \<Rightarrow> bool" where
  "alloc_wf me \<longleftrightarrow> unat (alloc_count me) = card {i. i < PAGE_COUNT \<and> target_vm me i \<noteq> -1}"

definition page_addr :: "memory_allocator \<Rightarrow> nat \<Rightarrow> u32" where
  "page_addr me i = alloc_mem_base me + of_nat (i * PAGE_SIZE)"

definition slot_free :: "memory_allocator \<Rightarrow> nat \<Rightarrow> bool" where
  "slot_free me i \<longleftrightarrow> i < PAGE_COUNT \<and> target_vm me i = -1"

lemma init_wf: "alloc_wf (memory_allocator_init me base)"
proof -
  have "{i. i < PAGE_COUNT \<and> target_vm (memory_allocator_init me base) i \<noteq> -1} = {}" by auto
  then show ?thesis unfolding alloc_wf_def by simp
qed

lemma page_addr_inj:
  "i < PAGE_COUNT \<Longrightarrow> j < PAGE_COUNT \<Longrightarrow> page_addr me i = page_addr me j \<Longrightarrow> i = j"
proof -
  assume ij: "i < PAGE_COUNT" "j < PAGE_COUNT" and "page_addr me i = page_addr me j"
  then have "unat (of_nat (i * PAGE_SIZE) :: u32) = unat (of_nat (j * PAGE_SIZE) :: u32)"
    by (simp add: page_addr_def)
  moreover have "i * PAGE_SIZE < 2 ^ LENGTH(32)" "j * PAGE_SIZE < 2 ^ LENGTH(32)"
    using ij by (simp_all add: PAGE_COUNT_eq PAGE_SIZE_def)
  ultimately show "i = j"
    by (simp only: unat_of_nat mod_less) (simp add: PAGE_SIZE_def)
qed

lemma take_simps:
  assumes "memory_allocator_take me vm ipa high_ipa i h = (pa, me', vm', h')"
  shows "pa = page_addr me i" "target_vm me' = (target_vm me)(i := guest_id vm)"
    "alloc_mem_base me' = alloc_mem_base me" "alloc_count me' = alloc_count me + 1"
    "alloc_ipa me' = (alloc_ipa me)(i := ipa)" "alloc_high_ipa me' = (alloc_high_ipa me)(i := high_ipa)"
    "vm' = vm\<lparr>pt := pt vm'\<rparr>"
  using assms
  by (auto simp: memory_allocator_take_def Let_def page_addr_def split: prod.splits)

lemma take_wf:
  assumes wf: "alloc_wf me" and i: "slot_free me i" and "guest_id vm \<noteq> -1"
    and t: "memory_allocator_take me vm ipa high_ipa i h = (pa, me', vm', h')"
  shows "alloc_wf me'"
proof -
  let ?U = "\<lambda>m. {i. i < PAGE_COUNT \<and> target_vm m i \<noteq> -1}"
  have U: "?U me' = insert i (?U me)" and new: "i \<notin> ?U me"
    using assms take_simps(2) [OF t] by (auto simp: slot_free_def)
  have fin: "finite (?U me)" by simp
  have c: "card (?U me') = Suc (card (?U me))"
    unfolding U by (rule card_insert_disjoint [OF fin new])
  have "card (?U me') \<le> card {..<PAGE_COUNT}" by (intro card_mono) auto
  then have "Suc (card (?U me)) < 2 ^ 32" unfolding c by (simp add: PAGE_COUNT_eq)
  then have "unat (alloc_count me + 1) = Suc (card (?U me))"
    using wf by (simp add: alloc_wf_def unat_word_ariths)
  with c take_simps(4) [OF t] show ?thesis by (simp add: alloc_wf_def)
qed

text \<open>A call succeeds exactly when a slot is free, and then takes one that was free.\<close>

lemma new_page_cases:
  assumes "last_i < PAGE_COUNT"
  obtains (full) "\<forall>i. \<not> slot_free me i"
      and "memory_allocator_new_page me last_i vm ipa high_ipa h
        = Inl (Exit d_memory_allocator ''memory_allocator_new() no free memory'')"
  | (taken) i pa me' vm' h' where "slot_free me i"
      and "memory_allocator_take me vm ipa high_ipa i h = (pa, me', vm', h')"
      and "memory_allocator_new_page me last_i vm ipa high_ipa h = Inr (pa, me', i, vm', h')"
proof (cases "find (\<lambda>k. target_vm me (visited last_i k) = -1) [0..<PAGE_COUNT]")
  case None
  then have "\<forall>k < PAGE_COUNT. target_vm me (visited last_i k) \<noteq> -1"
    by (simp add: find_None_iff)
  then have "\<forall>i. \<not> slot_free me i"
    using visited_all [OF _ assms] unfolding slot_free_def by metis
  with full show ?thesis
    by (simp add: memory_allocator_new_page_def search_result [OF assms] None)
next
  case (Some k)
  then have "slot_free me (visited last_i k)"
    by (auto simp: find_Some_iff slot_free_def)
  then show ?thesis
    by (cases "memory_allocator_take me vm ipa high_ipa (visited last_i k) h")
      (rule taken, auto simp: memory_allocator_new_page_def search_result [OF assms] Some)
qed

section \<open>The page is mapped at both addresses\<close>

lemma page_tables_le: "tables (stage2_page ipa pa s) \<le> Suc (tables s)"
  by (simp add: stage2_page_def stage2_put_def stage2_new_table_def split: l2_entry.split)

lemma take_refines:
  assumes rel: "pt_rel b s (pt vm) h" and "tables s \<le> 6"
    and t: "memory_allocator_take me vm ipa high_ipa i h = (pa, me', vm', h')"
  shows "pt_rel b (stage2_page (ucast high_ipa) pa (stage2_page (ucast ipa) pa s)) (pt vm') h'"
proof -
  obtain p1 h1 where 1: "pagetable_set_page (pt vm) (ucast ipa) pa h = (p1, h1)" by fastforce
  obtain p2 h2 where 2: "pagetable_set_page p1 (ucast high_ipa) pa h1 = (p2, h2)" by fastforce
  have "pt_rel b (stage2_page (ucast ipa) pa s) p1 h1"
    using set_page_refines [OF rel, of "ucast ipa" pa] assms(2) by (simp add: 1)
  moreover have "tables (stage2_page (ucast ipa) pa s) < 8"
    using page_tables_le [of "ucast ipa" pa s] assms(2) by simp
  ultimately have "pt_rel b (stage2_page (ucast high_ipa) pa (stage2_page (ucast ipa) pa s)) p2 h2"
    using set_page_refines [of b "stage2_page (ucast ipa) pa s" p1 h1 "ucast high_ipa" pa]
    by (simp add: 2)
  moreover have "pt vm' = p2" "h' = h2"
    using t 1 2 take_simps(1) [OF t] by (auto simp: memory_allocator_take_def Let_def page_addr_def)
  ultimately show ?thesis by simp
qed

end
