(* ===== verification/Dev_Console.thy ===== *)
theory Dev_Console
  imports Io
begin

text \<open>
  The devices behind the C library and the library's system calls: devices/dev_uart.c,
  devices/dev_semihost.c (files of the simulator's host) and vmm/newlib_stub.c. A C
  \<open>char\<close> is a byte, and a string the list of its bytes before the final zero.
\<close>

section \<open>The UART\<close>

record dev_uart =
  uart_base_address :: u32
  dr :: u32
  fr :: u32
  ibrd :: u32
  fbrd :: u32
  lcrh :: u32
  cr :: u32

definition dev_uart_fr_rxfe :: "u32 \<Rightarrow> u32" where "dev_uart_fr_rxfe flag = flag AND 0x10"
definition dev_uart_fr_txff :: "u32 \<Rightarrow> u32" where "dev_uart_fr_txff flag = flag AND 0x20"
definition dev_uart_fr_rxff :: "u32 \<Rightarrow> u32" where "dev_uart_fr_rxff flag = flag AND 0x40"
definition dev_uart_fr_txfe :: "u32 \<Rightarrow> u32" where "dev_uart_fr_txfe flag = flag AND 0x80"

definition dev_uart_disable :: "dev_uart \<Rightarrow> machine \<Rightarrow> machine" where
  "dev_uart_disable me h = io_writeh (cr me) 0 h"

definition dev_uart_enalbe :: "dev_uart \<Rightarrow> machine \<Rightarrow> machine" where
  "dev_uart_enalbe me h = io_writeh (cr me) 0x301 h"

text \<open>Every address is set but \<open>cr\<close>, which keeps the value the structure had.\<close>

definition dev_uart_init :: "dev_uart \<Rightarrow> u32 \<Rightarrow> machine \<Rightarrow> dev_uart \<times> machine" where
  "dev_uart_init me base h =
     (let me = me\<lparr>uart_base_address := base, dr := base, fr := base + 0x18,
                  ibrd := base + 0x24, fbrd := base + 0x28, lcrh := base + 0x2C\<rparr>;
          h = dev_uart_disable me h;
          h = io_writeh (ibrd me) 39 h;
          h = io_writeh (fbrd me) 4 h;
          h = io_writeb (lcrh me) 0x70 h
      in (me, dev_uart_enalbe me h))"

text \<open>The polling loops end only when the device says so.\<close>

partial_function (option) dev_uart_wait_txff :: "dev_uart \<Rightarrow> machine \<Rightarrow> machine option" where
  "dev_uart_wait_txff me h =
     (case io_readh (fr me) h of (flag, h) \<Rightarrow>
        if dev_uart_fr_txff (ucast flag) \<noteq> 0 then dev_uart_wait_txff me h else Some h)"

partial_function (option) dev_uart_wait_rxfe :: "dev_uart \<Rightarrow> machine \<Rightarrow> machine option" where
  "dev_uart_wait_rxfe me h =
     (case io_readh (fr me) h of (flag, h) \<Rightarrow>
        if dev_uart_fr_rxfe (ucast flag) \<noteq> 0 then dev_uart_wait_rxfe me h else Some h)"

definition dev_uart_tx_char :: "dev_uart \<Rightarrow> u8 \<Rightarrow> machine \<Rightarrow> machine option" where
  "dev_uart_tx_char me data h =
     Option.bind
       (if data = 10
        then Option.bind (dev_uart_wait_txff me h) (\<lambda>h. Some (io_writeb (dr me) 13 h))
        else Some h)
       (\<lambda>h. Option.bind (dev_uart_wait_txff me h) (\<lambda>h. Some (io_writeb (dr me) data h)))"

fun dev_uart_tx_string :: "dev_uart \<Rightarrow> u8 list \<Rightarrow> machine \<Rightarrow> (int \<times> machine) option" where
  "dev_uart_tx_string me [] h = Some (0, h)"
| "dev_uart_tx_string me (c # str) h =
     Option.bind (dev_uart_tx_char me c h) (\<lambda>h.
       Option.bind (dev_uart_tx_string me str h) (\<lambda>(count, h). Some (count + 1, h)))"

definition dev_uart_rx_char :: "dev_uart \<Rightarrow> machine \<Rightarrow> (u8 \<times> machine) option" where
  "dev_uart_rx_char me h =
     Option.bind (dev_uart_wait_rxfe me h) (\<lambda>h. Some (io_readb (dr me) h))"

section \<open>The semihost\<close>

datatype semihost_type = TYPE_OPEN | TYPE_READ | TYPE_WRITE | TYPE_LSEEK | TYPE_FSTAT | TYPE_CLOSE

fun semihost_type_val :: "semihost_type \<Rightarrow> u32" where
  "semihost_type_val TYPE_OPEN = 0"
| "semihost_type_val TYPE_READ = 1"
| "semihost_type_val TYPE_WRITE = 2"
| "semihost_type_val TYPE_LSEEK = 3"
| "semihost_type_val TYPE_FSTAT = 4"
| "semihost_type_val TYPE_CLOSE = 5"

definition OFFSET_TYPE :: u32 where "OFFSET_TYPE = 0x0"
definition OFFSET_FD :: u32 where "OFFSET_FD = 0x4"
definition OFFSET_FLAGS :: u32 where "OFFSET_FLAGS = 0x8"
definition OFFSET_MODE :: u32 where "OFFSET_MODE = 0xC"
definition OFFSET_WHENCE :: u32 where "OFFSET_WHENCE = 0x10"
definition OFFSET_OFFSET :: u32 where "OFFSET_OFFSET = 0x14"
definition OFFSET_COUNT :: u32 where "OFFSET_COUNT = 0x18"
definition OFFSET_RET_VAL :: u32 where "OFFSET_RET_VAL = 0x1C"
definition OFFSET_SUBMIT :: u32 where "OFFSET_SUBMIT = 0x100"
definition OFFSET_PATH :: u32 where "OFFSET_PATH = 0x200"
definition OFFSET_BUF :: u32 where "OFFSET_BUF = 0x2000"

record dev_semihost =
  semihost_base_address :: u32

definition dev_semihost_init :: "u32 \<Rightarrow> dev_semihost" where
  "dev_semihost_init base = \<lparr>semihost_base_address = base\<rparr>"

definition dev_semihost_writew :: "dev_semihost \<Rightarrow> u32 \<Rightarrow> u32 \<Rightarrow> machine \<Rightarrow> machine" where
  "dev_semihost_writew me offset data h = io_writew (semihost_base_address me + offset) data h"

text \<open>The loops run over the first \<open>length\<close> bytes, none when it is not positive.\<close>

definition dev_semihost_writearr ::
  "dev_semihost \<Rightarrow> u32 \<Rightarrow> (nat \<Rightarrow> u8) \<Rightarrow> int \<Rightarrow> machine \<Rightarrow> machine" where
  "dev_semihost_writearr me offset buf len h =
     fold (\<lambda>i. io_writeb (semihost_base_address me + offset + of_nat i) (buf i)) [0..<nat len] h"

definition dev_semihost_readarr ::
  "dev_semihost \<Rightarrow> u32 \<Rightarrow> (nat \<Rightarrow> u8) \<Rightarrow> int \<Rightarrow> machine \<Rightarrow> (nat \<Rightarrow> u8) \<times> machine" where
  "dev_semihost_readarr me offset buf len h =
     fold (\<lambda>i (buf, h). let (b, h) = io_readb (semihost_base_address me + offset + of_nat i) h
                        in (buf(i := b), h)) [0..<nat len] (buf, h)"

definition dev_semihost_readw :: "dev_semihost \<Rightarrow> u32 \<Rightarrow> machine \<Rightarrow> u32 \<times> machine" where
  "dev_semihost_readw me offset h = io_readw (semihost_base_address me + offset) h"

text \<open>The end of every call: submit, then read the result.\<close>

definition dev_semihost_return :: "dev_semihost \<Rightarrow> machine \<Rightarrow> int \<times> machine" where
  "dev_semihost_return me h = (case dev_semihost_readw me OFFSET_RET_VAL h of (v, h) \<Rightarrow> (sint v, h))"

definition dev_semihost_submit :: "dev_semihost \<Rightarrow> machine \<Rightarrow> machine" where
  "dev_semihost_submit me h = dev_semihost_writew me OFFSET_SUBMIT 0 h"

definition dev_semihost_type :: "dev_semihost \<Rightarrow> semihost_type \<Rightarrow> machine \<Rightarrow> machine" where
  "dev_semihost_type me t h = dev_semihost_writew me OFFSET_TYPE (semihost_type_val t) h"

definition dev_semihost_do_open ::
  "dev_semihost \<Rightarrow> u8 list \<Rightarrow> int \<Rightarrow> int \<Rightarrow> machine \<Rightarrow> int \<times> machine" where
  "dev_semihost_do_open me path flags mode h =
     (let h = dev_semihost_type me TYPE_OPEN h;
          h = dev_semihost_writearr me OFFSET_PATH (\<lambda>i. (path @ [0]) ! i)
                (int (length path) + 1) h;
          h = dev_semihost_writew me OFFSET_FLAGS (word_of_int flags) h;
          h = dev_semihost_writew me OFFSET_MODE (word_of_int mode) h
      in dev_semihost_return me (dev_semihost_submit me h))"

definition dev_semihost_do_read ::
  "dev_semihost \<Rightarrow> int \<Rightarrow> (nat \<Rightarrow> u8) \<Rightarrow> int \<Rightarrow> machine \<Rightarrow> int \<times> (nat \<Rightarrow> u8) \<times> machine" where
  "dev_semihost_do_read me fd buf count h =
     (let h = dev_semihost_type me TYPE_READ h;
          h = dev_semihost_writew me OFFSET_FD (word_of_int fd) h;
          h = dev_semihost_writew me OFFSET_COUNT (word_of_int count) h;
          h = dev_semihost_submit me h;
          (buf, h) = dev_semihost_readarr me OFFSET_BUF buf count h;
          (v, h) = dev_semihost_return me h
      in (v, buf, h))"

definition dev_semihost_do_write ::
  "dev_semihost \<Rightarrow> int \<Rightarrow> (nat \<Rightarrow> u8) \<Rightarrow> int \<Rightarrow> machine \<Rightarrow> int \<times> machine" where
  "dev_semihost_do_write me fd buf count h =
     (let h = dev_semihost_type me TYPE_WRITE h;
          h = dev_semihost_writew me OFFSET_FD (word_of_int fd) h;
          h = dev_semihost_writew me OFFSET_COUNT (word_of_int count) h;
          h = dev_semihost_writearr me OFFSET_BUF buf count h
      in dev_semihost_return me (dev_semihost_submit me h))"

definition dev_semihost_do_lseek ::
  "dev_semihost \<Rightarrow> int \<Rightarrow> int \<Rightarrow> int \<Rightarrow> machine \<Rightarrow> int \<times> machine" where
  "dev_semihost_do_lseek me fd offset whence h =
     (let h = dev_semihost_type me TYPE_LSEEK h;
          h = dev_semihost_writew me OFFSET_FD (word_of_int fd) h;
          h = dev_semihost_writew me OFFSET_OFFSET (word_of_int offset) h;
          h = dev_semihost_writew me OFFSET_WHENCE (word_of_int whence) h
      in dev_semihost_return me (dev_semihost_submit me h))"

definition dev_semihost_do_close :: "dev_semihost \<Rightarrow> int \<Rightarrow> machine \<Rightarrow> int \<times> machine" where
  "dev_semihost_do_close me fd h =
     (let h = dev_semihost_type me TYPE_CLOSE h;
          h = dev_semihost_writew me OFFSET_FD (word_of_int fd) h
      in dev_semihost_return me (dev_semihost_submit me h))"

text \<open>The 13 words read for the fields \<open>st_dev\<close> to \<open>st_ctime\<close>, in that order.\<close>

definition dev_semihost_do_fstat :: "dev_semihost \<Rightarrow> int \<Rightarrow> machine \<Rightarrow> int \<times> u32 list \<times> machine" where
  "dev_semihost_do_fstat me fd h =
     (let h = dev_semihost_type me TYPE_FSTAT h;
          h = dev_semihost_writew me OFFSET_FD (word_of_int fd) h;
          h = dev_semihost_submit me h;
          (st, h) = fold (\<lambda>i (st, h).
             let (w, h) = dev_semihost_readw me (OFFSET_BUF + 4 * of_nat i) h in (st @ [w], h))
             [0..<13] ([], h);
          (v, h) = dev_semihost_return me h
      in (v, st, h))"

section \<open>The system calls of the C library\<close>

text \<open>\<open>swi\<close> traps to the hypervisor's own handler, and if that returns the loop spins for ever.\<close>

definition newlib_exit :: "int \<Rightarrow> 'a res" where
  "newlib_exit status = Inl (NoReturn ''_exit'')"

definition newlib_close :: "dev_semihost \<Rightarrow> int \<Rightarrow> machine \<Rightarrow> int \<times> machine" where
  "newlib_close semihost file h = dev_semihost_do_close semihost file h"

definition newlib_fstat :: "dev_semihost \<Rightarrow> int \<Rightarrow> machine \<Rightarrow> int \<times> u32 list \<times> machine" where
  "newlib_fstat semihost file h = dev_semihost_do_fstat semihost file h"

definition newlib_lseek :: "dev_semihost \<Rightarrow> int \<Rightarrow> int \<Rightarrow> int \<Rightarrow> machine \<Rightarrow> int \<times> machine" where
  "newlib_lseek semihost file off dir h = dev_semihost_do_lseek semihost file off dir h"

definition newlib_open :: "dev_semihost \<Rightarrow> u8 list \<Rightarrow> int \<Rightarrow> int \<Rightarrow> machine \<Rightarrow> int \<times> machine" where
  "newlib_open semihost name flags mode h = dev_semihost_do_open semihost name flags mode h"

definition newlib_read :: "dev_semihost \<Rightarrow> int \<Rightarrow> (nat \<Rightarrow> u8) \<Rightarrow> int \<Rightarrow> machine \<Rightarrow>
    int \<times> (nat \<Rightarrow> u8) \<times> machine" where
  "newlib_read semihost file buf len h = dev_semihost_do_read semihost file buf len h"

definition newlib_isatty :: "int \<Rightarrow> int" where "newlib_isatty file = 1"

definition heap_start :: u32 where "heap_start = 0x02000000"
definition heap_end :: u32 where "heap_end = 0x04000000"

text \<open>The static variable \<open>current_heap_end\<close> is an argument and the second result.\<close>

definition newlib_sbrk :: "int \<Rightarrow> u32 \<Rightarrow> u32 \<times> u32" where
  "newlib_sbrk incr current_heap_end =
     (if current_heap_end + word_of_int incr > heap_end then (0, current_heap_end)
      else (current_heap_end, current_heap_end + word_of_int incr))"

text \<open>
  \<open>stdout\<close> and \<open>stderr\<close> are the C library's, cast to \<open>int\<close>: parameters of the model.
\<close>

definition newlib_write :: "int \<Rightarrow> int \<Rightarrow> dev_uart \<Rightarrow> dev_semihost \<Rightarrow> int \<Rightarrow> (nat \<Rightarrow> u8) \<Rightarrow> int \<Rightarrow>
    machine \<Rightarrow> (int \<times> machine) option" where
  "newlib_write stdout stderr uart semihost file buf len h =
     (if file = stdout \<or> file = stderr then
        Option.bind
          (fold (\<lambda>i r. Option.bind r (\<lambda>h. if buf i \<noteq> 13 then dev_uart_tx_char uart (buf i) h else Some h))
            [0..<nat len] (Some h))
          (\<lambda>h. Some (len, h))
      else Some (dev_semihost_do_write semihost file buf len h))"

section \<open>Polling\<close>

text \<open>The register says at some later read that there is room: the loop ends there.\<close>

definition uart_poll :: "dev_uart \<Rightarrow> machine \<Rightarrow> u32 \<times> machine" where
  "uart_poll me h = (case io_readh (fr me) h of (flag, h) \<Rightarrow> (ucast flag, h))"

fun uart_polls :: "dev_uart \<Rightarrow> nat \<Rightarrow> machine \<Rightarrow> machine" where
  "uart_polls me 0 h = h"
| "uart_polls me (Suc n) h = uart_polls me n (snd (uart_poll me h))"

lemma wait_txff_step:
  "dev_uart_wait_txff me h =
     (if dev_uart_fr_txff (fst (uart_poll me h)) \<noteq> 0 then dev_uart_wait_txff me (snd (uart_poll me h))
      else Some (snd (uart_poll me h)))"
  by (subst dev_uart_wait_txff.simps) (simp add: uart_poll_def split: prod.split)

lemma wait_txff_returns:
  assumes "\<And>k. k < n \<Longrightarrow> dev_uart_fr_txff (fst (uart_poll me (uart_polls me k h))) \<noteq> 0"
    and "dev_uart_fr_txff (fst (uart_poll me (uart_polls me n h))) = 0"
  shows "dev_uart_wait_txff me h = Some (uart_polls me (Suc n) h)"
  using assms
proof (induction n arbitrary: h)
  case 0
  then show ?case by (subst wait_txff_step) simp
next
  case (Suc n)
  have "dev_uart_wait_txff me (snd (uart_poll me h)) = Some (uart_polls me (Suc n) (snd (uart_poll me h)))"
    using Suc.prems(1) [of "Suc _"] Suc.prems(2) by (intro Suc.IH) auto
  moreover have "dev_uart_fr_txff (fst (uart_poll me h)) \<noteq> 0" using Suc.prems(1) [of 0] by simp
  ultimately show ?case by (subst wait_txff_step) simp
qed

section \<open>The heap\<close>

lemma sbrk_grow:
  assumes "heap_start \<le> e" and "e \<le> heap_end" and "0 \<le> incr" and "incr \<le> 0x02000000"
    and "newlib_sbrk incr e = (p, e')"
  shows "heap_start \<le> e' \<and> e' \<le> heap_end \<and> (p \<noteq> 0 \<longrightarrow> p = e \<and> uint e' = uint e + incr)"
proof -
  let ?i = "word_of_int incr :: u32"
  have i: "uint ?i = incr" using assms(3,4) by (simp add: uint_word_of_int)
  have e: "0x02000000 \<le> uint e" "uint e \<le> 0x04000000"
    using assms(1,2) by (simp_all add: heap_start_def heap_end_def word_le_def)
  have sum: "uint (e + ?i) = uint e + incr"
    using e assms(3,4) i by (simp add: uint_word_ariths)
  show ?thesis
  proof (cases "e + ?i > heap_end")
    case True
    with assms show ?thesis by (simp add: newlib_sbrk_def)
  next
    case False
    with assms(5) have "p = e" "e' = e + ?i" by (auto simp: newlib_sbrk_def)
    moreover have "heap_start \<le> e + ?i"
      using sum e assms(3) by (simp add: word_le_def heap_start_def)
    ultimately show ?thesis using False sum by simp
  qed
qed

end
