(* ===== verification/Global_State.thy ===== *)
theory Global_State
  imports Memory_Allocator Dev_Console
begin

text \<open>
  vmm/meteor_global_state.c: the global variables, as one state that the handlers pass
  on, with the machine under them, the static variable \<open>scheduler_idle\<close> of scheduler.c
  and the static variable \<open>last_i\<close> of memory_allocator.c. The array \<open>guest vm[4]\<close> is a
  function of the index, a C \<open>int\<close>.
\<close>

record meteor =
  hw :: machine
  vm_id :: int
  vm :: "int \<Rightarrow> guest"
  sys_mem_allocator :: memory_allocator
  last_i :: nat
  sys_monitor :: monitor
  sys_uart :: dev_uart
  rom :: dev_rom
  sys_semihost :: dev_semihost
  sys_gic_dist :: dev_gic2_dist
  sys_gic_cpu_if :: dev_gic2_cpu_if
  sys_gic_vctrl :: dev_gic2_vctrl
  sys_gic_vcpu_if :: dev_gic2_vcpu_if
  sys_timer :: dev_timer
  sys_ctrl :: dev_sys_ctrl
  scheduler_idle :: bool

definition vm_count :: int where "vm_count = 4"

text \<open>Changing one guest, its monitor, its scheduling state.\<close>

definition upd_vm :: "int \<Rightarrow> (guest \<Rightarrow> guest) \<Rightarrow> meteor \<Rightarrow> meteor" where
  "upd_vm i f s = s\<lparr>vm := (vm s)(i := f (vm s i))\<rparr>"

definition vm_trigger :: "int \<Rightarrow> monitor_events \<Rightarrow> meteor \<Rightarrow> meteor" where
  "vm_trigger i e = upd_vm i (\<lambda>g. g\<lparr>mon := monitor_trigger e (mon g)\<rparr>)"

definition sys_trigger :: "monitor_events \<Rightarrow> meteor \<Rightarrow> meteor" where
  "sys_trigger e s = s\<lparr>sys_monitor := monitor_trigger e (sys_monitor s)\<rparr>"

definition set_wfi :: "int \<Rightarrow> wfi_state_t \<Rightarrow> meteor \<Rightarrow> meteor" where
  "set_wfi i w = upd_vm i (\<lambda>g. g\<lparr>sched := \<lparr>wfi_state = w\<rparr>\<rparr>)"

abbreviation wfi_of :: "meteor \<Rightarrow> int \<Rightarrow> wfi_state_t" where
  "wfi_of s i \<equiv> wfi_state (sched (vm s i))"

abbreviation dirty_of :: "meteor \<Rightarrow> int \<Rightarrow> bool" where
  "dirty_of s i \<equiv> dirty (bk (vm s i))"

lemma upd_vm_simps [simp]:
  "vm (upd_vm i f s) j = (if j = i then f (vm s i) else vm s j)"
  "hw (upd_vm i f s) = hw s" "vm_id (upd_vm i f s) = vm_id s"
  "sys_mem_allocator (upd_vm i f s) = sys_mem_allocator s" "last_i (upd_vm i f s) = last_i s"
  "sys_monitor (upd_vm i f s) = sys_monitor s" "sys_gic_dist (upd_vm i f s) = sys_gic_dist s"
  "sys_gic_cpu_if (upd_vm i f s) = sys_gic_cpu_if s"
  "sys_gic_vctrl (upd_vm i f s) = sys_gic_vctrl s"
  "sys_gic_vcpu_if (upd_vm i f s) = sys_gic_vcpu_if s" "sys_timer (upd_vm i f s) = sys_timer s"
  "sys_ctrl (upd_vm i f s) = sys_ctrl s" "scheduler_idle (upd_vm i f s) = scheduler_idle s"
  by (simp_all add: upd_vm_def)

lemma sys_trigger_simps [simp]:
  "vm (sys_trigger e s) = vm s" "hw (sys_trigger e s) = hw s" "vm_id (sys_trigger e s) = vm_id s"
  "sys_mem_allocator (sys_trigger e s) = sys_mem_allocator s" "last_i (sys_trigger e s) = last_i s"
  "sys_monitor (sys_trigger e s) = monitor_trigger e (sys_monitor s)"
  "sys_gic_dist (sys_trigger e s) = sys_gic_dist s"
  "sys_gic_cpu_if (sys_trigger e s) = sys_gic_cpu_if s"
  "sys_gic_vctrl (sys_trigger e s) = sys_gic_vctrl s"
  "sys_gic_vcpu_if (sys_trigger e s) = sys_gic_vcpu_if s"
  "sys_timer (sys_trigger e s) = sys_timer s" "sys_ctrl (sys_trigger e s) = sys_ctrl s"
  "scheduler_idle (sys_trigger e s) = scheduler_idle s"
  by (simp_all add: sys_trigger_def)

end
