(* ===== verification/Guest_Rpb.thy ===== *)
theory Guest_Rpb
  imports Global_State
begin

text \<open>
  guests/guest_rpb.c: a guest on a virtual RealView PB board. Building it, its memory, its
  stage 2 table and its interrupt map; handling its data aborts, its interrupts and its
  trapped system register accesses.
\<close>

section \<open>Building a guest\<close>

text \<open>What \<open>memset(vm, 0, sizeof(guest))\<close> leaves.\<close>

definition rf_zero :: guest_rf where
  "rf_zero = \<lparr>r_usr = (\<lambda>_. 0), sp_usr = 0, sp_svc = 0, sp_abt = 0, sp_und = 0, sp_irq = 0,
     sp_fiq = 0, lr_usr = 0, lr_svc = 0, lr_abt = 0, lr_und = 0, lr_irq = 0, lr_fiq = 0,
     spsr_svc = 0, spsr_abt = 0, spsr_und = 0, spsr_irq = 0, spsr_fiq = 0, elr_hyp = 0,
     spsr_hyp = 0\<rparr>"

definition cp15_zero :: guest_cp15 where
  "cp15_zero = \<lparr>csselr = 0, sctlr = 0, ttbr0 = 0, ttbr1 = 0, ttbcr = 0, dacr = 0, dfsr = 0,
     ifsr = 0, dfar = 0, ifar = 0, prrr = 0, nmrr = 0, fcseidr = 0, contextidr = 0,
     tpidr_uro = 0, vttbr_lpae = 0\<rparr>"

definition guest_zero :: guest where
  "guest_zero = \<lparr>valid = False, guest_kind = Realview_PB, guest_id = 0, mem_base_pa = 0,
     guest_mem_base = 0, highmem_base = 0, mem_size = 0, kernel_base = 0, initrd_base = 0,
     atag_base = 0, vcpu_if_base = 0,
     pt = \<lparr>l1_base = 0, l2_base = 0, l3_base = 0, page_count = 0\<rparr>,
     sched = \<lparr>wfi_state = WFI_In\<rparr>,
     bk = \<lparr>dirty = False, bk_rf = rf_zero, bk_cp15 = cp15_zero, bk_vcpu_if = \<lparr>ctlr = 0\<rparr>,
           bk_list = (\<lambda>_. 0)\<rparr>,
     mon = \<lparr>print_count = 0, events = (\<lambda>_. 0)\<rparr>,
     vdev_gic_dist = \<lparr>vdist_en = False, virq = (\<lambda>_. \<lparr>virq_en = False, virq_pid = 0\<rparr>),
                      vdist_sys_gic_dist = \<lparr>dist_base_addr = 0\<rparr>\<rparr>,
     vdev_timer_2 = \<lparr>vtimer_load = (\<lambda>_. 0), vtimer_value = (\<lambda>_. 0)\<rparr>\<rparr>"

definition guest_rpb_init :: "int \<Rightarrow> u32 \<Rightarrow> u32 \<Rightarrow> u32 \<Rightarrow> dev_gic2_dist \<Rightarrow> guest" where
  "guest_rpb_init i base_pa base sz gic_dist =
     (let g = guest_zero;
          g = g\<lparr>valid := True, guest_kind := Realview_PB, guest_id := i,
                mem_base_pa := base_pa, guest_mem_base := base, mem_size := sz,
                highmem_base := 0x70000000, kernel_base := 0x00010000,
                initrd_base := 0x00d00000, atag_base := 0x00000100\<rparr>;
          g = g\<lparr>bk := (bk g)\<lparr>dirty := False,
                  bk_rf := (bk_rf (bk g))\<lparr>elr_hyp := 0x70000000, spsr_hyp := 0x400001D3\<rparr>,
                  bk_cp15 := (bk_cp15 (bk g))\<lparr>sctlr := 0x00C50078\<rparr>\<rparr>\<rparr>;
          g = g\<lparr>sched := \<lparr>wfi_state = WFI_Out\<rparr>\<rparr>
      in g\<lparr>vdev_gic_dist := vdev_gic2_dist_init (vdev_gic_dist g) gic_dist,
           vdev_timer_2 := vdev_timer_init (vdev_timer_2 g),
           mon := monitor_reset (mon g)\<rparr>)"

section \<open>Loading the images\<close>

definition bootloader :: "u32 list" where
  "bootloader = [0xe3a00000, 0xe3a01069, 0xe3811c07, 0xe59f2000, 0xe59ff000, 0x70000100,
     0x70010000]"

definition atag :: "guest \<Rightarrow> u32 \<Rightarrow> u32 list" where
  "atag g initrd_size = [0x5, 0x54410001, 0x1, 0x1000, 0x0,
     0x4, 0x54410002, mem_size g, 0x70000000,
     0x4, 0x54420005, 0x70d00000, initrd_size,
     0x0000, 0x0000]"

definition write_words :: "u32 \<Rightarrow> u32 list \<Rightarrow> machine \<Rightarrow> machine" where
  "write_words base ws h =
     fold (\<lambda>i h. io_writew (base + 4 * of_nat i) (ws ! i) h) [0..<length ws] h"

text \<open>
  A file is the list of its bytes: \<open>fgetc\<close> takes the first, and \<open>EOF\<close> is the empty list.
  \<open>copy_page\<close> is the loop over the 4096 bytes of a page; its result is whether \<open>EOF\<close> was
  met, the rest of the file, the counter of bytes and the address.
\<close>

fun copy_page :: "nat \<Rightarrow> u8 list \<Rightarrow> u32 \<Rightarrow> u32 \<Rightarrow> u32 \<Rightarrow> machine \<Rightarrow>
    bool \<times> u8 list \<times> u32 \<times> u32 \<times> machine" where
  "copy_page 0 fin sz pa ipa h = (False, fin, sz, ipa, h)"
| "copy_page (Suc n) [] sz pa ipa h = (True, [], sz, ipa, h)"
| "copy_page (Suc n) (data # fin) sz pa ipa h =
     copy_page n fin (sz + 1) (pa + 1) (ipa + 1) (io_writeb pa data h)"

lemma copy_page_rest:
  "copy_page n fin sz pa ipa h = (eof, fin', r) \<Longrightarrow> fin' = drop n fin"
  by (induction n fin sz pa ipa h rule: copy_page.induct) auto

lemma copy_page_shorter:
  assumes "copy_page n fin sz pa ipa h = (False, fin', r)" and "0 < n"
  shows "length fin' < length fin"
  using copy_page_rest [OF assms(1)] assms by (cases n; cases fin) auto

text \<open>The \<open>do .. while (data != EOF)\<close> loop: a page of the guest at \<open>ipa\<close> and \<open>ipa + high\<close>.\<close>

function load_file :: "u32 \<Rightarrow> u8 list \<Rightarrow> u32 \<Rightarrow> u32 \<Rightarrow> memory_allocator \<times> nat \<times> guest \<times> machine \<Rightarrow>
    (u32 \<times> memory_allocator \<times> nat \<times> guest \<times> machine) res" where
  "load_file high fin sz ipa (me, li, g, h) =
     bindR (memory_allocator_new_page me li g ipa (ipa + high) h) (\<lambda>(pa, me, li, g, h).
       let g = g\<lparr>mon := monitor_trigger ALLOCATE_PAGE (mon g)\<rparr>
       in case copy_page 4096 fin sz pa ipa h of (eof, fin', sz', ipa', h') \<Rightarrow>
            if eof then Inr (sz', me, li, g, h')
            else load_file high fin' sz' ipa' (me, li, g, h'))"
  by pat_completeness auto

termination
  by (relation "measure (\<lambda>(high, fin, _). length fin)") (auto dest: copy_page_shorter [OF sym])

text \<open>The images are loaded on demand-allocated pages, the page at 0 last.\<close>

definition guest_rpb_init_mem :: "u8 list \<Rightarrow> u8 list \<Rightarrow>
    memory_allocator \<times> nat \<times> guest \<times> machine \<Rightarrow>
    (memory_allocator \<times> nat \<times> guest \<times> machine) res" where
  "guest_rpb_init_mem zImage initrd = (\<lambda>(me, li, g, h).
     bindR (load_file 0x70000000 zImage 0 (kernel_base g) (me, li, g, h))
       (\<lambda>(kernel_size, me, li, g, h).
     bindR (load_file (highmem_base g) initrd 0 (initrd_base g) (me, li, g, h))
       (\<lambda>(initrd_size, me, li, g, h).
     bindR (memory_allocator_new_page me li g 0 (0 + highmem_base g) h) (\<lambda>(pa, me, li, g, h).
       let g = g\<lparr>mon := monitor_trigger ALLOCATE_PAGE (mon g)\<rparr>;
           h = write_words pa bootloader h;
           h = write_words (pa + atag_base g) (atag g initrd_size) h
       in Inr (me, li, g, h)))))"

fun copy_file :: "u8 list \<Rightarrow> u32 \<Rightarrow> u32 \<Rightarrow> machine \<Rightarrow> u32 \<times> machine" where
  "copy_file [] sz pa h = (sz, h)"
| "copy_file (data # fin) sz pa h = copy_file fin (sz + 1) (pa + 1) (io_writeb pa data h)"

definition guest_rpb_init_mem_static :: "u8 list \<Rightarrow> u8 list \<Rightarrow> guest \<Rightarrow> machine \<Rightarrow> machine" where
  "guest_rpb_init_mem_static zImage initrd g h =
     (let (kernel_size, h) = copy_file zImage 0 (mem_base_pa g + kernel_base g) h;
          (initrd_size, h) = copy_file initrd 0 (mem_base_pa g + initrd_base g) h;
          h = write_words (mem_base_pa g) bootloader h
      in write_words (mem_base_pa g + atag_base g) (atag g initrd_size) h)"

section \<open>The stage 2 table and the interrupt map\<close>

text \<open>The pages of the devices that a guest reaches directly.\<close>

definition guest_rpb_map_devices :: "u32 \<Rightarrow> u32 \<Rightarrow> u32 \<Rightarrow> u32 \<Rightarrow> u32 \<Rightarrow>
    pagetable_ld \<times> machine \<Rightarrow> pagetable_ld \<times> machine" where
  "guest_rpb_map_devices uart_base timer_0_base timer_2_base vcpu_base black_hole_base =
     (\<lambda>(p, h).
        let (p, h) = pagetable_set_page p 0x10009000 uart_base h;
            (p, h) = pagetable_set_page p 0x10011000 timer_0_base h;
            (p, h) = pagetable_set_page p 0x10012000 timer_2_base h;
            (p, h) = pagetable_set_page p 0x1E000000 vcpu_base h
        in pagetable_set_page p 0x20000000 black_hole_base h)"

definition set_vttbr :: "u32 \<Rightarrow> guest \<Rightarrow> guest" where
  "set_vttbr pt_base g =
     g\<lparr>bk := (bk g)\<lparr>bk_cp15 := (bk_cp15 (bk g))\<lparr>vttbr_lpae := ucast pt_base\<rparr>\<rparr>\<rparr>"

definition guest_rpb_init_pt :: "u32 \<Rightarrow> u32 \<Rightarrow> u32 \<Rightarrow> u32 \<Rightarrow> u32 \<Rightarrow> u32 \<Rightarrow> guest \<Rightarrow> machine \<Rightarrow>
    guest \<times> machine" where
  "guest_rpb_init_pt pt_base uart_base timer_0_base timer_2_base vcpu_base black_hole_base g h =
     (let (p, h) = guest_rpb_map_devices uart_base timer_0_base timer_2_base vcpu_base
                     black_hole_base (pagetable_init (ucast pt_base) h)
      in (set_vttbr pt_base (g\<lparr>pt := p\<rparr>), h))"

text \<open>
  The loop over the blocks of the guest's memory. Its counter is a \<open>uint32_t\<close>: for a size
  above 0xFFE00000 it would wrap around and the loop never end.
\<close>

definition guest_rpb_map_blocks :: "guest \<Rightarrow> pagetable_ld \<Rightarrow> machine \<Rightarrow> (u32 \<times> machine) option" where
  "guest_rpb_map_blocks g p h =
     while_option (\<lambda>(offset, h). offset < mem_size g)
       (\<lambda>(offset, h).
          let h = pagetable_set_block p (ucast offset) (mem_base_pa g + offset) h;
              h = pagetable_set_block p (ucast (0x70000000 + offset)) (mem_base_pa g + offset) h
          in (offset + push_bit 20 2, h))
       (0, h)"

definition guest_rpb_init_pt_static :: "u32 \<Rightarrow> u32 \<Rightarrow> u32 \<Rightarrow> u32 \<Rightarrow> u32 \<Rightarrow> u32 \<Rightarrow> guest \<Rightarrow>
    machine \<Rightarrow> (guest \<times> machine) res" where
  "guest_rpb_init_pt_static pt_base uart_base timer_0_base timer_2_base vcpu_base
     black_hole_base g h =
     (let (p, h) = pagetable_init (ucast pt_base) h
      in case guest_rpb_map_blocks g p h of
           None \<Rightarrow> Inl (NoReturn ''guest_rpb_init_pt_static'')
         | Some (_, h) \<Rightarrow>
             let (p, h) = guest_rpb_map_devices uart_base timer_0_base timer_2_base vcpu_base
                            black_hole_base (p, h)
             in Inr (set_vttbr pt_base (g\<lparr>pt := p\<rparr>), h))"

definition guest_rpb_init_virq :: "int \<Rightarrow> int \<Rightarrow> int \<Rightarrow> guest \<Rightarrow> guest" where
  "guest_rpb_init_virq uart_pid timer_0_pid timer_2_pid g =
     (let d = vdev_gic2_dist_map_virq (vdev_gic_dist g) 44 uart_pid;
          d = vdev_gic2_dist_map_virq d 36 timer_0_pid;
          d = vdev_gic2_dist_map_virq d 37 timer_2_pid
      in g\<lparr>vdev_gic_dist := d\<rparr>)"

section \<open>The data abort handler\<close>

text \<open>Decoding the trapped instruction: whether it is a load, and its register.\<close>

definition dabort_decode :: "u32 \<Rightarrow> (bool \<times> u32) res" where
  "dabort_decode inst =
     (if get_field inst 27 25 = 0b010 \<and> get_bit inst 22 = 0 \<and> get_bit inst 20 = 1
      then Inr (True, get_field inst 15 12)
      else if get_field inst 27 24 = 0b0101 \<and> get_field inst 22 16 = 0b0011111
      then Inl (Exit d_guest_rpb ''ldr ltrl'')
      else if get_field inst 27 25 = 0b011 \<and> get_bit inst 22 = 0 \<and> get_bit inst 20 = 1
        \<and> get_bit inst 4 = 0
      then Inl (Exit d_guest_rpb ''ldr reg'')
      else if get_field inst 27 25 = 0b010 \<and> get_bit inst 22 = 0 \<and> get_bit inst 20 = 0
      then Inr (False, get_field inst 15 12)
      else if get_field inst 27 25 = 0b011 \<and> get_bit inst 22 = 0 \<and> get_bit inst 20 = 0
        \<and> get_bit inst 4 = 0
      then Inr (False, get_field inst 15 12)
      else Inl (Exit d_guest_rpb ''error decoding instruction:0x%X''))"

text \<open>
  The access to a virtual device: the four branches of the handler share their shape, a
  load that reads the device and writes the register, or a store that reads the register
  and writes the device.
\<close>

definition dabort_load :: "u32 \<Rightarrow> u32 \<Rightarrow> (machine \<Rightarrow> (u32 \<times> machine) res) \<Rightarrow> meteor \<Rightarrow> meteor res" where
  "dabort_load sp rt rd s =
     bindR (rd (hw s)) (\<lambda>(rt_val, h).
       bindR (write_reg_to_stack sp rt rt_val h) (\<lambda>h. Inr (s\<lparr>hw := h\<rparr>)))"

definition dabort_store :: "int \<Rightarrow> u32 \<Rightarrow> u32 \<Rightarrow>
    (u32 \<Rightarrow> guest \<Rightarrow> machine \<Rightarrow> (guest \<times> machine) res) \<Rightarrow> meteor \<Rightarrow> meteor res" where
  "dabort_store i sp rt wr s =
     bindR (read_reg_from_stack sp rt (hw s)) (\<lambda>(rt_val, h).
       bindR (wr rt_val (vm s i) h) (\<lambda>(g, h). Inr (upd_vm i (\<lambda>_. g) (s\<lparr>hw := h\<rparr>))))"

text \<open>On-demand allocation; the trapped instruction is then executed again.\<close>

definition dabort_new_page :: "int \<Rightarrow> u32 \<Rightarrow> u32 \<Rightarrow> meteor \<Rightarrow> meteor res" where
  "dabort_new_page i ipa high_ipa s =
     (let s = vm_trigger i ALLOCATE_PAGE s
      in bindR (memory_allocator_new_page (sys_mem_allocator s) (last_i s) (vm s i) ipa high_ipa (hw s))
           (\<lambda>(pa, me, li, g, h).
              let s = (upd_vm i (\<lambda>_. g) s)\<lparr>sys_mem_allocator := me, last_i := li\<rparr>
              in Inr (s\<lparr>hw := rf_elr_hyp_write (rf_elr_hyp_read h - 4) h\<rparr>)))"

definition dabort_vdev :: "int \<Rightarrow> u32 \<Rightarrow> u32 \<Rightarrow> u32 \<Rightarrow> bool \<Rightarrow> u32 \<Rightarrow> meteor \<Rightarrow> meteor res" where
  "dabort_vdev i sp base offset is_load rt s =
     (if base = 0x10000000 then
        if is_load then dabort_load sp rt (vdev_rpb_sysreg_read (sys_ctrl s) offset) s
        else dabort_store i sp rt (\<lambda>rt_val g h. vdev_rpb_sysreg_write offset rt_val) s
      else if base = 0x10001000 then
        if is_load
        then dabort_load sp rt (\<lambda>h. bindR (vdev_rpb_sysctrl_read offset) (\<lambda>v. Inr (v, h))) s
        else dabort_store i sp rt (\<lambda>rt_val g h.
               bindR (vdev_rpb_sysctrl_write offset rt_val) (\<lambda>_. Inr (g, h))) s
      else if base = 0x10012000 then
        if is_load
        then dabort_load sp rt (\<lambda>h.
               bindR (vdev_timer_read (vdev_timer_2 (vm s i)) offset) (\<lambda>v. Inr (v, h))) s
        else dabort_store i sp rt (\<lambda>rt_val g h.
               bindR (vdev_timer_write (vdev_timer_2 g) offset rt_val)
                 (\<lambda>t. Inr (g\<lparr>vdev_timer_2 := t\<rparr>, h))) s
      else if base = 0x1E001000 then
        if is_load
        then dabort_load sp rt (\<lambda>h.
               bindR (vdev_gic2_dist_read (vdev_gic_dist (vm s i)) offset) (\<lambda>v. Inr (v, h))) s
        else dabort_store i sp rt (\<lambda>rt_val g h.
               bindR (vdev_gic2_dist_write (vdev_gic_dist g) offset rt_val h)
                 (\<lambda>(d, h). Inr (g\<lparr>vdev_gic_dist := d\<rparr>, h))) s
      else Inl (Exit d_guest_rpb ''error trapping hardware at ipa:0x%X''))"

definition guest_rpb_hyp_trap_dabort_handler :: "int \<Rightarrow> u32 \<Rightarrow> u32 \<Rightarrow> meteor \<Rightarrow> meteor res" where
  "guest_rpb_hyp_trap_dabort_handler i sp iss s =
     (let hdfar = cp15_read HDFAR (hw s);
          hpfar = cp15_read HPFAR (hw s);
          ipa = push_bit 12 (drop_bit 4 hpfar);
          ipa = ipa OR (hdfar AND mask32 11 0);
          base = ipa AND mask32 31 12;
          offset = ipa AND mask32 11 0
      in if base \<ge> 0 \<and> base \<le> push_bit 20 128
         then dabort_new_page i base (base + 0x70000000) s
         else if base \<ge> 0x70000000 \<and> base \<le> base + 0x70000000
         then dabort_new_page i (base - 0x70000000) base s
         else
           let s = vm_trigger i TRAP_DABORT_VDEV s;
               inst = cp15_read HADFSR (hw s)
           in bindR (dabort_decode inst) (\<lambda>(is_load, rt).
                dabort_vdev i sp base offset is_load rt s))"

section \<open>The interrupt handlers\<close>

text \<open>\<open>sp\<close> is not used by either handler.\<close>

definition guest_rpb_irq_handler :: "int \<Rightarrow> u32 \<Rightarrow> int \<Rightarrow> meteor \<Rightarrow> meteor res" where
  "guest_rpb_irq_handler i sp pid s =
     (let s = vm_trigger i TRAP_IRQ s
      in if pid = 1023 then Inr s
         else
           let vid = vdev_gic2_dist_irq_to_virq (vdev_gic_dist (vm s i)) pid
           in if vid = -1 then Inl (Exit d_guest_rpb ''virtual interrupt %d not imple.'')
              else
                case inject_loop (dev_gic2_vctrl_read_list (sys_gic_vctrl s))
                       (dev_gic2_vctrl_write_list_simple (sys_gic_vctrl s)) pid vid [0..<64] (hw s) of
                  Some h \<Rightarrow> Inr (s\<lparr>hw := h\<rparr>)
                | None \<Rightarrow> Inl (Exit d_guest_rpb ''rpb_irq_handler no empty list register''))"

definition guest_rpb_irq_handler_suspend :: "int \<Rightarrow> u32 \<Rightarrow> int \<Rightarrow> meteor \<Rightarrow> meteor res" where
  "guest_rpb_irq_handler_suspend i sp pid s =
     (if pid = 1023 then Inr s
      else
        let vid = vdev_gic2_dist_irq_to_virq (vdev_gic_dist (vm s i)) pid
        in if vid = -1 then Inl (Exit d_guest_rpb ''virtual interrupt %d not imple.'')
           else
             case inject_loop (\<lambda>k l. (l k, l)) (\<lambda>k v l. l(k := v)) pid vid [0..<64]
                    (bk_list (bk (vm s i))) of
               Some l \<Rightarrow> Inr (upd_vm i (\<lambda>g. g\<lparr>bk := (bk g)\<lparr>bk_list := l\<rparr>\<rparr>) s)
             | None \<Rightarrow> Inl (Exit d_guest_rpb ''rpb_irq_handler_suspend no empty list register''))"

text \<open>Decodes the trapped access for a debug message, and that is all.\<close>

definition guest_rpb_cp15_trap :: "int \<Rightarrow> u32 \<Rightarrow> u32 \<Rightarrow> meteor \<Rightarrow> meteor" where
  "guest_rpb_cp15_trap i sp iss s =
     (let crn = get_field iss 13 10; opc1 = get_field iss 16 14; crm = get_field iss 4 1;
          opc2 = get_field iss 19 17; rt = get_field iss 8 5; is_read = (get_bit iss 0 \<noteq> 0)
      in s)"

end
