(* ===== verification/Guest_Context.thy ===== *)
theory Guest_Context
  imports Guest
begin

text \<open>
  What saving and restoring a guest does to its processor context: the relation between a
  backup and the machine it describes, that a suspend establishes it, that a restore
  establishes it, and so that a guest finds its context again.
\<close>

section \<open>The registers on the stack as a bank of cells\<close>

definition stack_slot :: "u32 \<Rightarrow> nat \<Rightarrow> u32" where
  "stack_slot sp k = sp - 4 * (14 - of_nat k)"

definition stack_ok :: "u32 \<Rightarrow> machine \<Rightarrow> bool" where
  "stack_ok sp h \<longleftrightarrow> aligned 2 sp \<and> (\<forall>k < 14. ram h (stack_slot sp k))"

definition stack_reg :: "u32 \<Rightarrow> machine \<Rightarrow> nat \<Rightarrow> u32" where
  "stack_reg sp h k = load32 (mem h) (stack_slot sp k)"

lemma stack_slot_inj: "i < 14 \<Longrightarrow> j < 14 \<Longrightarrow> stack_slot sp i = stack_slot sp j \<Longrightarrow> i = j"
proof -
  assume ij: "i < 14" "j < 14" and "stack_slot sp i = stack_slot sp j"
  then have "(of_nat (4 * i) :: u32) = of_nat (4 * j)"
    by (simp add: stack_slot_def algebra_simps)
  then have "unat (of_nat (4 * i) :: u32) = unat (of_nat (4 * j) :: u32)" by simp
  with ij show "i = j" by (simp only: unat_of_nat mod_less) (simp add: unat_of_nat)
qed

lemma stack_slot_aligned: "aligned 2 sp \<Longrightarrow> k < 14 \<Longrightarrow> aligned 2 (stack_slot sp k)"
proof -
  assume sp: "aligned 2 sp" and k: "k < 14"
  have "- (4 * (14 - of_nat k)) = (of_nat (4 * k) + 0xFFFFFFC8 :: u32)" by simp
  moreover have "aligned 2 (of_nat (4 * k))" "aligned 2 0xFFFFFFC8"
    using k by (simp_all add: aligned_def unat_of_nat del: of_nat_mult)
  ultimately have "aligned 2 (- (4 * (14 - of_nat k)))"
    by (simp only: aligned_add)
  from aligned_add [OF sp this] show "aligned 2 (stack_slot sp k)"
    by (simp add: stack_slot_def algebra_simps)
qed

interpretation stack: cell_bank
  "\<lambda>k. io_readw (stack_slot sp k)" "\<lambda>k. io_writew (stack_slot sp k)" "stack_reg sp"
  "stack_ok sp" 14 for sp
proof (unfold_locales, goal_cases)
  case (1 s i)
  then show ?case by (simp add: stack_ok_def stack_reg_def io_readw_ram)
next
  case (2 s i)
  then show ?case by (simp add: stack_ok_def hw_simps ram_def)
next
  case (3 s j i)
  then show ?case by (simp add: stack_reg_def hw_simps)
next
  case (4 s i v)
  then show ?case by (simp add: stack_ok_def hw_simps)
next
  case (5 s i j v)
  then show ?case
    using stack_slot_inj [of i j sp]
    by (auto simp: stack_ok_def stack_reg_def hw_simps load32_store32 stack_slot_aligned)
qed

lemma read_reg_low: "k < 13 \<Longrightarrow> read_reg_from_stack sp (of_nat k) h = Inr (io_readw (stack_slot sp k) h)"
  by (simp add: read_reg_from_stack_def stack_slot_def word_le_nat_alt unat_of_nat)

lemma read_reg_lr: "read_reg_from_stack sp 14 h = Inr (io_readw (stack_slot sp 13) h)"
  by (simp add: read_reg_from_stack_def stack_slot_def)

lemma write_reg_low:
  "k < 13 \<Longrightarrow> write_reg_to_stack sp (of_nat k) v h = Inr (io_writew (stack_slot sp k) v h)"
  by (simp add: write_reg_to_stack_def stack_slot_def word_le_nat_alt unat_of_nat)

lemma write_reg_lr: "write_reg_to_stack sp 14 v h = Inr (io_writew (stack_slot sp 13) v h)"
  by (simp add: write_reg_to_stack_def stack_slot_def)

text \<open>The loops over the general registers are the loops over the bank.\<close>

lemma backup_loop:
  "n \<le> 13 \<Longrightarrow> forR (\<lambda>i (rf, h). bindR (read_reg_from_stack sp (of_nat i) h)
        (\<lambda>(v, h). Inr (rf\<lparr>r_usr := (r_usr rf)(i := v)\<rparr>, h))) [0..<n] (rf, h)
     = Inr (rf\<lparr>r_usr := fst (save_cells (\<lambda>k. io_readw (stack_slot sp k)) n (r_usr rf, h))\<rparr>,
            snd (save_cells (\<lambda>k. io_readw (stack_slot sp k)) n (r_usr rf, h)))"
proof (induction n)
  case (Suc n)
  obtain l t where "save_cells (\<lambda>k. io_readw (stack_slot sp k)) n (r_usr rf, h) = (l, t)"
    by fastforce
  with Suc show ?case
    by (cases "io_readw (stack_slot sp n) t")
      (simp add: forR_Suc save_cells_Suc read_reg_low del: upt_Suc cong: if_cong)
qed simp

lemma restore_loop:
  "n \<le> 13 \<Longrightarrow> forR (\<lambda>i h. write_reg_to_stack sp (of_nat i) (v i) h) [0..<n] h
     = Inr (restore_cells (\<lambda>k. io_writew (stack_slot sp k)) n v h)"
proof (induction n)
  case (Suc n)
  then show ?case by (simp add: forR_Suc restore_cells_Suc write_reg_low del: upt_Suc)
qed simp

section \<open>The context a backup describes\<close>

text \<open>The banked registers that a backup of the register file holds.\<close>

fun banked_rf :: "guest_rf \<Rightarrow> banked_reg \<Rightarrow> u32" where
  "banked_rf rf SP_usr = sp_usr rf"
| "banked_rf rf SP_svc = sp_svc rf"
| "banked_rf rf SP_abt = sp_abt rf"
| "banked_rf rf SP_und = sp_und rf"
| "banked_rf rf SP_irq = sp_irq rf"
| "banked_rf rf SP_fiq = sp_fiq rf"
| "banked_rf rf LR_svc = lr_svc rf"
| "banked_rf rf LR_abt = lr_abt rf"
| "banked_rf rf LR_und = lr_und rf"
| "banked_rf rf LR_irq = lr_irq rf"
| "banked_rf rf LR_fiq = lr_fiq rf"
| "banked_rf rf SPSR_svc = spsr_svc rf"
| "banked_rf rf SPSR_abt = spsr_abt rf"
| "banked_rf rf SPSR_und = spsr_und rf"
| "banked_rf rf SPSR_irq = spsr_irq rf"
| "banked_rf rf SPSR_fiq = spsr_fiq rf"
| "banked_rf rf ELR_hyp = elr_hyp rf"
| "banked_rf rf SPSR_hyp = spsr_hyp rf"

text \<open>The registers a trap has pushed, the general ones first and \<open>LR_usr\<close> last.\<close>

definition pushed_rf :: "guest_rf \<Rightarrow> nat \<Rightarrow> u32" where
  "pushed_rf rf k = (if k < 13 then r_usr rf k else lr_usr rf)"

definition rf_live :: "u32 \<Rightarrow> guest_rf \<Rightarrow> machine \<Rightarrow> bool" where
  "rf_live sp rf h \<longleftrightarrow> banked h = banked_rf rf
     \<and> (sp \<noteq> 0 \<longrightarrow> (\<forall>k < 14. stack_reg sp h k = pushed_rf rf k))"

definition cp15_snapshot :: "machine \<Rightarrow> guest_cp15" where
  "cp15_snapshot h =
     \<lparr>csselr = cp15_read CSSELR h, sctlr = cp15_read SCTLR h, ttbr0 = cp15_read TTBR0 h,
      ttbr1 = cp15_read TTBR1 h, ttbcr = cp15_read TTBCR h, dacr = cp15_read DACR h,
      dfsr = cp15_read DFSR h, ifsr = cp15_read IFSR h, dfar = cp15_read DFAR h,
      ifar = cp15_read IFAR h, prrr = cp15_read PRRR h, nmrr = cp15_read NMRR h,
      fcseidr = cp15_read FCSEIDR h, contextidr = cp15_read CONTEXTIDR h,
      tpidr_uro = cp15_read TPIDR_URO h, vttbr_lpae = cp15_read64 VTTBR_LPAE h\<rparr>"

text \<open>
  Where the context lies: the pushed registers, the list registers and the control
  register of the virtual CPU interface are words that keep what is written to them,
  none of which is part of another.
\<close>

definition ctx_ok :: "dev_gic2_vctrl \<Rightarrow> dev_gic2_vcpu_if \<Rightarrow> u32 \<Rightarrow> machine \<Rightarrow> bool" where
  "ctx_ok gic vc sp h \<longleftrightarrow> live_list_ok gic h
     \<and> ram h (vcpu_if_base_address vc) \<and> aligned 2 (vcpu_if_base_address vc)
     \<and> (\<forall>n < 64. list_reg_addr gic n \<noteq> vcpu_if_base_address vc)
     \<and> (sp \<noteq> 0 \<longrightarrow> stack_ok sp h \<and> (\<forall>k < 14. stack_slot sp k \<noteq> vcpu_if_base_address vc
          \<and> (\<forall>n < 64. stack_slot sp k \<noteq> list_reg_addr gic n)))"

definition ctx_live :: "dev_gic2_vctrl \<Rightarrow> dev_gic2_vcpu_if \<Rightarrow> u32 \<Rightarrow> guest_backup \<Rightarrow> machine \<Rightarrow> bool" where
  "ctx_live gic vc sp b h \<longleftrightarrow> rf_live sp (bk_rf b) h \<and> cp15_snapshot h = bk_cp15 b
     \<and> load32 (mem h) (vcpu_if_base_address vc) = ctlr (bk_vcpu_if b)
     \<and> (\<forall>i < 64. live_list gic h i = bk_list b i)"

text \<open>A machine that only differs in the accesses recorded.\<close>

definition reads_only :: "machine \<Rightarrow> machine \<Rightarrow> bool" where
  "reads_only h h' \<longleftrightarrow> h' = h\<lparr>trace := trace h'\<rparr>"

lemma reads_only_refl [simp]: "reads_only h h"
  by (simp add: reads_only_def)

lemma reads_only_trans: "reads_only h1 h2 \<Longrightarrow> reads_only h2 h3 \<Longrightarrow> reads_only h1 h3"
  unfolding reads_only_def by (cases h1; cases h2; cases h3) simp

lemma reads_only_readw: "reads_only h (snd (io_readw a h))"
  by (simp add: reads_only_def hw_simps)

lemma reads_onlyD:
  assumes "reads_only h h'"
  shows "mem h' = mem h" "dev h' = dev h" "banked h' = banked h" "cp15 h' = cp15 h"
    "cp15_64 h' = cp15_64 h" "shl_over h' = shl_over h"
  using assms unfolding reads_only_def by (cases h; cases h'; simp)+

lemma cp15_read_cong: "cp15 h' = cp15 h \<Longrightarrow> cp15_read n h' = cp15_read n h"
  by (cases "cp15_parse (cp15_full_name n)") (simp_all add: cp15_read_def asm_cp15_read_def)

lemma cp15_snapshot_cong:
  "cp15 h' = cp15 h \<Longrightarrow> cp15_64 h' = cp15_64 h \<Longrightarrow> cp15_snapshot h' = cp15_snapshot h"
  by (simp add: cp15_snapshot_def cp15_read_cong [of h' h] cp15_read64_vttbr)

lemma reads_only_ctx:
  assumes "reads_only h h'"
  shows "ctx_live gic vc sp b h' = ctx_live gic vc sp b h" "ctx_ok gic vc sp h' = ctx_ok gic vc sp h"
  using reads_onlyD [OF assms] cp15_snapshot_cong [of h' h]
  by (simp_all add: ctx_live_def rf_live_def stack_reg_def live_list_def ctx_ok_def
      live_list_ok_def ram_def stack_ok_def)

section \<open>Saving\<close>

lemma save_stack_reads_only:
  "reads_only h (snd (save_cells (\<lambda>k. io_readw (stack_slot sp k)) n (l, h)))"
  by (rule save_cells_keeps) (auto intro: reads_only_trans reads_only_readw)

definition rf_load :: "(nat \<Rightarrow> u32) \<Rightarrow> u32 \<Rightarrow> (banked_reg \<Rightarrow> u32) \<Rightarrow> guest_rf" where
  "rf_load l lr b =
     \<lparr>r_usr = l, sp_usr = b SP_usr, sp_svc = b SP_svc, sp_abt = b SP_abt, sp_und = b SP_und,
      sp_irq = b SP_irq, sp_fiq = b SP_fiq, lr_usr = lr, lr_svc = b LR_svc, lr_abt = b LR_abt,
      lr_und = b LR_und, lr_irq = b LR_irq, lr_fiq = b LR_fiq, spsr_svc = b SPSR_svc,
      spsr_abt = b SPSR_abt, spsr_und = b SPSR_und, spsr_irq = b SPSR_irq,
      spsr_fiq = b SPSR_fiq, elr_hyp = b ELR_hyp, spsr_hyp = b SPSR_hyp\<rparr>"

lemma banked_rf_load: "banked_rf (rf_load l lr b) = b"
proof
  show "banked_rf (rf_load l lr b) r = b r" for r by (cases r) (simp_all add: rf_load_def)
qed

lemma pushed_rf_load: "pushed_rf (rf_load l lr b) k = (if k < 13 then l k else lr)"
  by (simp add: pushed_rf_def rf_load_def)

lemma guest_backup_rf_0:
  "guest_backup_rf vm 0 h =
     Inr (vm\<lparr>bk := (bk vm)\<lparr>bk_rf := rf_load (r_usr (bk_rf (bk vm))) (lr_usr (bk_rf (bk vm)))
       (banked h)\<rparr>\<rparr>, h)"
  by (cases "bk_rf (bk vm)") (simp add: guest_backup_rf_def rf_load_def Let_def mrs_def)

lemma guest_backup_rf_pushed:
  assumes "sp \<noteq> 0"
    and s: "save_cells (\<lambda>k. io_readw (stack_slot sp k)) 13 (r_usr (bk_rf (bk vm)), h) = (l, h1)"
    and "io_readw (stack_slot sp 13) h1 = (lr, h2)" and "banked h1 = banked h" "banked h2 = banked h"
  shows "guest_backup_rf vm sp h = Inr (vm\<lparr>bk := (bk vm)\<lparr>bk_rf := rf_load l lr (banked h)\<rparr>\<rparr>, h2)"
  using assms
  by (cases "bk_rf (bk vm)")
    (simp add: guest_backup_rf_def backup_loop read_reg_lr rf_load_def Let_def mrs_def)

lemma backup_rf_live:
  assumes "sp \<noteq> 0 \<Longrightarrow> stack_ok sp h"
  obtains rf h' where "guest_backup_rf vm sp h = Inr (vm\<lparr>bk := (bk vm)\<lparr>bk_rf := rf\<rparr>\<rparr>, h')"
    and "reads_only h h'" and "rf_live sp rf h"
proof (cases "sp = 0")
  case True
  then show ?thesis
    by (intro that) (auto simp: guest_backup_rf_0 rf_live_def banked_rf_load)
next
  case False
  have ok: "stack_ok sp h" using assms False by simp
  obtain l h1 where s: "save_cells (\<lambda>k. io_readw (stack_slot sp k)) 13 (r_usr (bk_rf (bk vm)), h)
      = (l, h1)" by fastforce
  obtain lr h2 where r: "io_readw (stack_slot sp 13) h1 = (lr, h2)" by fastforce
  have l: "l i = stack_reg sp h i" if "i < 13" for i
    using stack.save_cells_value [OF ok, of 13 "r_usr (bk_rf (bk vm))"] that by (simp add: s)
  have ok1: "stack_ok sp h1"
    using stack.save_cells_ok [OF ok, of 13 "r_usr (bk_rf (bk vm))"] by (simp add: s)
  have lr: "lr = stack_reg sp h 13"
    using stack.rd_value [OF ok1, of 13] stack.save_cells_view [OF ok, of 13 13, where l = "r_usr (bk_rf (bk vm))"]
    by (simp add: s r)
  have ro: "reads_only h h1"
    using save_stack_reads_only [of h sp 13 "r_usr (bk_rf (bk vm))"] by (simp add: s)
  have ro2: "reads_only h h2"
    using reads_only_trans [OF ro reads_only_readw [of h1 "stack_slot sp 13"]] by (simp add: r)
  show ?thesis
  proof (rule that)
    show "guest_backup_rf vm sp h = Inr (vm\<lparr>bk := (bk vm)\<lparr>bk_rf := rf_load l lr (banked h)\<rparr>\<rparr>, h2)"
      by (rule guest_backup_rf_pushed [OF False s r]) (simp_all add: reads_onlyD [OF ro] reads_onlyD [OF ro2])
    have "stack_reg sp h k = pushed_rf (rf_load l lr (banked h)) k" if "k < 14" for k
      using l [of k] lr that by (cases "k = 13") (auto simp: pushed_rf_load)
    then show "rf_live sp (rf_load l lr (banked h)) h"
      by (simp add: rf_live_def banked_rf_load)
  qed (rule ro2)
qed

lemma guest_backup_cp15_eq:
  "guest_backup_cp15 vm h = vm\<lparr>bk := (bk vm)\<lparr>bk_cp15 := cp15_snapshot h\<rparr>\<rparr>"
  by (simp add: guest_backup_cp15_def cp15_snapshot_def)

text \<open>
  Suspending a guest whose backup is out of date reads the machine and nothing else, and
  leaves in the backup the context of the machine.
\<close>

lemma guest_suspend_live:
  assumes ok: "ctx_ok gic vc sp h" and "dirty (bk vm)"
  obtains b h' where "guest_suspend gic vc vm sp h = Inr (vm\<lparr>bk := b\<rparr>, h')"
    and "reads_only h h'" and "\<not> dirty b" and "ctx_live gic vc sp b h"
proof -
  have "sp \<noteq> 0 \<Longrightarrow> stack_ok sp h" using ok by (simp add: ctx_ok_def)
  then obtain rf h1 where rf: "guest_backup_rf vm sp h = Inr (vm\<lparr>bk := (bk vm)\<lparr>bk_rf := rf\<rparr>\<rparr>, h1)"
    and ro1: "reads_only h h1" and live: "rf_live sp rf h"
    by (rule backup_rf_live)
  obtain v h2 where v: "dev_gic2_vcpu_if_read_ctlr vc h1 = (v, h2)" by fastforce
  have ro2: "reads_only h h2"
    using reads_only_trans [OF ro1 reads_only_readw [of h1 "vcpu_if_base_address vc"]] v
    by (simp add: dev_gic2_vcpu_if_read_ctlr_def)
  obtain l h3 where l: "save_cells (dev_gic2_vctrl_read_list gic) 64 (bk_list (bk vm), h2) = (l, h3)"
    by fastforce
  have "reads_only h (snd (save_cells (dev_gic2_vctrl_read_list gic) 64 (bk_list (bk vm), h2)))"
    by (rule save_cells_keeps)
      (auto simp: dev_gic2_vctrl_read_list_def intro: reads_only_trans reads_only_readw ro2)
  then have ro3: "reads_only h h3" by (simp add: l)
  have ok2: "live_list_ok gic h2"
    using ok reads_onlyD [OF ro2] by (simp add: ctx_ok_def live_list_ok_def ram_def)
  have "l i = live_list gic h i" if "i < 64" for i
    using live.save_cells_value [OF ok2, of 64 "bk_list (bk vm)"] that reads_onlyD [OF ro2]
    by (simp add: l live_list_def)
  moreover have "v = load32 (mem h) (vcpu_if_base_address vc)"
    using v ok io_readw_ram [of h1 "vcpu_if_base_address vc"] reads_onlyD [OF ro1]
    by (simp add: dev_gic2_vcpu_if_read_ctlr_def ctx_ok_def ram_def)
  moreover have "cp15_snapshot h1 = cp15_snapshot h"
    by (rule cp15_snapshot_cong) (simp_all add: reads_onlyD [OF ro1])
  ultimately show ?thesis
    using assms(2) live ro3
    by (intro that [of "(bk vm)\<lparr>dirty := False, bk_rf := rf, bk_cp15 := cp15_snapshot h,
          bk_vcpu_if := \<lparr>ctlr = v\<rparr>, bk_list := l\<rparr>" h3])
      (simp_all add: guest_suspend_def rf guest_backup_cp15_eq guest_backup_gic2_vcpu_if_def v
        guest_backup_list_def l ctx_live_def)
qed

lemma guest_suspend_clean:
  "\<not> dirty (bk vm) \<Longrightarrow> guest_suspend gic vc vm sp h = Inr (vm, h)"
  by (cases "bk vm") (simp add: guest_suspend_def)

section \<open>Restoring\<close>

text \<open>The coordinates behind the names that \<open>cp15.c\<close> uses for a guest's registers.\<close>

lemma guest_cp15_names:
  "cp15_parse CSSELR = Some (0, 2, 0, 0)"
  "cp15_parse SCTLR = Some (1, 0, 0, 0)"
  "cp15_parse TTBR0 = Some (2, 0, 0, 1)"
  "cp15_parse TTBR1 = Some (2, 0, 0, 2)"
  "cp15_parse TTBCR = Some (2, 0, 0, 0)"
  "cp15_parse DACR = Some (3, 0, 0, 0)"
  "cp15_parse DFSR = Some (5, 0, 0, 0)"
  "cp15_parse IFSR = Some (5, 0, 0, 1)"
  "cp15_parse DFAR = Some (6, 0, 0, 0)"
  "cp15_parse IFAR = Some (6, 0, 0, 2)"
  "cp15_parse PRRR = Some (10, 0, 2, 0)"
  "cp15_parse NMRR = Some (10, 0, 2, 1)"
  "cp15_parse FCSEIDR = Some (13, 0, 0, 0)"
  "cp15_parse CONTEXTIDR = Some (13, 0, 0, 1)"
  "cp15_parse TPIDR_URO = Some (13, 0, 0, 3)"
  by (simp_all add: cp15_eval cp15_parse_def cp15_cases_def)

lemma guest_cp15_full:
  "cp15_full_name CSSELR = CSSELR" "cp15_full_name SCTLR = SCTLR" "cp15_full_name TTBR0 = TTBR0"
  "cp15_full_name TTBR1 = TTBR1" "cp15_full_name TTBCR = TTBCR" "cp15_full_name DACR = DACR"
  "cp15_full_name DFSR = DFSR" "cp15_full_name IFSR = IFSR" "cp15_full_name DFAR = DFAR"
  "cp15_full_name IFAR = IFAR" "cp15_full_name PRRR = PRRR" "cp15_full_name NMRR = NMRR"
  "cp15_full_name FCSEIDR = FCSEIDR" "cp15_full_name CONTEXTIDR = CONTEXTIDR"
  "cp15_full_name TPIDR_URO = TPIDR_URO"
  using cp15_full_names_wf by (simp_all add: cp15_full_names_def)

lemma cp15_write_full:
  assumes "cp15_full_name n = n" and "cp15_parse n \<noteq> None"
    and "the (cp15_parse n) \<notin> set cp15_read_only"
  shows "cp15_write n v h = h\<lparr>cp15 := (cp15 h)(the (cp15_parse n) := v)\<rparr>"
  using assms cp15_full_name_hsb [of n] cp15_full_name_lsb [of n]
  by (auto simp: cp15_write_eq set_field_whole)

lemma cp15_read_full:
  assumes "cp15_full_name n = n" and "cp15_parse n \<noteq> None"
  shows "cp15_read n h = cp15 h (the (cp15_parse n))"
  using assms cp15_read_whole [of n] by auto

lemmas guest_cp15_simps = cp15_read_only_def cp15_write_full cp15_read_full guest_cp15_full guest_cp15_names

lemma cp15_snapshot_restore: "cp15_snapshot (guest_restore_cp15 vm h) = bk_cp15 (bk vm)"
  by (simp add: cp15_snapshot_def guest_restore_cp15_def Let_def guest_cp15_simps
      cp15_write64_vttbr cp15_read64_vttbr)

lemma cp15_snapshot_vmid:
  "cp15_snapshot (cp15_write64 VTTBR_LPAE_VMID v h)
     = (cp15_snapshot h)\<lparr>vttbr_lpae := set_field64 (vttbr_lpae (cp15_snapshot h)) 55 48 v\<rparr>"
  by (simp add: cp15_snapshot_def guest_cp15_simps cp15_write64_vttbr_vmid cp15_read64_vttbr)

text \<open>Writing a register file back.\<close>

definition restore_banked :: "guest_rf \<Rightarrow> machine \<Rightarrow> machine" where
  "restore_banked rf h = h\<lparr>banked := banked_rf rf\<rparr>"

definition restore_pushed :: "u32 \<Rightarrow> guest_rf \<Rightarrow> machine \<Rightarrow> machine" where
  "restore_pushed sp rf h =
     (if sp = 0 then h else restore_cells (\<lambda>k. io_writew (stack_slot sp k)) 14 (pushed_rf rf) h)"

lemma banked_rf_upd:
  "b(SP_usr := sp_usr rf, SP_svc := sp_svc rf, SP_abt := sp_abt rf, SP_und := sp_und rf,
     SP_irq := sp_irq rf, SP_fiq := sp_fiq rf, LR_svc := lr_svc rf, LR_abt := lr_abt rf,
     LR_und := lr_und rf, LR_irq := lr_irq rf, LR_fiq := lr_fiq rf, SPSR_svc := spsr_svc rf,
     SPSR_abt := spsr_abt rf, SPSR_und := spsr_und rf, SPSR_irq := spsr_irq rf,
     SPSR_fiq := spsr_fiq rf, ELR_hyp := elr_hyp rf, SPSR_hyp := spsr_hyp rf) = banked_rf rf"
  (is "?l = _")
proof
  show "?l r = banked_rf rf r" for r by (cases r) simp_all
qed

lemma msr_commute:
  "io_writew a v (msr r w h) = msr r w (io_writew a v h)"
  by (simp add: io_writew_def msr_def)

lemma guest_restore_rf_eq:
  "guest_restore_rf vm sp h
     = Inr (restore_banked (bk_rf (bk vm)) (restore_pushed sp (bk_rf (bk vm)) h))"
proof -
  let ?rf = "bk_rf (bk vm)"
  have cells: "restore_cells w 13 (pushed_rf ?rf) h = restore_cells w 13 (r_usr ?rf) h"
    for w :: "nat \<Rightarrow> u32 \<Rightarrow> machine \<Rightarrow> machine"
    unfolding restore_cells_def by (rule fold_cong) (auto simp: pushed_rf_def)
  have 14: "restore_cells w 14 (pushed_rf ?rf) h = w 13 (lr_usr ?rf) (restore_cells w 13 (r_usr ?rf) h)"
    for w :: "nat \<Rightarrow> u32 \<Rightarrow> machine \<Rightarrow> machine"
    using restore_cells_Suc [of w 13 "pushed_rf ?rf" h] cells [of w] by (simp add: pushed_rf_def)
  have msrs: "msr SPSR_hyp (spsr_hyp ?rf) (msr ELR_hyp (elr_hyp ?rf)
      (msr SPSR_fiq (spsr_fiq ?rf) (msr SPSR_irq (spsr_irq ?rf) (msr SPSR_und (spsr_und ?rf)
      (msr SPSR_abt (spsr_abt ?rf) (msr SPSR_svc (spsr_svc ?rf) (msr LR_fiq (lr_fiq ?rf)
      (msr LR_irq (lr_irq ?rf) (msr LR_und (lr_und ?rf) (msr LR_abt (lr_abt ?rf)
      (msr LR_svc (lr_svc ?rf) (msr SP_fiq (sp_fiq ?rf) (msr SP_irq (sp_irq ?rf)
      (msr SP_und (sp_und ?rf) (msr SP_abt (sp_abt ?rf) (msr SP_svc (sp_svc ?rf)
      (msr SP_usr (sp_usr ?rf) g))))))))))))))))) = restore_banked ?rf g" for g
    by (rule machine.equality)
      (simp_all add: hw_simps restore_banked_def banked_rf_upd del: fun_upd_apply)
  show ?thesis
    by (cases "sp = 0")
      (simp_all add: guest_restore_rf_def Let_def restore_loop write_reg_lr msr_commute msrs
        restore_pushed_def 14 del: upt_rec_numeral)
qed

text \<open>A write to the context elsewhere leaves the pushed registers alone.\<close>

lemma stack_reg_write:
  "stack_ok sp h \<Longrightarrow> k < 14 \<Longrightarrow> aligned 2 a \<Longrightarrow> stack_slot sp k \<noteq> a \<Longrightarrow>
     stack_reg sp (io_writew a v h) k = stack_reg sp h k"
  by (auto simp: stack_ok_def stack_reg_def hw_simps load32_store32 stack_slot_aligned)

lemma ctx_ok_dev: "dev h' = dev h \<Longrightarrow> ctx_ok gic vc sp h \<Longrightarrow> ctx_ok gic vc sp h'"
  by (simp add: ctx_ok_def live_list_ok_def stack_ok_def ram_def)

lemma restore_pushed_frame:
  "dev (restore_pushed sp rf h) = dev h" "cp15 (restore_pushed sp rf h) = cp15 h"
  "cp15_64 (restore_pushed sp rf h) = cp15_64 h" "shl_over (restore_pushed sp rf h) = shl_over h"
  unfolding restore_pushed_def
  by (auto intro!: restore_cells_keeps [where P = "\<lambda>s. f s = f h" for f] simp: hw_simps)

lemma restore_list_frame:
  "dev (guest_restore_list gic vm s) = dev s" "banked (guest_restore_list gic vm s) = banked s"
  "cp15 (guest_restore_list gic vm s) = cp15 s" "cp15_64 (guest_restore_list gic vm s) = cp15_64 s"
  unfolding guest_restore_list_def
  by (auto intro!: restore_cells_keeps [where P = "\<lambda>t. f t = f s" for f]
      simp: hw_simps dev_gic2_vctrl_write_list_simple_def)

text \<open>What is kept by the write of a list register.\<close>

definition ctx_kept :: "dev_gic2_vctrl \<Rightarrow> dev_gic2_vcpu_if \<Rightarrow> u32 \<Rightarrow> machine \<Rightarrow> machine \<Rightarrow> bool" where
  "ctx_kept gic vc sp s t \<longleftrightarrow> ctx_ok gic vc sp t
     \<and> load32 (mem t) (vcpu_if_base_address vc) = load32 (mem s) (vcpu_if_base_address vc)
     \<and> (sp \<noteq> 0 \<longrightarrow> (\<forall>k < 14. stack_reg sp t k = stack_reg sp s k))"

lemma ctx_kept_list:
  assumes "ctx_ok gic vc sp s"
  shows "ctx_kept gic vc sp s (guest_restore_list gic vm s)"
  unfolding guest_restore_list_def
proof (rule restore_cells_keeps)
  show "ctx_kept gic vc sp s s" using assms by (simp add: ctx_kept_def)
next
  fix i :: nat and v t
  assume i: "i < 64" and t: "ctx_kept gic vc sp s t"
  then have ok: "ctx_ok gic vc sp t" by (simp add: ctx_kept_def)
  have al: "aligned 2 (list_reg_addr gic i)"
    using ok i by (simp add: ctx_ok_def live_list_ok_def aligned_list_reg_addr)
  have "ctx_ok gic vc sp (dev_gic2_vctrl_write_list_simple gic i v t)"
    by (rule ctx_ok_dev [OF _ ok]) (simp add: dev_gic2_vctrl_write_list_simple_def hw_simps)
  then show "ctx_kept gic vc sp s (dev_gic2_vctrl_write_list_simple gic i v t)"
    using t ok al i stack_reg_write [of sp t _ "list_reg_addr gic i" v]
    by (simp add: ctx_kept_def ctx_ok_def dev_gic2_vctrl_write_list_simple_def hw_simps
        load32_store32 flip: list_reg_addr_def)
qed

lemma guest_restore_live:
  assumes ok: "ctx_ok gic vc sp h" and "\<not> dirty (bk vm)"
  obtains h' where "guest_restore gic vc vm sp h
      = Inr (guest_id vm, vm\<lparr>bk := (bk vm)\<lparr>dirty := True\<rparr>\<rparr>, h')"
    and "dev h' = dev h"
    and "ctx_live gic vc sp ((bk vm)\<lparr>bk_cp15 := (bk_cp15 (bk vm))\<lparr>vttbr_lpae :=
      set_field64 (vttbr_lpae (bk_cp15 (bk vm))) 55 48 (word_of_int (guest_id vm))\<rparr>\<rparr>) h'"
proof -
  let ?b = "bk vm"
  let ?h1 = "restore_banked (bk_rf ?b) (restore_pushed sp (bk_rf ?b) h)"
  let ?h2 = "guest_restore_cp15 vm ?h1"
  let ?h3 = "guest_restore_gic2_vcpu_if vc vm ?h2"
  let ?h4 = "guest_restore_list gic vm ?h3"
  let ?h5 = "cp15_write64 VTTBR_LPAE_VMID (word_of_int (guest_id vm)) ?h4"
  have r: "guest_restore gic vc vm sp h = Inr (guest_id vm, vm\<lparr>bk := ?b\<lparr>dirty := True\<rparr>\<rparr>, ?h5)"
    using assms(2) by (simp add: guest_restore_def guest_restore_rf_eq Let_def)
  have dev2: "dev ?h2 = dev h"
    by (simp add: guest_restore_cp15_def Let_def hw_simps restore_banked_def restore_pushed_frame)
  have dev3: "dev ?h3 = dev h"
    by (simp add: dev2 guest_restore_gic2_vcpu_if_def dev_gic2_vcpu_if_write_ctlr_def hw_simps)
  have ok2: "ctx_ok gic vc sp ?h2" and ok3: "ctx_ok gic vc sp ?h3"
    by (rule ctx_ok_dev [OF _ ok], rule dev2 dev3)+
  note kept = ctx_kept_list [OF ok3, of vm]
  have stack2: "stack_reg sp ?h2 k = pushed_rf (bk_rf ?b) k" if "sp \<noteq> 0" "k < 14" for k
    using stack.restore_cells_view [of sp h 14 k] ok that
    by (simp add: guest_restore_cp15_def Let_def hw_simps restore_banked_def restore_pushed_def
        stack_reg_def ctx_ok_def)
  have stack3: "stack_reg sp ?h3 k = pushed_rf (bk_rf ?b) k" if "sp \<noteq> 0" "k < 14" for k
    using stack_reg_write [of sp ?h2 k] ok2 stack2 that
    by (simp add: ctx_ok_def guest_restore_gic2_vcpu_if_def dev_gic2_vcpu_if_write_ctlr_def)
  have "load32 (mem ?h3) (vcpu_if_base_address vc) = ctlr (bk_vcpu_if ?b)"
    by (simp add: guest_restore_gic2_vcpu_if_def dev_gic2_vcpu_if_write_ctlr_def hw_simps
        load32_store32_same)
  with kept have vcpu: "load32 (mem ?h4) (vcpu_if_base_address vc) = ctlr (bk_vcpu_if ?b)"
    by (simp add: ctx_kept_def)
  have stack4: "stack_reg sp ?h4 k = pushed_rf (bk_rf ?b) k" if "sp \<noteq> 0" "k < 14" for k
    using kept stack3 that by (simp add: ctx_kept_def)
  have lists: "live_list gic ?h4 i = bk_list ?b i" if "i < 64" for i
    using live.restore_cells_view [of gic ?h3 64 i "bk_list ?b"] ok3 that
    by (simp add: guest_restore_list_def ctx_ok_def)
  have banked: "banked ?h4 = banked_rf (bk_rf ?b)"
    by (simp add: restore_list_frame guest_restore_gic2_vcpu_if_def
        dev_gic2_vcpu_if_write_ctlr_def guest_restore_cp15_def Let_def hw_simps restore_banked_def)
  have cp15: "cp15_snapshot ?h4 = bk_cp15 ?b"
    unfolding cp15_snapshot_restore [of vm ?h1, symmetric]
    by (rule cp15_snapshot_cong)
      (simp_all add: restore_list_frame guest_restore_gic2_vcpu_if_def
        dev_gic2_vcpu_if_write_ctlr_def hw_simps)
  show ?thesis
  proof (rule that [OF r])
    show "dev ?h5 = dev h" by (simp add: hw_simps restore_list_frame dev3)
    show "ctx_live gic vc sp (?b\<lparr>bk_cp15 := (bk_cp15 ?b)\<lparr>vttbr_lpae :=
        set_field64 (vttbr_lpae (bk_cp15 ?b)) 55 48 (word_of_int (guest_id vm))\<rparr>\<rparr>) ?h5"
      using stack4 lists
      by (simp add: ctx_live_def rf_live_def hw_simps banked cp15_snapshot_vmid cp15 vcpu
          stack_reg_def live_list_def)
  qed
qed

text \<open>
  The coordinates of the system registers that a guest's backup holds. A restore writes no
  other, so that those, \<open>VBAR\<close> among them, stay as the previous guest left them.
\<close>

definition guest_cp15_coords :: "(nat \<times> nat \<times> nat \<times> nat) list" where
  "guest_cp15_coords = [(0, 2, 0, 0), (1, 0, 0, 0), (2, 0, 0, 1), (2, 0, 0, 2), (2, 0, 0, 0),
     (3, 0, 0, 0), (5, 0, 0, 0), (5, 0, 0, 1), (6, 0, 0, 0), (6, 0, 0, 2), (10, 0, 2, 0),
     (10, 0, 2, 1), (13, 0, 0, 0), (13, 0, 0, 1), (13, 0, 0, 3)]"

lemma guest_restore_cp15_other:
  "c \<notin> set guest_cp15_coords \<Longrightarrow> cp15 (guest_restore_cp15 vm h) c = cp15 h c"
  by (simp add: guest_cp15_coords_def guest_restore_cp15_def Let_def guest_cp15_simps hw_simps)

lemma guest_restore_other:
  assumes "guest_restore gic vc vm sp h = Inr (v, g, h')" and "c \<notin> set guest_cp15_coords"
  shows "cp15 h' c = cp15 h c"
  using assms
  by (auto simp: guest_restore_def guest_restore_rf_eq Let_def hw_simps restore_list_frame
      guest_restore_gic2_vcpu_if_def dev_gic2_vcpu_if_write_ctlr_def guest_restore_cp15_other
      restore_banked_def restore_pushed_frame split: if_splits)

lemma guest_restore_dirty:
  "dirty (bk vm) \<Longrightarrow> guest_restore gic vc vm sp h = Inl (Exit d_guest ''restore dirty backup'')"
  by (simp add: guest_restore_def)

end
