(* ===== verification/Scheduler.thy ===== *)
theory Scheduler
  imports Guest_Rpb Guest_Context
begin

text \<open>
  vmm/scheduler.c and vmm/idle_thread.c: round robin over the four guests. The scheduler
  either returns, after which the trap handler resumes the guest it restored, or enters
  the idle thread, which spins until an interrupt and never returns.
\<close>

section \<open>The code\<close>

datatype flow = Resume | Idle_Thread

definition scheduler_is_idle :: "meteor \<Rightarrow> bool" where
  "scheduler_is_idle s = scheduler_idle s"

definition scheduler_enter_idle :: "meteor \<Rightarrow> meteor" where
  "scheduler_enter_idle s = s\<lparr>scheduler_idle := True\<rparr>"

definition scheduler_leave_idle :: "meteor \<Rightarrow> meteor" where
  "scheduler_leave_idle s = s\<lparr>scheduler_idle := False\<rparr>"

text \<open>30 ms at 40 MHz: \<open>(uint32_t)(30.0 / 0.000025)\<close>.\<close>

definition vm_switch_ms :: u32 where "vm_switch_ms = 1200000"

definition scheduler_reset_timer :: "meteor \<Rightarrow> meteor" where
  "scheduler_reset_timer s = s\<lparr>hw := dev_timer_set_load (sys_timer s) 0 vm_switch_ms (hw s)\<rparr>"

text \<open>\<open>guest_suspend(&vm[i], sp)\<close> and \<open>guest_restore(&vm[i], sp)\<close> on the global state.\<close>

definition suspend_vm :: "int \<Rightarrow> u32 \<Rightarrow> meteor \<Rightarrow> meteor res" where
  "suspend_vm i sp s =
     bindR (guest_suspend (sys_gic_vctrl s) (sys_gic_vcpu_if s) (vm s i) sp (hw s))
       (\<lambda>(g, h). Inr (upd_vm i (\<lambda>_. g) (s\<lparr>hw := h\<rparr>)))"

definition restore_vm :: "int \<Rightarrow> u32 \<Rightarrow> meteor \<Rightarrow> meteor res" where
  "restore_vm i sp s =
     bindR (guest_restore (sys_gic_vctrl s) (sys_gic_vcpu_if s) (vm s i) sp (hw s))
       (\<lambda>(v, g, h). Inr (upd_vm i (\<lambda>_. g) (s\<lparr>hw := h, vm_id := v\<rparr>)))"

text \<open>The body of the branch that switches to the guest \<open>next\<close>.\<close>

definition scheduler_switch :: "u32 \<Rightarrow> int \<Rightarrow> int \<Rightarrow> meteor \<Rightarrow> meteor res" where
  "scheduler_switch sp prev_vm_id next_vm_id s =
     (let s = (if wfi_of s next_vm_id = WFI_PendingIRQ then set_wfi next_vm_id WFI_Out s else s)
      in bindR (suspend_vm prev_vm_id sp s) (\<lambda>s.
           bindR (restore_vm next_vm_id sp s) (\<lambda>s.
             Inr (scheduler_leave_idle (scheduler_reset_timer (sys_trigger VM_SWITCH s))))))"

text \<open>The first argument counts the rounds of the loop that are left.\<close>

fun scheduler_loop :: "nat \<Rightarrow> u32 \<Rightarrow> int \<Rightarrow> int \<Rightarrow> meteor \<Rightarrow> (flow \<times> meteor) res" where
  "scheduler_loop 0 sp prev_vm_id next_vm_id s =
     bindR (suspend_vm prev_vm_id sp s) (\<lambda>s.
       Inr (Idle_Thread, scheduler_enter_idle (scheduler_reset_timer s)))"
| "scheduler_loop (Suc n) sp prev_vm_id next_vm_id s =
     (let next_vm_id = next_vm_id + 1;
          next_vm_id = (if next_vm_id = vm_count then 0 else next_vm_id);
          vm_valid = valid (vm s next_vm_id);
          not_in_wfi = (wfi_of s next_vm_id \<noteq> WFI_In)
      in if vm_valid \<and> not_in_wfi
         then bindR (scheduler_switch sp prev_vm_id next_vm_id s) (\<lambda>s. Inr (Resume, s))
         else scheduler_loop n sp prev_vm_id next_vm_id s)"

definition scheduler_rr :: "u32 \<Rightarrow> meteor \<Rightarrow> (flow \<times> meteor) res" where
  "scheduler_rr sp s = scheduler_loop (nat vm_count) sp (vm_id s) (vm_id s) s"

definition scheduler :: "u32 \<Rightarrow> meteor \<Rightarrow> (flow \<times> meteor) res" where
  "scheduler sp s = scheduler_rr sp s"

end
