(* ===== verification/Exception_Handler.thy ===== *)
theory Exception_Handler
  imports Scheduler
begin

text \<open>
  vmm/exception_handler.c and vmm/hypervisor_call.c: what runs when a guest traps to the
  hypervisor or an interrupt arrives. \<open>sp\<close> is the address above the pushed registers.
\<close>

section \<open>Hypervisor calls\<close>

definition hypervisor_call :: "int \<Rightarrow> u32 \<Rightarrow> meteor \<Rightarrow> meteor" where
  "hypervisor_call i imm16 s =
     (let s = s\<lparr>hw := rf_elr_hyp_write (rf_elr_hyp_read (hw s) - 4) (hw s)\<rparr>
      in if imm16 = 0x1 then upd_vm i (\<lambda>g. g\<lparr>mon := monitor_print (mon g)\<rparr>) s
         else if imm16 = 0x2 then s\<lparr>sys_monitor := monitor_print (sys_monitor s)\<rparr>
         else if imm16 = 0x3
         then upd_vm i (\<lambda>g. g\<lparr>mon := monitor_print (mon g)\<rparr>)
                (s\<lparr>sys_monitor := monitor_print (sys_monitor s)\<rparr>)
         else s)"

section \<open>The handlers\<close>

definition und_handler :: "meteor \<Rightarrow> (flow \<times> meteor) res" where
  "und_handler s = Inl (Exit d_exception_handler ''hypervisor und exception'')"

definition svc_handler :: "meteor \<Rightarrow> (flow \<times> meteor) res" where
  "svc_handler s = Inl (Exit d_exception_handler ''hypervisor svc exception'')"

definition pabort_handler :: "meteor \<Rightarrow> (flow \<times> meteor) res" where
  "pabort_handler s = Inl (Exit d_exception_handler ''hypervisor pabort'')"

definition dabort_handler :: "meteor \<Rightarrow> (flow \<times> meteor) res" where
  "dabort_handler s = Inl (Exit d_exception_handler ''hypervisor dabort'')"

definition fiq_handler :: "meteor \<Rightarrow> (flow \<times> meteor) res" where
  "fiq_handler s = Inl (Exit d_exception_handler ''hypervisor fiq handler'')"

definition resume :: "meteor res \<Rightarrow> (flow \<times> meteor) res" where
  "resume r = bindR r (\<lambda>s. Inr (Resume, s))"

text \<open>The cases 3 and 4 (cp15) fall through to case 5 (cp14), which does nothing.\<close>

definition hyp_trap_handler :: "u32 \<Rightarrow> meteor \<Rightarrow> (flow \<times> meteor) res" where
  "hyp_trap_handler sp s =
     (let s = s\<lparr>hw := rf_elr_hyp_write (rf_elr_hyp_read (hw s) + 4) (hw s)\<rparr>;
          hsr = cp15_read HSR (hw s);
          ec = get_field hsr 31 26;
          il = get_bit hsr 25;
          iss = get_field hsr 24 0;
          i = vm_id s
      in if guest_kind (vm s i) = Realview_PB then
           if ec = 0x01 then
             if get_bit iss 0 = 0
             then scheduler sp (set_wfi i WFI_In (vm_trigger i TRAP_WFI s))
             else Inl (Exit d_exception_handler ''hyp_trap wfe'')
           else if ec = 0x3 \<or> ec = 0x4 then
             resume (Inr (guest_rpb_cp15_trap i sp iss (vm_trigger i TRAP_CP15 (sys_trigger TRAP_WFI s))))
           else if ec = 0x5 then Inr (Resume, s)
           else if ec = 0x12 then resume (Inr (hypervisor_call i (iss AND mask32 15 0) s))
           else if ec = 0x24 then resume (guest_rpb_hyp_trap_dabort_handler i sp iss s)
           else if ec = 0x25 then Inl (Exit d_exception_handler ''hyp_trap dabort taken'')
           else Inl (Exit d_exception_handler ''hyp_trap error, ec=0x%X'')
         else Inl (Exit d_exception_handler ''hypervisor hyp trap exception wrong vm type''))"

text \<open>Which guest a physical interrupt is for, the \<open>switch (pid)\<close> of \<open>irq_handler\<close>.\<close>

definition irq_target :: "int \<Rightarrow> int option" where
  "irq_target pid =
     (if pid = 40 \<or> pid = 44 \<or> pid = 48 then Some 0
      else if pid = 41 \<or> pid = 45 \<or> pid = 49 then Some 1
      else if pid = 42 \<or> pid = 46 \<or> pid = 50 then Some 2
      else if pid = 43 \<or> pid = 47 \<or> pid = 51 then Some 3
      else None)"

text \<open>The part of \<open>irq_handler\<close> after the switch: delivering to the guest \<open>t\<close>.\<close>

definition irq_deliver :: "u32 \<Rightarrow> int \<Rightarrow> int \<Rightarrow> meteor \<Rightarrow> (flow \<times> meteor) res" where
  "irq_deliver sp pid t s =
     (let s = sys_trigger TRAP_IRQ s
      in if guest_kind (vm s t) = Realview_PB then
           bindR (if dirty_of s t \<and> wfi_of s t \<noteq> WFI_In
                  then guest_rpb_irq_handler t sp pid s
                  else guest_rpb_irq_handler_suspend t sp pid s)
             (\<lambda>s. let s = (if wfi_of s t = WFI_In then set_wfi t WFI_PendingIRQ s else s)
                  in if scheduler_is_idle s then scheduler sp s else Inr (Resume, s))
         else Inl (Exit d_exception_handler ''error guest type in irq_handler''))"

definition irq_handler :: "u32 \<Rightarrow> meteor \<Rightarrow> (flow \<times> meteor) res" where
  "irq_handler sp s =
     (let (ack, h) = dev_gic2_cpu_if_read_ack (sys_gic_cpu_if s) (hw s);
          pid = sint ack;
          s = s\<lparr>hw := h\<rparr>
      in if pid = 34 then
           let h = dev_timer_clear_interrupt (sys_timer s) 0 (hw s);
               h = dev_gic2_cpu_if_write_eoi (sys_gic_cpu_if s) 34 h
           in scheduler sp (s\<lparr>hw := h\<rparr>)
         else case irq_target pid of
                Some t \<Rightarrow> irq_deliver sp pid t s
              | None \<Rightarrow> if pid = 1023 then Inr (Resume, s)
                        else Inl (Exit d_exception_handler ''unknown irq %d''))"

end
