(* ===== verification/Scheduler_Inv.thy ===== *)
theory Scheduler_Inv
  imports Scheduler
begin

text \<open>
  The contract of the scheduler: it always returns, it takes the nearest guest in
  cyclic order that can run, and afterwards exactly the guest that runs has a backup out
  of date (\<open>dirty\<close>), or every guest is saved and waits for an interrupt.
\<close>

section \<open>Suspending and restoring always return\<close>

lemma guest_backup_rf_total:
  "\<exists>rf h'. guest_backup_rf g sp h = Inr (g\<lparr>bk := (bk g)\<lparr>bk_rf := rf\<rparr>\<rparr>, h')"
proof (cases "sp = 0")
  case True
  then show ?thesis using guest_backup_rf_0 by blast
next
  case False
  obtain l h1 where s: "save_cells (\<lambda>k. io_readw (stack_slot sp k)) 13 (r_usr (bk_rf (bk g)), h)
      = (l, h1)" by fastforce
  obtain lr h2 where r: "io_readw (stack_slot sp 13) h1 = (lr, h2)" by fastforce
  have "banked h1 = banked h"
    using reads_onlyD(3) [OF save_stack_reads_only [of h sp 13 "r_usr (bk_rf (bk g))"]] s by simp
  moreover have "banked h2 = banked h1"
    using reads_onlyD(3) [OF reads_only_readw [of h1 "stack_slot sp 13"]] r by simp
  ultimately show ?thesis using guest_backup_rf_pushed [OF False s r] by auto
qed

text \<open>What of a guest a suspend or a restore may change: its backup.\<close>

lemma guest_suspend_total:
  "\<exists>b h'. guest_suspend gic vc g sp h = Inr (g\<lparr>bk := b\<rparr>, h') \<and> \<not> dirty b"
proof (cases "dirty (bk g)")
  case True
  obtain rf h1 where rf: "guest_backup_rf g sp h = Inr (g\<lparr>bk := (bk g)\<lparr>bk_rf := rf\<rparr>\<rparr>, h1)"
    using guest_backup_rf_total by blast
  obtain v h2 where v: "dev_gic2_vcpu_if_read_ctlr vc h1 = (v, h2)" by fastforce
  obtain l h3 where l: "save_cells (dev_gic2_vctrl_read_list gic) 64 (bk_list (bk g), h2) = (l, h3)"
    by fastforce
  show ?thesis
    by (intro exI [of _ "(bk g)\<lparr>dirty := False, bk_rf := rf, bk_cp15 := cp15_snapshot h1,
          bk_vcpu_if := \<lparr>ctlr = v\<rparr>, bk_list := l\<rparr>"] exI [of _ h3])
      (use True in \<open>simp add: guest_suspend_def rf guest_backup_cp15_eq
        guest_backup_gic2_vcpu_if_def v guest_backup_list_def l\<close>)
next
  case False
  then show ?thesis
    by (intro exI [of _ "bk g"] exI [of _ h]) (cases "bk g", simp add: guest_suspend_clean)
qed

lemma guest_restore_total:
  "\<not> dirty (bk g) \<Longrightarrow>
     \<exists>h'. guest_restore gic vc g sp h = Inr (guest_id g, g\<lparr>bk := (bk g)\<lparr>dirty := True\<rparr>\<rparr>, h')"
  by (simp add: guest_restore_def guest_restore_rf_eq Let_def)

text \<open>
  The part of the state that says who runs. Two states with the same control part agree
  on everything the scheduler decides on.
\<close>

definition same_guest :: "guest \<Rightarrow> guest \<Rightarrow> bool" where
  "same_guest g g' \<longleftrightarrow> valid g' = valid g \<and> guest_kind g' = guest_kind g \<and> guest_id g' = guest_id g"

lemma suspend_vm_total:
  obtains b h' where "suspend_vm i sp s = Inr (upd_vm i (\<lambda>g. g\<lparr>bk := b\<rparr>) (s\<lparr>hw := h'\<rparr>))"
    and "\<not> dirty b"
proof -
  obtain b h' where "guest_suspend (sys_gic_vctrl s) (sys_gic_vcpu_if s) (vm s i) sp (hw s)
      = Inr ((vm s i)\<lparr>bk := b\<rparr>, h')" and "\<not> dirty b"
    using guest_suspend_total by blast
  then show ?thesis
    by (intro that [of b h']) (simp_all add: suspend_vm_def upd_vm_def)
qed

lemma restore_vm_total:
  assumes "\<not> dirty_of s i"
  obtains h' where "restore_vm i sp s = Inr (upd_vm i (\<lambda>g. g\<lparr>bk := (bk g)\<lparr>dirty := True\<rparr>\<rparr>)
      (s\<lparr>hw := h', vm_id := guest_id (vm s i)\<rparr>))"
proof -
  obtain h' where "guest_restore (sys_gic_vctrl s) (sys_gic_vcpu_if s) (vm s i) sp (hw s)
      = Inr (guest_id (vm s i), (vm s i)\<lparr>bk := (bk (vm s i))\<lparr>dirty := True\<rparr>\<rparr>, h')"
    using guest_restore_total [OF assms] by blast
  then show ?thesis
    by (intro that [of h']) (simp add: restore_vm_def upd_vm_def)
qed

section \<open>The guest that is taken\<close>

text \<open>The guests in the order the loop visits them.\<close>

definition can_run :: "meteor \<Rightarrow> int \<Rightarrow> bool" where
  "can_run s i \<longleftrightarrow> valid (vm s i) \<and> wfi_of s i \<noteq> WFI_In"

definition next_guest :: "meteor \<Rightarrow> int option" where
  "next_guest s = find (can_run s) (map (\<lambda>k. (vm_id s + k) mod vm_count) [1, 2, 3, 4])"

lemma scheduler_rr_cases:
  assumes "0 \<le> vm_id s" and "vm_id s < 4"
  shows "scheduler sp s = (case next_guest s of
     Some j \<Rightarrow> bindR (scheduler_switch sp (vm_id s) j s) (\<lambda>s. Inr (Resume, s))
   | None \<Rightarrow> bindR (suspend_vm (vm_id s) sp s) (\<lambda>s.
       Inr (Idle_Thread, scheduler_enter_idle (scheduler_reset_timer s))))"
proof -
  have n: "nat vm_count = Suc (Suc (Suc (Suc 0)))" by (simp add: vm_count_def)
  have "vm_id s = 0 \<or> vm_id s = 1 \<or> vm_id s = 2 \<or> vm_id s = 3" using assms by linarith
  then show ?thesis
    unfolding scheduler_def scheduler_rr_def n
    by (elim disjE) (simp_all add: next_guest_def can_run_def vm_count_def Let_def)
qed

lemma four_ids: "0 \<le> i \<and> i < 4 \<longleftrightarrow> i = 0 \<or> i = 1 \<or> i = 2 \<or> i = (3 :: int)"
  by linarith

lemma next_guest_range:
  assumes "next_guest s = Some j"
  shows "0 \<le> j \<and> j < 4 \<and> can_run s j"
proof -
  have "can_run s j" and "j \<in> set (map (\<lambda>k. (vm_id s + k) mod vm_count) [1, 2, 3, 4])"
    using assms unfolding next_guest_def by (auto simp only: find_Some_iff intro: nth_mem)
  then show ?thesis by (auto simp: vm_count_def)
qed

lemma next_guest_None:
  assumes "0 \<le> vm_id s" and "vm_id s < 4"
  shows "next_guest s = None \<longleftrightarrow> (\<forall>i. 0 \<le> i \<and> i < 4 \<longrightarrow> \<not> can_run s i)"
proof -
  have four: "(\<forall>i. 0 \<le> i \<and> i < 4 \<longrightarrow> P i) \<longleftrightarrow> P 0 \<and> P 1 \<and> P 2 \<and> P (3 :: int)" for P
    unfolding four_ids by auto
  have "vm_id s = 0 \<or> vm_id s = 1 \<or> vm_id s = 2 \<or> vm_id s = 3" using assms by linarith
  then show ?thesis
    unfolding four by (elim disjE) (auto simp: next_guest_def vm_count_def)
qed

text \<open>How far a guest is from the one that runs, a full turn for that one itself.\<close>

definition turns :: "meteor \<Rightarrow> int \<Rightarrow> int" where
  "turns s j = (j - vm_id s - 1) mod vm_count"

lemma next_guest_nearest:
  assumes "0 \<le> vm_id s" and "vm_id s < 4" and "0 \<le> j" and "j < 4" and "can_run s j"
  shows "\<exists>n. next_guest s = Some n \<and> turns s n \<le> turns s j"
proof -
  have "vm_id s = 0 \<or> vm_id s = 1 \<or> vm_id s = 2 \<or> vm_id s = 3" using assms by linarith
  moreover have "j = 0 \<or> j = 1 \<or> j = 2 \<or> j = 3" using assms by linarith
  ultimately show ?thesis
    using assms(5) by (elim disjE) (auto simp: next_guest_def turns_def vm_count_def)
qed

section \<open>The invariant\<close>

definition guests_ok :: "meteor \<Rightarrow> bool" where
  "guests_ok s \<longleftrightarrow> (\<forall>i. 0 \<le> i \<and> i < 4 \<longrightarrow>
     valid (vm s i) \<and> guest_kind (vm s i) = Realview_PB \<and> guest_id (vm s i) = i)"

text \<open>When the scheduler is called the guest that ran may be saved already or not.\<close>

definition sched_pre :: "meteor \<Rightarrow> bool" where
  "sched_pre s \<longleftrightarrow> 0 \<le> vm_id s \<and> vm_id s < 4 \<and> guests_ok s
     \<and> (\<forall>i. 0 \<le> i \<and> i < 4 \<and> i \<noteq> vm_id s \<longrightarrow> \<not> dirty_of s i)"

text \<open>
  Between traps: a guest runs, and it is the only one whose backup is out of date, or the
  hypervisor is idle, and every guest is saved and waits for an interrupt.
\<close>

definition run_inv :: "meteor \<Rightarrow> bool" where
  "run_inv s \<longleftrightarrow> sched_pre s
     \<and> (if scheduler_idle s
        then \<not> dirty_of s (vm_id s) \<and> (\<forall>i. 0 \<le> i \<and> i < 4 \<longrightarrow> wfi_of s i = WFI_In)
        else dirty_of s (vm_id s) \<and> wfi_of s (vm_id s) = WFI_Out)"

lemma sched_pre_vm_id: "sched_pre s \<Longrightarrow> 0 \<le> vm_id s \<and> vm_id s < 4"
  by (simp add: sched_pre_def)

lemma run_inv_pre: "run_inv s \<Longrightarrow> sched_pre s"
  by (simp add: run_inv_def)

lemma scheduler_simps [simp]:
  "vm (scheduler_reset_timer s) = vm s" "vm_id (scheduler_reset_timer s) = vm_id s"
  "scheduler_idle (scheduler_reset_timer s) = scheduler_idle s"
  "vm (scheduler_enter_idle s) = vm s" "vm_id (scheduler_enter_idle s) = vm_id s"
  "scheduler_idle (scheduler_enter_idle s) = True"
  "vm (scheduler_leave_idle s) = vm s" "vm_id (scheduler_leave_idle s) = vm_id s"
  "scheduler_idle (scheduler_leave_idle s) = False"
  by (simp_all add: scheduler_reset_timer_def scheduler_enter_idle_def scheduler_leave_idle_def)

text \<open>What the scheduler does when no guest can run, and when \<open>j\<close> is the next that can.\<close>

lemma scheduler_none:
  assumes pre: "sched_pre s" and none: "next_guest s = None"
  obtains s' where "scheduler sp s = Inr (Idle_Thread, s')" and "run_inv s'" and "scheduler_idle s'"
    and "vm_id s' = vm_id s"
proof -
  obtain b h' where sus: "suspend_vm (vm_id s) sp s
      = Inr (upd_vm (vm_id s) (\<lambda>g. g\<lparr>bk := b\<rparr>) (s\<lparr>hw := h'\<rparr>))" and "\<not> dirty b"
    by (rule suspend_vm_total)
  let ?s' = "scheduler_enter_idle (scheduler_reset_timer
    (upd_vm (vm_id s) (\<lambda>g. g\<lparr>bk := b\<rparr>) (s\<lparr>hw := h'\<rparr>)))"
  have "scheduler sp s = Inr (Idle_Thread, ?s')"
    using sched_pre_vm_id [OF pre] by (simp add: scheduler_rr_cases none sus)
  moreover have "\<forall>i. 0 \<le> i \<and> i < 4 \<longrightarrow> \<not> can_run s i"
    using sched_pre_vm_id [OF pre] none next_guest_None by simp
  then have "run_inv ?s'"
    using pre \<open>\<not> dirty b\<close> by (auto simp: run_inv_def sched_pre_def guests_ok_def can_run_def)
  ultimately show ?thesis by (rule that) simp_all
qed

lemma scheduler_some:
  assumes pre: "sched_pre s" and j: "next_guest s = Some j"
  obtains s' where "scheduler sp s = Inr (Resume, s')" and "run_inv s'" and "\<not> scheduler_idle s'"
    and "vm_id s' = j" and "\<And>i. i \<noteq> j \<Longrightarrow> wfi_of s' i = wfi_of s i"
    and "\<And>i. can_run s i \<Longrightarrow> can_run s' i"
proof -
  note r = next_guest_range [OF j]
  define s0 where "s0 = (if wfi_of s j = WFI_PendingIRQ then set_wfi j WFI_Out s else s)"
  have s0: "vm_id s0 = vm_id s" "valid (vm s0 i) = valid (vm s i)"
    "guest_kind (vm s0 i) = guest_kind (vm s i)" "guest_id (vm s0 i) = guest_id (vm s i)"
    "bk (vm s0 i) = bk (vm s i)" "wfi_of s0 j = WFI_Out" "i \<noteq> j \<Longrightarrow> wfi_of s0 i = wfi_of s i" for i
    using r by (auto simp: s0_def set_wfi_def can_run_def) (cases "wfi_of s j"; simp)
  obtain b h1 where sus: "suspend_vm (vm_id s) sp s0
      = Inr (upd_vm (vm_id s) (\<lambda>g. g\<lparr>bk := b\<rparr>) (s0\<lparr>hw := h1\<rparr>))" and b: "\<not> dirty b"
    by (rule suspend_vm_total)
  define s1 where "s1 = upd_vm (vm_id s) (\<lambda>g. g\<lparr>bk := b\<rparr>) (s0\<lparr>hw := h1\<rparr>)"
  have clean: "\<not> dirty_of s1 j"
    using pre b r s0 by (simp add: sched_pre_def s1_def)
  obtain h2 where res: "restore_vm j sp s1 = Inr (upd_vm j (\<lambda>g. g\<lparr>bk := (bk g)\<lparr>dirty := True\<rparr>\<rparr>)
      (s1\<lparr>hw := h2, vm_id := guest_id (vm s1 j)\<rparr>))"
    using restore_vm_total [OF clean] by blast
  define s2 where "s2 = upd_vm j (\<lambda>g. g\<lparr>bk := (bk g)\<lparr>dirty := True\<rparr>\<rparr>)
      (s1\<lparr>hw := h2, vm_id := guest_id (vm s1 j)\<rparr>)"
  define t where "t = scheduler_leave_idle (scheduler_reset_timer (sys_trigger VM_SWITCH s2))"
  have "guest_id (vm s1 j) = j"
    using pre r s0 by (simp add: sched_pre_def guests_ok_def s1_def)
  then have id': "vm_id t = j" by (simp add: t_def s2_def)
  have "scheduler sp s = Inr (Resume, t)"
    using sched_pre_vm_id [OF pre] sus res
    by (simp add: scheduler_rr_cases j scheduler_switch_def t_def s2_def s1_def
        flip: s0_def)
  moreover have "run_inv t"
    unfolding run_inv_def sched_pre_def id'
    using pre b r s0 by (auto simp: sched_pre_def guests_ok_def t_def s2_def s1_def)
  moreover have "wfi_of t i = wfi_of s i" if "i \<noteq> j" for i
    using s0 that by (simp add: t_def s2_def s1_def)
  moreover have "can_run t i" if "can_run s i" for i
    using s0 that by (cases "i = j") (auto simp: can_run_def t_def s2_def s1_def)
  moreover have "\<not> scheduler_idle t" by (simp add: t_def)
  ultimately show ?thesis using id' by (intro that [of t]) auto
qed

lemma scheduler_total:
  assumes "sched_pre s"
  shows "\<exists>fl s'. scheduler sp s = Inr (fl, s') \<and> run_inv s' \<and> (fl = Idle_Thread \<longleftrightarrow> scheduler_idle s')"
proof (cases "next_guest s")
  case None
  from scheduler_none [OF assms this, of sp] show ?thesis by metis
next
  case (Some j)
  from scheduler_some [OF assms this, of sp] show ?thesis by (metis flow.distinct(1))
qed

section \<open>Round robin\<close>

text \<open>Each turn brings a guest that can run nearer, until it runs.\<close>

lemma scheduler_progress:
  assumes pre: "sched_pre s" and j: "0 \<le> j" "j < 4" "can_run s j"
  obtains s' where "scheduler sp s = Inr (Resume, s')" and "run_inv s'" and "can_run s' j"
    and "vm_id s' = j \<or> turns s' j < turns s j"
proof -
  obtain n where n: "next_guest s = Some n" and le: "turns s n \<le> turns s j"
    using next_guest_nearest [OF _ _ j] sched_pre_vm_id [OF pre] by blast
  obtain s' where s': "scheduler sp s = Inr (Resume, s')" "run_inv s'" "vm_id s' = n"
      "\<And>i. can_run s i \<Longrightarrow> can_run s' i"
    using scheduler_some [OF pre n, of sp] by metis
  have v: "vm_id s = 0 \<or> vm_id s = 1 \<or> vm_id s = 2 \<or> vm_id s = 3"
    using sched_pre_vm_id [OF pre] by linarith
  have jv: "j = 0 \<or> j = 1 \<or> j = 2 \<or> j = 3" using j by linarith
  have nv: "n = 0 \<or> n = 1 \<or> n = 2 \<or> n = 3" using next_guest_range [OF n] by linarith
  have "n = j \<or> turns s' j < turns s j"
    using v jv nv le unfolding turns_def s'(3) vm_count_def by (elim disjE) simp_all
  with s' j show ?thesis by (intro that [of s']) auto
qed

text \<open>The states after each of a number of timer interrupts in a row.\<close>

fun ticks :: "u32 list \<Rightarrow> meteor \<Rightarrow> meteor list res" where
  "ticks [] s = Inr []"
| "ticks (sp # sps) s = bindR (scheduler sp s) (\<lambda>(_, s). bindR (ticks sps s) (\<lambda>ss. Inr (s # ss)))"

lemma ticks_total: "sched_pre s \<Longrightarrow> \<exists>ss. ticks sps s = Inr ss"
proof (induction sps arbitrary: s)
  case (Cons sp sps)
  obtain fl s' where s': "scheduler sp s = Inr (fl, s')" "run_inv s'"
    using scheduler_total [OF Cons.prems] by blast
  obtain ss where "ticks sps s' = Inr ss" using Cons.IH [OF run_inv_pre [OF s'(2)]] by blast
  with s' show ?case by simp
qed simp

lemma ticks_reach:
  assumes "sched_pre s" and "0 \<le> j" "j < 4" "can_run s j" and "turns s j < int (length sps)"
  shows "\<exists>ss. ticks sps s = Inr ss \<and> (\<exists>t \<in> set ss. vm_id t = j)"
  using assms
proof (induction sps arbitrary: s)
  case Nil
  then show ?case by (simp add: turns_def vm_count_def)
next
  case (Cons sp sps)
  obtain s' where s': "scheduler sp s = Inr (Resume, s')" "run_inv s'" "can_run s' j"
      "vm_id s' = j \<or> turns s' j < turns s j"
    by (rule scheduler_progress [OF Cons.prems(1-4), of sp])
  note pre = run_inv_pre [OF s'(2)]
  show ?case
  proof (cases "vm_id s' = j")
    case True
    with s'(1) ticks_total [OF pre, of sps] show ?thesis by auto
  next
    case False
    with s'(4) Cons.prems have "turns s' j < int (length sps)" by simp
    from Cons.IH [OF pre Cons.prems(2,3) s'(3) this] s'(1) show ?thesis by auto
  qed
qed

end
