(* ===== verification/Handler_Inv.thy ===== *)
theory Handler_Inv
  imports Exception_Handler Scheduler_Inv
begin

text \<open>
  Every handler that returns keeps the invariant of the scheduler, whatever the guest did
  to the machine in between; so it holds in every reachable state.
\<close>

section \<open>Handlers that leave the scheduling alone\<close>

text \<open>Two states in which the same guest runs and the same guests are saved.\<close>

definition same_control :: "meteor \<Rightarrow> meteor \<Rightarrow> bool" where
  "same_control s s' \<longleftrightarrow> vm_id s' = vm_id s \<and> scheduler_idle s' = scheduler_idle s
     \<and> (\<forall>i. valid (vm s' i) = valid (vm s i) \<and> guest_kind (vm s' i) = guest_kind (vm s i)
          \<and> guest_id (vm s' i) = guest_id (vm s i) \<and> wfi_of s' i = wfi_of s i
          \<and> dirty_of s' i = dirty_of s i)"

lemma same_control_refl [simp, inv_intros]: "same_control s s"
  by (simp add: same_control_def)

lemma same_control_trans: "same_control s t \<Longrightarrow> same_control t u \<Longrightarrow> same_control s u"
  by (simp add: same_control_def)

lemma same_control_pre: "same_control s s' \<Longrightarrow> sched_pre s' = sched_pre s"
  by (simp add: same_control_def sched_pre_def guests_ok_def)

lemma same_control_inv: "same_control s s' \<Longrightarrow> run_inv s' = run_inv s"
  using same_control_pre [of s s'] by (simp add: same_control_def run_inv_def)

lemma same_control_hw [simp, inv_intros]: "same_control s (s\<lparr>hw := h\<rparr>)"
  by (simp add: same_control_def)

lemma same_control_vm:
  assumes "valid g = valid (vm s i)" "guest_kind g = guest_kind (vm s i)"
    "guest_id g = guest_id (vm s i)" "sched g = sched (vm s i)"
    "dirty (bk g) = dirty_of s i"
  shows "same_control s (upd_vm i (\<lambda>_. g) s)"
  using assms by (simp add: same_control_def)

lemma same_control_trigger [inv_intros]:
  "same_control s (vm_trigger i e s)" "same_control s (sys_trigger e s)"
  by (simp_all add: same_control_def vm_trigger_def)

lemma search_guest:
  "memory_allocator_search n me li g ipa high_ipa h = Inr (pa, me', li', g', h') \<Longrightarrow>
     \<exists>p. g' = g\<lparr>pt := p\<rparr>"
proof (induction n arbitrary: li)
  case (Suc n)
  show ?case
  proof (cases "target_vm me (if li + 1 \<ge> PAGE_COUNT then 0 else li + 1) = -1")
    case True
    with Suc.prems have "memory_allocator_take me g ipa high_ipa
        (if li + 1 \<ge> PAGE_COUNT then 0 else li + 1) h = (pa, me', g', h')"
      by (auto simp: Let_def split: prod.splits)
    from take_simps(7) [OF this] show ?thesis by blast
  next
    case False
    with Suc show ?thesis by (simp add: Let_def split: if_splits)
  qed
qed simp

lemma dabort_new_page_control:
  "dabort_new_page i ipa high_ipa s = Inr s' \<Longrightarrow> same_control s s'"
proof -
  assume "dabort_new_page i ipa high_ipa s = Inr s'"
  then obtain pa me li g h where
    n: "memory_allocator_new_page (sys_mem_allocator s) (last_i s) (vm (vm_trigger i ALLOCATE_PAGE s) i)
          ipa high_ipa (hw s) = Inr (pa, me, li, g, h)"
    and s': "s' = (upd_vm i (\<lambda>_. g) (vm_trigger i ALLOCATE_PAGE s))\<lparr>sys_mem_allocator := me,
          last_i := li, hw := rf_elr_hyp_write (rf_elr_hyp_read h - 4) h\<rparr>"
    by (auto simp: dabort_new_page_def Let_def bindR_eq_Inr vm_trigger_def)
  from n obtain p where g: "g = (vm (vm_trigger i ALLOCATE_PAGE s) i)\<lparr>pt := p\<rparr>"
    unfolding memory_allocator_new_page_def by (auto dest: search_guest)
  show "same_control s s'" unfolding s' g by (simp add: same_control_def vm_trigger_def)
qed

lemma dabort_load_control: "dabort_load sp rt rd s = Inr s' \<Longrightarrow> same_control s s'"
  by (auto simp: dabort_load_def bindR_eq_Inr)

lemma dabort_store_control:
  assumes "dabort_store i sp rt wr s = Inr s'"
    and "\<And>v g h g' h'. wr v g h = Inr (g', h') \<Longrightarrow> valid g' = valid g \<and> guest_kind g' = guest_kind g
      \<and> guest_id g' = guest_id g \<and> sched g' = sched g \<and> bk g' = bk g"
  shows "same_control s s'"
proof -
  from assms(1) obtain v h1 g h where "wr v (vm s i) h1 = Inr (g, h)"
    and s': "s' = upd_vm i (\<lambda>_. g) (s\<lparr>hw := h\<rparr>)"
    by (auto simp: dabort_store_def bindR_eq_Inr)
  from assms(2) [OF this(1)] show ?thesis unfolding s' by (simp add: same_control_def)
qed

lemma dabort_vdev_control:
  assumes "dabort_vdev i sp base offset is_load rt s = Inr s'"
  shows "same_control s s'"
  using assms unfolding dabort_vdev_def
  by (auto split: if_splits intro!: dabort_load_control elim!: dabort_store_control
      simp: vdev_rpb_sysreg_write_def bindR_eq_Inr)

lemma dabort_control:
  assumes "guest_rpb_hyp_trap_dabort_handler i sp iss s = Inr s'"
  shows "same_control s s'"
  using assms unfolding guest_rpb_hyp_trap_dabort_handler_def Let_def
  by (auto split: if_splits simp: bindR_eq_Inr intro: dabort_new_page_control
      same_control_trans [OF same_control_trigger(1) dabort_vdev_control])

lemma hypervisor_call_control: "same_control s (hypervisor_call i imm16 s)"
  by (simp add: hypervisor_call_def Let_def same_control_def)

section \<open>Delivering an interrupt\<close>

lemma irq_live_control:
  "guest_rpb_irq_handler i sp pid s = Inr s' \<Longrightarrow> same_control s s'"
  by (auto simp: guest_rpb_irq_handler_def Let_def same_control_def vm_trigger_def
      split: if_splits option.splits)

lemma irq_suspend_control:
  "guest_rpb_irq_handler_suspend i sp pid s = Inr s' \<Longrightarrow> same_control s s'"
  by (auto simp: guest_rpb_irq_handler_suspend_def Let_def same_control_def
      split: if_splits option.splits)

text \<open>The part of \<open>irq_deliver\<close> that injects the interrupt and marks the guest pending.\<close>

definition irq_inject :: "u32 \<Rightarrow> int \<Rightarrow> int \<Rightarrow> meteor \<Rightarrow> meteor res" where
  "irq_inject sp pid t s =
     bindR (if dirty_of s t \<and> wfi_of s t \<noteq> WFI_In then guest_rpb_irq_handler t sp pid s
            else guest_rpb_irq_handler_suspend t sp pid s)
       (\<lambda>s. Inr (if wfi_of s t = WFI_In then set_wfi t WFI_PendingIRQ s else s))"

lemma irq_deliver_eq:
  "guest_kind (vm s t) = Realview_PB \<Longrightarrow> irq_deliver sp pid t s =
     bindR (irq_inject sp pid t (sys_trigger TRAP_IRQ s))
       (\<lambda>s. if scheduler_is_idle s then scheduler sp s else Inr (Resume, s))"
  by (simp add: irq_deliver_def irq_inject_def Let_def bindR_assoc)

lemma irq_inject_effect:
  assumes "irq_inject sp pid t s = Inr s'"
  shows "vm_id s' = vm_id s" "scheduler_idle s' = scheduler_idle s"
    "valid (vm s' i) = valid (vm s i)" "guest_kind (vm s' i) = guest_kind (vm s i)"
    "guest_id (vm s' i) = guest_id (vm s i)" "dirty_of s' i = dirty_of s i"
    "wfi_of s' i = (if i = t \<and> wfi_of s t = WFI_In then WFI_PendingIRQ else wfi_of s i)"
proof -
  from assms obtain u where u: "same_control s u"
    and s': "s' = (if wfi_of u t = WFI_In then set_wfi t WFI_PendingIRQ u else u)"
    unfolding irq_inject_def
    by (auto simp: bindR_eq_Inr split: if_splits dest: irq_live_control irq_suspend_control)
  show "vm_id s' = vm_id s" "scheduler_idle s' = scheduler_idle s"
    "valid (vm s' i) = valid (vm s i)" "guest_kind (vm s' i) = guest_kind (vm s i)"
    "guest_id (vm s' i) = guest_id (vm s i)" "dirty_of s' i = dirty_of s i"
    "wfi_of s' i = (if i = t \<and> wfi_of s t = WFI_In then WFI_PendingIRQ else wfi_of s i)"
    using u unfolding s' by (auto simp: same_control_def set_wfi_def)
qed

lemma irq_inject_pre: "irq_inject sp pid t s = Inr s' \<Longrightarrow> sched_pre s \<Longrightarrow> sched_pre s'"
  by (simp add: sched_pre_def guests_ok_def irq_inject_effect)

lemma irq_target_range: "irq_target pid = Some t \<Longrightarrow> 0 \<le> t \<and> t < 4"
  by (auto simp: irq_target_def split: if_splits)

text \<open>While a guest runs the scheduler is not called, and the guest goes on running.\<close>

lemma irq_deliver_running:
  assumes inv: "run_inv s" and run: "\<not> scheduler_idle s" and t: "0 \<le> t" "t < 4"
    and d: "irq_deliver sp pid t s = Inr (fl, s')"
  shows "fl = Resume \<and> run_inv s' \<and> vm_id s' = vm_id s \<and> \<not> scheduler_idle s'
    \<and> wfi_of s' t \<noteq> WFI_In"
proof -
  have kind: "guest_kind (vm s t) = Realview_PB"
    using inv t by (simp add: run_inv_def sched_pre_def guests_ok_def)
  from d obtain u where u: "irq_inject sp pid t (sys_trigger TRAP_IRQ s) = Inr u"
    and fl: "(if scheduler_is_idle u then scheduler sp u else Inr (Resume, u)) = Inr (fl, s')"
    unfolding irq_deliver_eq [OF kind] by (auto simp: bindR_eq_Inr)
  note e = irq_inject_effect [OF u]
  have "s' = u" "fl = Resume" using fl run e(2) by (auto simp: scheduler_is_idle_def)
  moreover have "sched_pre u"
    using irq_inject_pre [OF u] run_inv_pre [OF inv]
      same_control_pre [OF same_control_trigger(2) [of s TRAP_IRQ]] by simp
  ultimately show ?thesis
    using inv run e by (auto simp: run_inv_def)
qed

text \<open>While the hypervisor is idle an interrupt wakes its guest, which then runs.\<close>

lemma irq_deliver_idle:
  assumes inv: "run_inv s" and idle: "scheduler_idle s" and t: "0 \<le> t" "t < 4"
    and d: "irq_deliver sp pid t s = Inr (fl, s')"
  shows "fl = Resume \<and> run_inv s' \<and> vm_id s' = t \<and> \<not> scheduler_idle s'"
proof -
  have kind: "guest_kind (vm s t) = Realview_PB"
    using inv t by (simp add: run_inv_def sched_pre_def guests_ok_def)
  from d obtain u where u: "irq_inject sp pid t (sys_trigger TRAP_IRQ s) = Inr u"
    and fl: "(if scheduler_is_idle u then scheduler sp u else Inr (Resume, u)) = Inr (fl, s')"
    unfolding irq_deliver_eq [OF kind] by (auto simp: bindR_eq_Inr)
  note e = irq_inject_effect [OF u]
  have all_in: "wfi_of s i = WFI_In" if "0 \<le> i" "i < 4" for i
    using inv idle that by (simp add: run_inv_def)
  have pre: "sched_pre u"
    using irq_inject_pre [OF u] run_inv_pre [OF inv]
      same_control_pre [OF same_control_trigger(2) [of s TRAP_IRQ]] by simp
  then have "valid (vm u t)" using t by (simp add: sched_pre_def guests_ok_def)
  then have "can_run u t" and only: "\<And>i. 0 \<le> i \<Longrightarrow> i < 4 \<Longrightarrow> can_run u i \<Longrightarrow> i = t"
    using e(7) all_in t by (auto simp: can_run_def split: if_splits)
  then obtain j where j: "next_guest u = Some j"
    using next_guest_nearest [of u t] t sched_pre_vm_id [OF pre] by blast
  then have "j = t" using only next_guest_range by blast
  moreover obtain w where "scheduler sp u = Inr (Resume, w)" "run_inv w" "vm_id w = j"
      "\<not> scheduler_idle w"
    using scheduler_some [OF pre j, of sp] by metis
  ultimately show ?thesis using fl e(2) idle by (simp add: scheduler_is_idle_def)
qed

section \<open>The handlers keep the invariant\<close>

lemma hyp_trap_inv:
  assumes inv: "run_inv s" and run: "\<not> scheduler_idle s" and h: "hyp_trap_handler sp s = Inr (fl, s')"
  shows "run_inv s' \<and> (fl = Idle_Thread \<longleftrightarrow> scheduler_idle s')"
proof -
  define s1 where "s1 = s\<lparr>hw := rf_elr_hyp_write (rf_elr_hyp_read (hw s) + 4) (hw s)\<rparr>"
  define ec where "ec = get_field (cp15_read HSR (hw s1)) 31 26"
  define iss where "iss = get_field (cp15_read HSR (hw s1)) 24 0"
  have c1: "same_control s s1" by (simp add: s1_def)
  have v: "vm_id s1 = vm_id s" by (simp add: s1_def)
  have keep: "run_inv s' \<and> (fl = Idle_Thread \<longleftrightarrow> scheduler_idle s')"
    if "same_control s1 s'" "fl = Resume"
    using that inv run same_control_inv [OF same_control_trans [OF c1 that(1)]]
      same_control_trans [OF c1 that(1)] by (simp add: same_control_def)
  note h' = h [unfolded hyp_trap_handler_def Let_def, folded s1_def, folded ec_def iss_def]
  consider (wfi) "ec = 1" "scheduler sp (set_wfi (vm_id s1) WFI_In (vm_trigger (vm_id s1) TRAP_WFI s1))
        = Inr (fl, s')"
    | (cp15) "fl = Resume" "s' = vm_trigger (vm_id s1) TRAP_CP15 (sys_trigger TRAP_WFI s1)"
    | (cp14) "fl = Resume" "s' = s1"
    | (hvc) "fl = Resume" "s' = hypervisor_call (vm_id s1) (iss AND mask32 15 0) s1"
    | (dabort) "fl = Resume" "guest_rpb_hyp_trap_dabort_handler (vm_id s1) sp iss s1 = Inr s'"
    using h' by (auto simp: resume_def bindR_eq_Inr guest_rpb_cp15_trap_def Let_def split: if_splits)
  then show ?thesis
  proof cases
    case wfi
    let ?t = "set_wfi (vm_id s1) WFI_In (vm_trigger (vm_id s1) TRAP_WFI s1)"
    have "sched_pre ?t"
      using run_inv_pre [OF inv] c1
      by (auto simp: sched_pre_def guests_ok_def set_wfi_def vm_trigger_def same_control_def)
    from scheduler_total [OF this, of sp] wfi(2) show ?thesis by auto
  next
    case cp15
    then show ?thesis
      by (intro keep) (auto intro: same_control_trans [OF same_control_trigger(2) same_control_trigger(1)])
  next
    case cp14
    then show ?thesis by (intro keep) auto
  next
    case hvc
    then show ?thesis by (intro keep) (auto intro: hypervisor_call_control)
  next
    case dabort
    then show ?thesis by (intro keep) (auto intro: dabort_control)
  qed
qed

lemma irq_handler_inv:
  assumes inv: "run_inv s" and h: "irq_handler sp s = Inr (fl, s')"
  shows "run_inv s' \<and> (fl = Idle_Thread \<longrightarrow> scheduler_idle s')"
proof -
  obtain ack h1 where ack: "dev_gic2_cpu_if_read_ack (sys_gic_cpu_if s) (hw s) = (ack, h1)"
    by fastforce
  have inv1: "run_inv (s\<lparr>hw := g\<rparr>)" for g
    using same_control_inv [OF same_control_hw [of s g]] inv by simp
  note h' = h [unfolded irq_handler_def Let_def ack prod.case]
  show ?thesis
  proof (cases "sint ack = 34")
    case True
    then obtain g where "scheduler sp (s\<lparr>hw := g\<rparr>) = Inr (fl, s')" using h' by simp
    with scheduler_total [OF run_inv_pre [OF inv1], of sp g] show ?thesis by auto
  next
    case False
    show ?thesis
    proof (cases "irq_target (sint ack)")
      case None
      with False h' have "fl = Resume" "s' = s\<lparr>hw := h1\<rparr>" by (auto split: if_splits)
      with inv1 show ?thesis by simp
    next
      case (Some t)
      with False h' have d: "irq_deliver sp (sint ack) t (s\<lparr>hw := h1\<rparr>) = Inr (fl, s')" by simp
      note t = irq_target_range [OF Some]
      show ?thesis
        using irq_deliver_running [OF inv1 _ _ _ d] irq_deliver_idle [OF inv1 _ _ _ d] t
        by (cases "scheduler_idle s") auto
    qed
  qed
qed

section \<open>Reachable states\<close>

text \<open>
  What can happen between two states of the hypervisor. A guest runs for a while and traps,
  or an interrupt arrives; the guest and the devices may leave any machine \<open>h\<close> behind.
\<close>

inductive meteor_step :: "meteor \<Rightarrow> meteor \<Rightarrow> bool" where
  trap: "\<not> scheduler_idle s \<Longrightarrow> hyp_trap_handler sp (s\<lparr>hw := h\<rparr>) = Inr (fl, s') \<Longrightarrow> meteor_step s s'"
| irq: "irq_handler sp (s\<lparr>hw := h\<rparr>) = Inr (fl, s') \<Longrightarrow> meteor_step s s'"

inductive reachable :: "meteor \<Rightarrow> meteor \<Rightarrow> bool" for s0 where
  start: "reachable s0 s0"
| step: "reachable s0 s \<Longrightarrow> meteor_step s s' \<Longrightarrow> reachable s0 s'"

inductive_cases meteor_stepE: "meteor_step s s'"

lemma meteor_step_inv: "meteor_step s s' \<Longrightarrow> run_inv s \<Longrightarrow> run_inv s'"
proof (erule meteor_stepE)
  fix sp h fl
  assume "run_inv s" and "\<not> scheduler_idle s" and "hyp_trap_handler sp (s\<lparr>hw := h\<rparr>) = Inr (fl, s')"
  with hyp_trap_inv [of "s\<lparr>hw := h\<rparr>" sp fl s'] show "run_inv s'"
    using same_control_inv [OF same_control_hw [of s h]] by simp
next
  fix sp h fl
  assume "run_inv s" and "irq_handler sp (s\<lparr>hw := h\<rparr>) = Inr (fl, s')"
  with irq_handler_inv [of "s\<lparr>hw := h\<rparr>" sp fl s'] show "run_inv s'"
    using same_control_inv [OF same_control_hw [of s h]] by simp
qed

lemma reachable_run_inv: "reachable s0 s \<Longrightarrow> run_inv s0 \<Longrightarrow> run_inv s"
  by (induction rule: reachable.induct) (auto intro: meteor_step_inv)

end
