(* ===== verification/Boot.thy ===== *)
theory Boot
  imports Handler_Inv
begin

text \<open>
  vmm/meteor.c and vmm/main.c: initialising the devices and the hypervisor's system
  registers, building the four guests and entering the first.
\<close>

section \<open>meteor.c\<close>

definition meteor_init_timer :: "meteor \<Rightarrow> meteor" where
  "meteor_init_timer s =
     (let (t, h) = dev_timer_init (sys_timer s) 0x50005000 (hw s);
          (t, h) = dev_timer_set_wrapping t 0 False h;
          (t, h) = dev_timer_set_size t 0 32 h;
          (t, h) = dev_timer_set_prescale t 0 1 h;
          (t, h) = dev_timer_set_mode t 0 TimerMode_Period h;
          (t, h) = dev_timer_set_interrupt t 0 True h;
          (t, h) = dev_timer_set_enable t 0 True h
      in s\<lparr>sys_timer := t, hw := h\<rparr>)"

text \<open>The pointers \<open>newlib_uart\<close> and \<open>newlib_semihost\<close> point to the two devices below.\<close>

definition meteor_devices_init :: "meteor \<Rightarrow> meteor res" where
  "meteor_devices_init s =
     (let (u, h) = dev_uart_init (sys_uart s) 0x50004000 (hw s);
          s = s\<lparr>sys_uart := u, sys_semihost := dev_semihost_init 0x70800000\<rparr>
      in bindR (dev_gic2_dist_init 0x50000000 h) (\<lambda>(dist, h).
           let h = dev_gic2_dist_set_enable dist True h;
               cpu_if = dev_gic2_cpu_if_init 0x50001000;
               h = dev_gic2_cpu_if_set_enable cpu_if True h;
               vctrl = dev_gic2_vctrl_init 0x50002000;
               h = dev_gic2_vctrl_clear_list vctrl h;
               h = dev_gic2_vctrl_set_enable vctrl True h;
               s = s\<lparr>hw := h, sys_gic_dist := dist, sys_gic_cpu_if := cpu_if,
                     sys_gic_vctrl := vctrl,
                     sys_gic_vcpu_if := dev_gic2_vcpu_if_init 0x50003000\<rparr>;
               s = meteor_init_timer s
           in Inr (s\<lparr>sys_ctrl := dev_sys_ctrl_init 0x50007000 0x50008000,
                     sys_mem_allocator := memory_allocator_init (sys_mem_allocator s) 0x10000000,
                     sys_monitor := monitor_reset (sys_monitor s)\<rparr>)))"

definition meteor_cp15_init :: "machine \<Rightarrow> machine" where
  "meteor_cp15_init h =
     (let h = cp15_write HSCTLR 0 h;
          h = cp15_write HSCTLR_A 1 h;
          h = cp15_write HCR 0x0 h;
          h = cp15_write HCR_VM 0x1 h;
          h = cp15_write HCR_IMO 0x1 h;
          h = cp15_write HCR_TWI 0x1 h;
          h = cp15_write HVBAR 0x0 h;
          h = cp15_write VTCR 0x0 h;
          h = cp15_write VTCR_SL0 0x1 h;
          h = cp15_write VTCR_T0SZ 0x0 h;
          h = cp15_write HSTR_T7 0x1 h
      in cp15_write HSTR_T8 0x1 h)"

section \<open>main.c\<close>

text \<open>
  What \<open>cleanup\<close> prints when the hypervisor exits; it is registered with \<open>atexit\<close>.
\<close>

definition cleanup :: "meteor \<Rightarrow> printed" where
  "cleanup s = printe_base (''used pages: '' @ show_int (sint (alloc_count (sys_mem_allocator s)))
     @ '' ('' @ show_int (sint (alloc_count (sys_mem_allocator s) * 4)) @ '' KiB)'')"

text \<open>
  Building guest \<open>i\<close>: the four groups of calls in \<open>main\<close>, which differ in their
  constants only. The files are the contents of zImages/zImage.pb and initrds/initrd.gz.
\<close>

definition main_guest :: "u8 list \<Rightarrow> u8 list \<Rightarrow> int \<Rightarrow> u32 \<Rightarrow> u32 \<Rightarrow> u32 \<Rightarrow> u32 \<Rightarrow> u32 \<Rightarrow> u32 \<Rightarrow>
    int \<times> int \<times> int \<Rightarrow> meteor \<Rightarrow> meteor res" where
  "main_guest zImage initrd i base_pa pt_base uart_base timer_0_base timer_2_base black_hole_base
     virqs s =
     (let g = guest_rpb_init i base_pa 0x0 (push_bit 20 128) (sys_gic_dist s)
      in bindR (guest_rpb_init_pt_static pt_base uart_base timer_0_base timer_2_base 0x50003000
                  black_hole_base g (hw s))
           (\<lambda>(g, h).
              let h = guest_rpb_init_mem_static zImage initrd g h;
                  g = (case virqs of (u, t0, t2) \<Rightarrow> guest_rpb_init_virq u t0 t2 g)
              in Inr (s\<lparr>vm := (vm s)(i := g), hw := h\<rparr>)))"

text \<open>What \<open>main\<close> does up to its \<open>eret\<close>; the last instructions clear \<open>r0\<close> to \<open>r12\<close>.\<close>

definition main :: "u8 list \<Rightarrow> u8 list \<Rightarrow> meteor \<Rightarrow> meteor res" where
  "main zImage initrd s =
     bindR (meteor_devices_init s) (\<lambda>s.
     let s = s\<lparr>hw := meteor_cp15_init (hw s)\<rparr> in
     bindR (main_guest zImage initrd 0 0x10000000 0x08000000 0x60000000 0x60004000 0x60008000
              0x90000000 (40, 44, 48) s) (\<lambda>s.
     bindR (main_guest zImage initrd 1 0x18000000 0x08100000 0x60001000 0x60005000 0x60009000
              0x90001000 (41, 45, 49) s) (\<lambda>s.
     bindR (main_guest zImage initrd 2 0x20000000 0x08200000 0x60002000 0x60006000 0x6000A000
              0x90002000 (42, 46, 50) s) (\<lambda>s.
     bindR (main_guest zImage initrd 3 0x28000000 0x08300000 0x60003000 0x60007000 0x6000B000
              0x90003000 (43, 47, 51) s) (\<lambda>s.
     bindR (restore_vm 0 0 s) (\<lambda>s.
     Inr (scheduler_reset_timer (scheduler_leave_idle s))))))))"

end
