(* ===== verification/Frame.thy ===== *)
theory Frame
  imports Stage2_Refine
begin

text \<open>
  Which memory the operations write: \<open>touches A\<close> says that an operation stores to
  addresses of \<open>A\<close> only, and leaves the devices' behaviour alone. A page table whose area
  is not touched keeps its map.
\<close>

section \<open>Touching a set of addresses\<close>

definition touches :: "u32 set \<Rightarrow> machine \<Rightarrow> machine \<Rightarrow> bool" where
  "touches A h h' \<longleftrightarrow> dev h' = dev h \<and> (\<forall>a. a \<notin> A \<longrightarrow> mem h' a = mem h a)"

lemma touches_refl [simp]: "touches A h h"
  by (simp add: touches_def)

lemma touches_trans: "touches A h1 h2 \<Longrightarrow> touches A h2 h3 \<Longrightarrow> touches A h1 h3"
  by (simp add: touches_def)

lemma touches_mono: "touches A h h' \<Longrightarrow> A \<subseteq> B \<Longrightarrow> touches B h h'"
  by (auto simp: touches_def)

lemma touches_same: "mem h' = mem h \<Longrightarrow> dev h' = dev h \<Longrightarrow> touches A h h'"
  by (simp add: touches_def)

lemma touches_dev: "touches A h h' \<Longrightarrow> dev h' = dev h"
  by (simp add: touches_def)

lemma touches_fold:
  assumes "\<And>i h. i \<in> set ks \<Longrightarrow> touches A h (f i h)"
  shows "touches A h (fold f ks h)"
  using assms by (induction ks arbitrary: h) (auto intro: touches_trans)

lemma touches_writeb: "a \<in> A \<Longrightarrow> touches A h (io_writeb a v h)"
  by (auto simp: touches_def io_writeb_def)

lemma touches_writew:
  "a \<in> A \<Longrightarrow> a + 1 \<in> A \<Longrightarrow> a + 2 \<in> A \<Longrightarrow> a + 3 \<in> A \<Longrightarrow> touches A h (io_writew a v h)"
  by (auto simp: touches_def io_writew_def store32_def)

text \<open>An interval of addresses that does not wrap around.\<close>

definition area :: "nat \<Rightarrow> nat \<Rightarrow> u32 set" where
  "area lo n = {a. lo \<le> unat a \<and> unat a < lo + n}"

lemma area_add:
  assumes "lo + n \<le> 2 ^ 32" and "lo \<le> unat a" and "unat a + k < lo + n"
  shows "a + of_nat k \<in> area lo n"
proof -
  have "a + of_nat k = of_nat (unat a + k)" by simp
  moreover have "unat a + k < 2 ^ LENGTH(32)" using assms(1,3) by simp
  ultimately have "unat (a + of_nat k) = unat a + k" by (simp only: unat_of_nat mod_less)
  with assms(2,3) show ?thesis by (simp add: area_def)
qed

lemma touches_writew_area:
  assumes "lo + n \<le> 2 ^ 32" and "lo \<le> unat a" and "unat a + 3 < lo + n"
  shows "touches (area lo n) h (io_writew a v h)"
  using area_add [OF assms(1,2), of 0] area_add [OF assms(1,2), of 1] area_add [OF assms(1,2), of 2]
    area_add [OF assms(1,2), of 3] assms(3)
  by (intro touches_writew) simp_all

lemma touches_writeb_area: "lo \<le> unat a \<Longrightarrow> unat a < lo + n \<Longrightarrow> touches (area lo n) h (io_writeb a v h)"
  by (rule touches_writeb) (simp add: area_def)

section \<open>The area of a page table\<close>

abbreviation pt_area :: "u32 \<Rightarrow> u32 set" where
  "pt_area b \<equiv> area (unat b) (8 * pt_slots)"

lemma touches_slot:
  assumes "pt_region b pt_slots h" and "k < pt_slots"
  shows "touches (pt_area b) h' (io_writed (pt_slot b k) v h')"
proof -
  have le: "unat b + 8 * pt_slots \<le> 2 ^ 32" using assms(1) by (simp add: pt_region_def)
  note u = pt_slot_unat [OF le assms(2)]
  have "unat (pt_slot b k + 4) = unat b + 8 * k + 4"
  proof -
    have "pt_slot b k + 4 = of_nat (unat b + 8 * k + 4)"
      by (simp add: pt_slot_def)
    moreover have "unat b + 8 * k + 4 < 2 ^ LENGTH(32)" using le assms(2) by simp
    ultimately show ?thesis by (simp only: unat_of_nat mod_less)
  qed
  with u le assms(2) show ?thesis
    unfolding io_writed_def
    by (intro touches_trans [OF touches_writew_area touches_writew_area]) simp_all
qed

lemma pt_cell_touch:
  assumes reg: "pt_region b pt_slots h" and t: "touches A h h'" and "A \<inter> pt_area b = {}" and "k < pt_slots"
  shows "pt_cell (mem h') b k = pt_cell (mem h) b k"
proof -
  have le: "unat b + 8 * pt_slots \<le> 2 ^ 32" using reg by (simp add: pt_region_def)
  note u = pt_slot_unat [OF le assms(4)]
  have "mem h' (pt_slot b k + of_nat j) = mem h (pt_slot b k + of_nat j)" if "j < 8" for j
  proof -
    have "pt_slot b k + of_nat j \<in> pt_area b"
      by (rule area_add [OF le]) (use u assms(4) that in simp_all)
    with assms(3) t show ?thesis by (auto simp: touches_def)
  qed
  from this [of 0] this [of 1] this [of 2] this [of 3] this [of 4] this [of 5] this [of 6] this [of 7]
  show ?thesis by (simp add: pt_cell_def load64_def load32_def add.assoc)
qed

lemma pt_rel_touch:
  assumes rel: "pt_rel b s p h" and t: "touches A h h'" and A: "A \<inter> pt_area b = {}"
  shows "pt_rel b s p h'"
proof -
  note cell = pt_cell_touch [OF pt_rel_region [OF rel] t A]
  have "pt_region b pt_slots h'"
    using pt_region_dev [OF touches_dev [OF t]] pt_rel_region [OF rel] by simp
  moreover have "pt_cell (mem h') b (2560 + 512 * i + j) = pt_cell (mem h) b (2560 + 512 * i + j)"
    if "i < 8" "j < 512" for i j
    by (rule cell) (use that in simp)
  ultimately show ?thesis
    using rel cell by (simp add: pt_rel_def)
qed

section \<open>The page table operations\<close>

lemma touches_after_walk: "touches A h (after_walk b ipa h)"
  by (rule touches_same) (simp_all add: after_walk_def hw_simps)

lemma init_touches:
  assumes reg: "pt_region b pt_slots h"
  shows "touches (pt_area b) h (snd (pagetable_init (ucast b) h))"
proof -
  have b: "unat b + 8 * pt_slots \<le> 2 ^ 32" using reg by (simp only: pt_region_def)
  have fill: "touches (pt_area b) g (fold (\<lambda>i. io_writed (pt_slot b (f i)) (v i)) ks g)"
    if "\<forall>i \<in> set ks. f i < pt_slots" for f v ks g
    by (rule touches_fold) (use touches_slot [OF reg] that in blast)
  let ?v = "\<lambda>i. table_word (b + 0x1000 + of_nat i * 0x1000)"
  let ?h1 = "fold (\<lambda>i. io_writed (pt_slot b i) (?v i)) [0..<4] h"
  let ?h2 = "fold (\<lambda>i. io_writed (pt_slot b (512 + i)) 0) [0..<2048] ?h1"
  have 1: "touches (pt_area b) h ?h1" by (rule fill) simp
  have 2: "touches (pt_area b) ?h1 ?h2" by (rule fill) simp
  have 3: "touches (pt_area b) ?h2 (init_slots b h)"
    unfolding init_slots_def by (rule fill) simp
  show ?thesis
    unfolding pagetable_init_eq [OF b] snd_conv
    by (rule touches_trans [OF touches_trans [OF 1 2] 3])
qed

lemma set_block_touches:
  assumes rel: "pt_rel b s p h"
  shows "touches (pt_area b) h (pagetable_set_block p ipa pa h)"
proof -
  have "512 + l2_index ipa < pt_slots" using l2_index_less [of ipa] by simp
  then show ?thesis
    unfolding set_block_eq [OF rel]
    by (intro touches_trans [OF touches_same touches_slot [OF pt_rel_region [OF rel]]])
      (simp_all add: hw_simps)
qed

lemma set_page_touches:
  assumes rel: "pt_rel b s p h"
    and room: "(\<exists>t. l2 s (l2_index ipa) = L2_Table t) \<or> tables s < 8"
  shows "touches (pt_area b) h (snd (pagetable_set_page p ipa pa h))"
proof -
  note slot = touches_slot [OF pt_rel_region [OF rel]]
  have l3: "2560 + 512 * t + l3_index ipa < pt_slots" if "t < 8" for t
    using l3_index_less [of ipa] that by simp
  have l2: "512 + l2_index ipa < pt_slots" using l2_index_less [of ipa] by simp
  show ?thesis
  proof (cases "\<exists>t. l2 s (l2_index ipa) = L2_Table t")
    case True
    then obtain t where t: "l2 s (l2_index ipa) = L2_Table t" by blast
    have "t < 8"
      using pt_rel_wf [OF rel] pt_rel_tables [OF rel] t unfolding stage2_wf_def by fastforce
    then show ?thesis
      using touches_trans [OF touches_after_walk slot [OF l3]]
      by (simp add: set_page_eq_table [OF rel t])
  next
    case False
    then have new: "\<And>t. l2 s (l2_index ipa) \<noteq> L2_Table t" and k: "tables s < 8"
      using room by auto
    show ?thesis
      using touches_trans [OF touches_trans [OF touches_after_walk slot [OF l2]] slot [OF l3 [OF k]]]
      by (simp add: set_page_eq_new [OF rel new k])
  qed
qed

text \<open>A list of pages, mapped one after the other.\<close>

lemma pages_refine:
  assumes "pt_rel b s p h" and "tables s + length ps \<le> 8"
    and "fold (\<lambda>(ipa, pa) (p, h). pagetable_set_page p ipa pa h) ps (p, h) = (p', h')"
  shows "pt_rel b (fold (\<lambda>(ipa, pa). stage2_page ipa pa) ps s) p' h' \<and> touches (pt_area b) h h'"
  using assms
proof (induction ps arbitrary: s p h)
  case (Cons x ps)
  obtain ipa pa where x: "x = (ipa, pa)" by fastforce
  obtain p1 h1 where 1: "pagetable_set_page p ipa pa h = (p1, h1)" by fastforce
  have room: "(\<exists>t. l2 s (l2_index ipa) = L2_Table t) \<or> tables s < 8" using Cons.prems(2) by simp
  have rel: "pt_rel b (stage2_page ipa pa s) p1 h1"
    using set_page_refines [OF Cons.prems(1) room, of pa] by (simp add: 1)
  have "tables (stage2_page ipa pa s) \<le> Suc (tables s)"
    by (simp add: stage2_page_def stage2_put_def stage2_new_table_def split: l2_entry.split)
  then have "tables (stage2_page ipa pa s) + length ps \<le> 8" using Cons.prems(2) by simp
  from Cons.IH [OF rel this] Cons.prems(3)
  have "pt_rel b (fold (\<lambda>(ipa, pa). stage2_page ipa pa) ps (stage2_page ipa pa s)) p' h'"
    and "touches (pt_area b) h1 h'"
    by (simp_all add: x 1)
  moreover have "touches (pt_area b) h h1"
    using set_page_touches [OF Cons.prems(1) room, of pa] by (simp add: 1)
  ultimately show ?case by (auto simp: x intro: touches_trans)
qed simp

end
