(* ===== verification/Static_Map.thy ===== *)
theory Static_Map
  imports Boot Frame
begin

text \<open>
  The stage 2 table of a guest as main builds it: the loop over the blocks ends, and the
  table maps the guest's memory at 0 and at 0x70000000, the pages of five devices and
  nothing else.
\<close>

section \<open>The loop over the blocks\<close>

definition map_block :: "guest \<Rightarrow> pagetable_ld \<Rightarrow> u32 \<Rightarrow> machine \<Rightarrow> machine" where
  "map_block g p offset h =
     pagetable_set_block p (ucast (0x70000000 + offset)) (mem_base_pa g + offset)
       (pagetable_set_block p (ucast offset) (mem_base_pa g + offset) h)"

definition block_offset :: "nat \<Rightarrow> u32" where
  "block_offset k = of_nat (k * 0x200000)"

lemma block_offset_Suc: "block_offset (Suc k) = block_offset k + push_bit 20 2"
  by (simp add: block_offset_def)

lemma unat_block_offset: "k < 2048 \<Longrightarrow> unat (block_offset k) = k * 0x200000"
  by (simp add: block_offset_def unat_of_nat del: of_nat_mult)

text \<open>\<open>n\<close> blocks cover the memory, and the counter does not wrap around.\<close>

lemma map_blocks_from:
  assumes "unat (mem_size g) \<le> n * 0x200000" and "n < 2048"
    and "\<And>j. j < n \<Longrightarrow> j * 0x200000 < unat (mem_size g)" and "k \<le> n"
  shows "while_option (\<lambda>(offset, h). offset < mem_size g)
      (\<lambda>(offset, h). let h = pagetable_set_block p (ucast offset) (mem_base_pa g + offset) h;
           h = pagetable_set_block p (ucast (0x70000000 + offset)) (mem_base_pa g + offset) h
         in (offset + push_bit 20 2, h)) (block_offset k, h)
    = Some (block_offset n, fold (\<lambda>j. map_block g p (block_offset j)) [k..<n] h)"
  using assms(4)
proof (induction arbitrary: h rule: inc_induct)
  case base
  have "\<not> block_offset n < mem_size g"
    using assms(1,2) by (simp add: word_less_nat_alt unat_block_offset)
  then show ?case by (subst while_option_unfold) simp
next
  case (step k)
  have "block_offset k < mem_size g"
    using assms(2,3) step.hyps by (simp add: word_less_nat_alt unat_block_offset)
  then show ?case
    using step.IH step.hyps
    by (subst while_option_unfold)
      (simp add: Let_def map_block_def [abs_def] block_offset_Suc upt_conv_Cons)
qed

lemma guest_rpb_map_blocks_eq:
  assumes "unat (mem_size g) \<le> n * 0x200000" and "n < 2048"
    and "\<And>j. j < n \<Longrightarrow> j * 0x200000 < unat (mem_size g)"
  shows "guest_rpb_map_blocks g p h
    = Some (block_offset n, fold (\<lambda>j. map_block g p (block_offset j)) [0..<n] h)"
  using map_blocks_from [OF assms, of 0 p h]
  by (simp add: guest_rpb_map_blocks_def block_offset_def)

text \<open>Every size the counter can pass is covered by some number of blocks.\<close>

lemma block_count:
  assumes "unat (m :: u32) \<le> 0xFFE00000"
  obtains n where "unat m \<le> n * 0x200000" and "n < 2048"
    and "\<And>j. j < n \<Longrightarrow> j * 0x200000 < unat m"
proof -
  let ?n = "(unat m + 0x1FFFFF) div 0x200000"
  have "unat m \<le> ?n * 0x200000" by simp
  moreover have "?n < 2048" using assms by simp
  moreover have "j * 0x200000 < unat m" if "j < ?n" for j using that by simp
  ultimately show ?thesis by (rule that)
qed

lemma init_pt_static_total:
  assumes "unat (mem_size g) \<le> 0xFFE00000"
  shows "\<exists>p h'. guest_rpb_init_pt_static b u t0 t2 v bh g h = Inr (set_vttbr b (g\<lparr>pt := p\<rparr>), h')"
proof -
  obtain n where n: "unat (mem_size g) \<le> n * 0x200000" "n < 2048"
    "\<And>j. j < n \<Longrightarrow> j * 0x200000 < unat (mem_size g)"
    by (rule block_count [OF assms]) blast
  show ?thesis
    by (auto simp: guest_rpb_init_pt_static_def guest_rpb_map_blocks_eq [OF n] case_prod_beta)
qed

section \<open>The table that is built\<close>

definition map_devices :: "u32 \<Rightarrow> u32 \<Rightarrow> u32 \<Rightarrow> u32 \<Rightarrow> u32 \<Rightarrow> stage2 \<Rightarrow> stage2" where
  "map_devices u t0 t2 v bh s =
     stage2_page 0x20000000 bh (stage2_page 0x1E000000 v (stage2_page 0x10012000 t2
       (stage2_page 0x10011000 t0 (stage2_page 0x10009000 u s))))"

definition stage2_blocks :: "u32 \<Rightarrow> nat \<Rightarrow> stage2 \<Rightarrow> stage2" where
  "stage2_blocks base n s = fold (\<lambda>j s. stage2_block (ucast (0x70000000 + block_offset j))
     (base + block_offset j) (stage2_block (ucast (block_offset j)) (base + block_offset j) s)) [0..<n] s"

lemma map_devices_refines:
  assumes rel: "pt_rel b s p h" and "tables s \<le> 3"
    and d: "guest_rpb_map_devices u t0 t2 v bh (p, h) = (p', h')"
  shows "pt_rel b (map_devices u t0 t2 v bh s) p' h'" and "touches (pt_area b) h h'"
proof -
  let ?ps = "[(0x10009000, u), (0x10011000, t0), (0x10012000, t2), (0x1E000000, v), (0x20000000, bh)]"
  have "fold (\<lambda>(ipa, pa) (p, h). pagetable_set_page p ipa pa h) ?ps (p, h) = (p', h')"
    using d by (simp add: guest_rpb_map_devices_def case_prod_beta)
  from pages_refine [OF rel _ this] assms(2)
  show "pt_rel b (map_devices u t0 t2 v bh s) p' h'" and "touches (pt_area b) h h'"
    by (simp_all add: map_devices_def)
qed

section \<open>Indices of 32-bit addresses\<close>

lemma unat_ucast_64: "unat (ucast (y :: u32) :: u64) = unat y"
proof -
  have "unat y < 2 ^ 32" using unsigned_less [of y] by simp
  then show ?thesis by (simp add: unsigned_ucast_eq take_bit_eq_mod)
qed

lemma l2_index_ucast: "l2_index (ucast (y :: u32)) = unat y div 0x200000"
proof -
  have "unat y < 2 ^ 32" using unsigned_less [of y] by simp
  then have "unat y div 0x200000 < 2048" by (simp add: less_mult_imp_div_less)
  then show ?thesis by (simp add: l2_index_def unat_get_field64 unat_ucast_64)
qed

lemma l3_index_ucast: "l3_index (ucast (y :: u32)) = unat y div 0x1000 mod 512"
  by (simp add: l3_index_def unat_get_field64 unat_ucast_64)

lemma page_number_split:
  "l2_index (ucast y) = a \<and> l3_index (ucast y) = b \<longleftrightarrow> unat (y :: u32) div 0x1000 = 512 * a + b"
  if "b < 512"
proof -
  have "unat y div 0x200000 = unat y div 0x1000 div 512" by (simp add: div_mult2_eq [symmetric])
  then show ?thesis using that by (auto simp: l2_index_ucast l3_index_ucast)
qed

lemma l2_index_blocks:
  assumes "n < 1152"
  shows "l2_index (ucast (block_offset n)) = n" "l2_index (ucast (0x70000000 + block_offset n)) = 896 + n"
proof -
  have "unat (block_offset n) = n * 0x200000" by (rule unat_block_offset) (use assms in simp)
  moreover from this have "unat (0x70000000 + block_offset n) = 0x70000000 + n * 0x200000"
    using assms by (simp add: unat_word_ariths)
  ultimately show "l2_index (ucast (block_offset n)) = n"
      "l2_index (ucast (0x70000000 + block_offset n)) = 896 + n"
    by (simp_all add: l2_index_ucast)
qed

text \<open>The blocks: the memory from index 0, and again from index 896 (0x70000000).\<close>

lemma stage2_blocks_Suc:
  "stage2_blocks base (Suc n) s =
      stage2_block (ucast (0x70000000 + block_offset n)) (base + block_offset n)
       (stage2_block (ucast (block_offset n)) (base + block_offset n) (stage2_blocks base n s))"
  by (simp add: stage2_blocks_def)

lemma stage2_blocks_rest [simp]:
  "tables (stage2_blocks base n s) = tables s" "l3 (stage2_blocks base n s) = l3 s"
  by (induction n) (simp_all add: stage2_blocks_Suc stage2_block_def, simp_all add: stage2_blocks_def)

lemma stage2_blocks_l2:
  assumes "n \<le> 128"
  shows "l2 (stage2_blocks base n stage2_empty) i =
     (if i < n then L2_Block (base + block_offset i)
      else if 896 \<le> i \<and> i < 896 + n then L2_Block (base + block_offset (i - 896))
      else L2_Invalid)"
  using assms
proof (induction n)
  case 0
  show ?case by (simp add: stage2_blocks_def stage2_empty_def)
next
  case (Suc n)
  note idx = l2_index_blocks [of n]
  consider "i = n" | "i = 896 + n" | "i \<noteq> n" "i \<noteq> 896 + n" by blast
  then show ?case
  proof cases
    case 1
    with Suc.prems idx show ?thesis by (simp add: stage2_blocks_Suc stage2_block_def)
  next
    case 2
    with Suc.prems idx show ?thesis by (simp add: stage2_blocks_Suc stage2_block_def)
  next
    case 3
    then have "i < Suc n \<longleftrightarrow> i < n" "i < 896 + Suc n \<longleftrightarrow> i < 896 + n" by linarith+
    with 3 Suc idx show ?thesis by (simp add: stage2_blocks_Suc stage2_block_def)
  qed
qed

lemma stage2_blocks_wf: "n \<le> 128 \<Longrightarrow> stage2_wf (stage2_blocks base n stage2_empty)"
  by (simp add: stage2_wf_def stage2_blocks_l2) (simp add: stage2_empty_def)

section \<open>What a guest reaches\<close>

text \<open>The device pages, by page number.\<close>

definition device_page :: "u32 \<Rightarrow> u32 \<Rightarrow> u32 \<Rightarrow> u32 \<Rightarrow> u32 \<Rightarrow> nat \<Rightarrow> u32 option" where
  "device_page u t0 t2 v bh n =
     (if n = 0x10009 then Some u else if n = 0x10011 then Some t0 else if n = 0x10012 then Some t2
      else if n = 0x1E000 then Some v else if n = 0x20000 then Some bh else None)"

definition static_lookup :: "u32 \<Rightarrow> u32 \<Rightarrow> (nat \<Rightarrow> u32 option) \<Rightarrow> u32 \<Rightarrow> u32 option" where
  "static_lookup base sz devs y =
     (if y < sz then Some (base + y)
      else if 0x70000000 \<le> y \<and> y - 0x70000000 < sz then Some (base + (y - 0x70000000))
      else map_option (\<lambda>pa. copy_field pa y 11 0) (devs (unat y div 0x1000)))"

text \<open>An aligned block keeps the lower bits of the address.\<close>

lemma block_offset_aligned: "aligned 21 (block_offset k)"
proof -
  have "(2 ^ 21 :: nat) dvd k * 0x200000 mod 2 ^ LENGTH(32)" by (rule dvd_mod) simp_all
  then show ?thesis unfolding aligned_dvd block_offset_def unat_of_nat .
qed

lemma copy_field_block:
  assumes "aligned 21 a"
  shows "copy_field a y 20 0 = a + take_bit 21 y"
proof -
  have "copy_field a y 20 0 = a OR take_bit 21 y"
    using aligned_bit [OF assms] by (intro bit_word_eqI) (auto simp: field_simps32 bit_simps)
  moreover have "a AND take_bit 21 y = 0"
    using aligned_bit [OF assms] by (intro bit_word_eqI) (auto simp: bit_simps)
  ultimately show ?thesis by (simp add: word_or_disjoint_plus)
qed

lemma unat_take_bit_21: "unat (take_bit 21 (y :: u32)) = unat y mod 0x200000"
proof -
  have "unat (take_bit 21 y) = take_bit 21 (unat y)" by (rule unsigned_take_bit_eq)
  then show ?thesis by (simp only: take_bit_nat_def) simp
qed

lemma block_split: "block_offset (unat y div 0x200000) + take_bit 21 y = y"
proof -
  have "take_bit 21 y = of_nat (unat y mod 0x200000)"
    by (simp only: word_unat_eq_iff unat_take_bit_21 unat_of_nat) simp
  then have "block_offset (unat y div 0x200000) + take_bit 21 y
      = of_nat (unat y div 0x200000 * 0x200000 + unat y mod 0x200000)"
    by (simp only: block_offset_def of_nat_add)
  also have "\<dots> = y" by (simp only: div_mult_mod_eq) simp
  finally show ?thesis .
qed

lemma block_output_low:
  assumes "aligned 21 base"
  shows "copy_field (base + block_offset (unat y div 0x200000)) y 20 0 = base + y"
proof -
  have "aligned 21 (base + block_offset (unat y div 0x200000))"
    by (rule aligned_add [OF assms block_offset_aligned]) simp
  from copy_field_block [OF this, of y] block_split [of y] show ?thesis by (simp add: add.assoc)
qed

definition no_block :: "nat \<Rightarrow> stage2 \<Rightarrow> bool" where
  "no_block i s \<longleftrightarrow> (\<forall>q. l2 s i \<noteq> L2_Block q)"

lemma no_block_page: "no_block i s \<Longrightarrow> no_block i (stage2_page x pa s)"
  by (simp add: no_block_def stage2_page_def stage2_put_def stage2_new_table_def split: l2_entry.split)

lemma lookup_page_new:
  assumes "stage2_wf s" and "no_block (l2_index x) s"
  shows "stage2_lookup (stage2_page x pa s) y =
     (if unat y div 0x1000 = 512 * l2_index x + l3_index x then Some (copy_field pa y 11 0)
      else stage2_lookup s y)"
  using page_number_split [OF l3_index_less [of x], of y "l2_index x"] assms(2)
  unfolding stage2_lookup_page [OF assms(1)] no_block_def by simp

lemma device_indices:
  "l2_index 0x10009000 = 128" "l3_index 0x10009000 = 9" "l2_index 0x10011000 = 128"
  "l3_index 0x10011000 = 17" "l2_index 0x10012000 = 128" "l3_index 0x10012000 = 18"
  "l2_index 0x1E000000 = 240" "l3_index 0x1E000000 = 0" "l2_index 0x20000000 = 256"
  "l3_index 0x20000000 = 0"
  by (simp_all add: l2_index_def l3_index_def unat_get_field64)

lemma stage2_lookup_devices:
  assumes wf: "stage2_wf s" and "no_block 128 s" "no_block 240 s" "no_block 256 s"
  shows "stage2_lookup (map_devices u t0 t2 v bh s) y =
     (case device_page u t0 t2 v bh (unat y div 0x1000) of
        Some pa \<Rightarrow> Some (copy_field pa y 11 0) | None \<Rightarrow> stage2_lookup s y)"
  using assms
  by (simp add: map_devices_def lookup_page_new stage2_page_wf no_block_page device_indices
      device_page_def)

lemma blocks_lookup:
  assumes "aligned 21 base" and "n \<le> 128"
  shows "stage2_lookup (stage2_blocks base n stage2_empty) y =
     (if y < block_offset n then Some (base + y)
      else if 0x70000000 \<le> y \<and> y - 0x70000000 < block_offset n then Some (base + (y - 0x70000000))
      else None)"
proof -
  let ?i = "unat y div 0x200000"
  have bo: "unat (block_offset n) = n * 0x200000" using assms(2) by (simp add: unat_block_offset)
  have low: "y < block_offset n \<longleftrightarrow> ?i < n"
    unfolding word_less_nat_alt bo by (simp add: div_less_iff_less_mult)
  have high: "0x70000000 \<le> y \<and> y - 0x70000000 < block_offset n \<longleftrightarrow> 896 \<le> ?i \<and> ?i < 896 + n"
  proof (cases "0x70000000 \<le> y")
    case True
    then have "unat (y - 0x70000000) = unat y - 0x70000000" by (simp add: unat_sub)
    with True show ?thesis
      unfolding word_less_nat_alt bo word_le_nat_alt
      by (simp add: div_less_iff_less_mult) arith
  next
    case False
    then show ?thesis unfolding word_le_nat_alt by simp
  qed
  have high_block: "copy_field (base + block_offset (?i - 896)) y 20 0 = base + (y - 0x70000000)"
    if "0x70000000 \<le> y"
  proof -
    have u: "unat (y - 0x70000000) = unat y - 0x70000000" using that by (simp add: unat_sub)
    then have i: "unat (y - 0x70000000) div 0x200000 = ?i - 896" by simp
    have "(unat y - 0x70000000) mod 0x200000 = unat y mod 0x200000"
      using that mod_mult_self2 [of "unat y - 0x70000000" "0x200000" 896]
      by (simp add: word_le_nat_alt)
    then have "take_bit 21 (y - 0x70000000) = take_bit 21 y"
      by (simp only: word_unat_eq_iff unat_take_bit_21 u)
    then have "copy_field a y 20 0 = copy_field a (y - 0x70000000) 20 0" if "aligned 21 a" for a
      by (simp add: copy_field_block that)
    with block_output_low [OF assms(1), of "y - 0x70000000"] i show ?thesis
      by (simp add: aligned_add assms(1) block_offset_aligned)
  qed
  have "0x70000000 \<le> y" if "896 \<le> ?i"
    using that by (simp add: word_le_nat_alt less_eq_div_iff_mult_less_eq)
  then show ?thesis
    using high_block block_output_low [OF assms(1), of y]
    unfolding low high
    by (auto simp: stage2_lookup_def l2_index_ucast stage2_blocks_l2 assms(2) high)
qed

definition static_stage2 :: "u32 \<Rightarrow> nat \<Rightarrow> u32 \<Rightarrow> u32 \<Rightarrow> u32 \<Rightarrow> u32 \<Rightarrow> u32 \<Rightarrow> stage2" where
  "static_stage2 base n u t0 t2 v bh = map_devices u t0 t2 v bh (stage2_blocks base n stage2_empty)"

lemma static_stage2_lookup:
  assumes "aligned 21 base" and "n \<le> 128"
  shows "stage2_lookup (static_stage2 base n u t0 t2 v bh) y
    = static_lookup base (block_offset n) (device_page u t0 t2 v bh) y"
proof -
  have nb: "no_block i (stage2_blocks base n stage2_empty)" if "i \<in> {128, 240, 256}" for i
    using that assms(2) by (auto simp: no_block_def stage2_blocks_l2)
  have bo: "unat (block_offset n) \<le> 0x10000000" using assms(2) by (simp add: unat_block_offset)
  have low: "device_page u t0 t2 v bh (unat y div 0x1000) = None" if "y < block_offset n"
  proof -
    have "unat y div 0x1000 < 0x10000"
      using that bo by (simp add: word_less_nat_alt div_less_iff_less_mult)
    then show ?thesis by (simp add: device_page_def)
  qed
  have high: "device_page u t0 t2 v bh (unat y div 0x1000) = None" if "0x70000000 \<le> y"
  proof -
    have "0x70000 \<le> unat y div 0x1000"
      using that by (simp add: word_le_nat_alt less_eq_div_iff_mult_less_eq)
    then show ?thesis by (simp add: device_page_def)
  qed
  show ?thesis
    unfolding static_stage2_def stage2_lookup_devices [OF stage2_blocks_wf [OF assms(2)] nb nb nb, simplified]
      blocks_lookup [OF assms]
    using low high by (auto simp: static_lookup_def split: option.split)
qed

lemma map_block_refines:
  assumes rel: "pt_rel b s p h"
  shows "pt_rel b (stage2_block (ucast (0x70000000 + off)) (mem_base_pa g + off)
      (stage2_block (ucast off) (mem_base_pa g + off) s)) p (map_block g p off h)
    \<and> touches (pt_area b) h (map_block g p off h)"
proof -
  note r1 = set_block_refines [OF rel, of "ucast off" "mem_base_pa g + off"]
  show ?thesis
    unfolding map_block_def
    by (intro conjI set_block_refines [OF r1] touches_trans [OF set_block_touches [OF rel] set_block_touches [OF r1]])
qed

lemma blocks_refine:
  assumes rel: "pt_rel b s p h"
  shows "pt_rel b (stage2_blocks (mem_base_pa g) n s) p
      (fold (\<lambda>j. map_block g p (block_offset j)) [0..<n] h)
    \<and> touches (pt_area b) h (fold (\<lambda>j. map_block g p (block_offset j)) [0..<n] h)"
proof (induction n)
  case 0
  then show ?case using rel by (simp add: stage2_blocks_def)
next
  case (Suc n)
  have "fold (\<lambda>j. map_block g p (block_offset j)) [0..<Suc n] h
      = map_block g p (block_offset n) (fold (\<lambda>j. map_block g p (block_offset j)) [0..<n] h)"
    by simp
  with map_block_refines [OF conjunct1 [OF Suc], of "block_offset n" g]
    touches_trans [OF conjunct2 [OF Suc]]
  show ?case unfolding stage2_blocks_Suc by metis
qed

lemma init_pt_static_refines:
  assumes reg: "pt_region b pt_slots h" and n: "unat (mem_size g) = n * 0x200000" "n \<le> 128"
  obtains p h' where "guest_rpb_init_pt_static b u t0 t2 v bh g h = Inr (set_vttbr b (g\<lparr>pt := p\<rparr>), h')"
    and "pt_rel b (static_stage2 (mem_base_pa g) n u t0 t2 v bh) p h'"
    and "touches (pt_area b) h h'"
proof -
  obtain p h1 where i: "pagetable_init (ucast b) h = (p, h1)" by fastforce
  have rel: "pt_rel b stage2_empty p h1" using init_refines [OF reg] by (simp add: i)
  have t1: "touches (pt_area b) h h1" using init_touches [OF reg] by (simp add: i)
  let ?h2 = "fold (\<lambda>j. map_block g p (block_offset j)) [0..<n] h1"
  note bl = blocks_refine [OF rel, of g n]
  obtain p' h' where d: "guest_rpb_map_devices u t0 t2 v bh (p, ?h2) = (p', h')" by fastforce
  have "tables (stage2_blocks (mem_base_pa g) n stage2_empty) \<le> 3" by (simp add: stage2_empty_def)
  note dev = map_devices_refines [OF conjunct1 [OF bl] this d]
  have "pt_rel b (static_stage2 (mem_base_pa g) n u t0 t2 v bh) p' h'"
    using dev(1) by (simp add: static_stage2_def)
  moreover have "guest_rpb_map_blocks g p h1 = Some (block_offset n, ?h2)"
    by (rule guest_rpb_map_blocks_eq) (use n in auto)
  moreover have "touches (pt_area b) h h'"
    using touches_trans [OF touches_trans [OF t1 conjunct2 [OF bl]] dev(2)] .
  ultimately show ?thesis
    using d by (intro that) (auto simp: guest_rpb_init_pt_static_def i)
qed

end
