(* ===== verification/Boot_Inv.thy ===== *)
theory Boot_Inv
  imports Static_Map
begin

text \<open>
  What main establishes: it returns, the state it enters the first guest in satisfies the
  invariant of the scheduler, and every guest has the stage 2 table that maps its own
  memory.
\<close>

section \<open>Loading the images\<close>

lemma copy_file_touches:
  assumes "lo + n < 2 ^ 32" and "lo \<le> unat pa" and "unat pa + length fin \<le> lo + n"
  shows "touches (area lo n) h (snd (copy_file fin sz pa h))"
  using assms
proof (induction fin arbitrary: sz pa h)
  case (Cons x fin)
  have "unat (pa + 1) = unat pa + 1"
    using Cons.prems by (simp add: unat_word_ariths)
  with Cons.IH [of "pa + 1" "io_writeb pa x h" "sz + 1"] Cons.prems
  show ?case by (auto intro: touches_trans [OF touches_writeb_area])
qed simp

lemma write_words_touches:
  assumes "lo + n < 2 ^ 32" and "lo \<le> unat pa" and "unat pa + 4 * length ws \<le> lo + n"
  shows "touches (area lo n) h (write_words pa ws h)"
  unfolding write_words_def
proof (rule touches_fold)
  fix i g assume i: "i \<in> set [0..<length ws]"
  have "pa + 4 * of_nat i = of_nat (unat pa + 4 * i)" by simp
  moreover have "unat pa + 4 * i < 2 ^ LENGTH(32)" using assms i by simp
  ultimately have "unat (pa + 4 * of_nat i) = unat pa + 4 * i" by (simp only: unat_of_nat mod_less)
  with assms i show "touches (area lo n) g (io_writew (pa + 4 * of_nat i) (ws ! i) g)"
    by (intro touches_writew_area) simp_all
qed

text \<open>The images fit into the guest's memory above the addresses they are loaded at.\<close>

definition images_fit :: "u8 list \<Rightarrow> u8 list \<Rightarrow> bool" where
  "images_fit zImage initrd \<longleftrightarrow> length zImage \<le> 0x08000000 - 0x00010000
     \<and> length initrd \<le> 0x08000000 - 0x00d00000"

abbreviation ram_area :: "u32 \<Rightarrow> u32 set" where
  "ram_area base \<equiv> area (unat base) 0x08000000"

lemma init_mem_static_touches:
  assumes fit: "images_fit zImage initrd" and base: "unat (mem_base_pa g) \<le> 0x80000000"
    and g: "kernel_base g = 0x00010000" "initrd_base g = 0x00d00000" "atag_base g = 0x00000100"
  shows "touches (ram_area (mem_base_pa g)) h (guest_rpb_init_mem_static zImage initrd g h)"
proof -
  have lt: "unat (mem_base_pa g) + 0x08000000 < 2 ^ 32" using base by simp
  have off: "unat (mem_base_pa g + k) = unat (mem_base_pa g) + unat k" if "unat k < 0x08000000" for k
    using base that by (simp add: unat_word_ariths)
  obtain ks h1 where 1: "copy_file zImage 0 (mem_base_pa g + kernel_base g) h = (ks, h1)" by fastforce
  obtain irs h2 where 2: "copy_file initrd 0 (mem_base_pa g + initrd_base g) h1 = (irs, h2)" by fastforce
  have t1: "touches (ram_area (mem_base_pa g)) h h1"
    using copy_file_touches [OF lt, of "mem_base_pa g + kernel_base g" zImage h 0] fit off g 1
    by (simp add: images_fit_def)
  have t2: "touches (ram_area (mem_base_pa g)) h1 h2"
    using copy_file_touches [OF lt, of "mem_base_pa g + initrd_base g" initrd h1 0] fit off g 2
    by (simp add: images_fit_def)
  have t3: "touches (ram_area (mem_base_pa g)) h2 (write_words (mem_base_pa g) bootloader h2)"
    by (rule write_words_touches [OF lt]) (simp_all add: bootloader_def)
  have t4: "touches (ram_area (mem_base_pa g)) h' (write_words (mem_base_pa g + atag_base g) (atag g irs) h')"
    for h' by (rule write_words_touches [OF lt]) (simp_all add: off g atag_def)
  show ?thesis
    using touches_trans [OF touches_trans [OF touches_trans [OF t1 t2] t3] t4]
    by (simp add: guest_rpb_init_mem_static_def 1 2 Let_def)
qed

section \<open>Building one guest\<close>

text \<open>Guest \<open>i\<close> takes the physical interrupts 40 + i, 44 + i and 48 + i, as 44, 36 and 37.\<close>

definition virqs_ready :: "int \<Rightarrow> guest \<Rightarrow> bool" where
  "virqs_ready i g \<longleftrightarrow> (\<forall>p. p \<noteq> -1 \<longrightarrow> vdev_gic2_dist_irq_to_virq (vdev_gic_dist g) p =
     (if p = 40 + i then 44 else if p = 44 + i then 36 else if p = 48 + i then 37 else -1))"

lemma init_virq_map:
  assumes "\<And>j. j < 64 \<Longrightarrow> virq_pid (virq (vdev_gic_dist g) j) = -1"
    and "u \<noteq> t0" and "u \<noteq> t2" and "t0 \<noteq> t2" and "p \<noteq> -1"
  shows "vdev_gic2_dist_irq_to_virq (vdev_gic_dist (guest_rpb_init_virq u t0 t2 g)) p =
    (if p = u then 44 else if p = t0 then 36 else if p = t2 then 37 else -1)"
proof -
  let ?d = "vdev_gic_dist (guest_rpb_init_virq u t0 t2 g)"
  have pid: "virq_pid (virq ?d j) = (if j = 44 then u else if j = 36 then t0
      else if j = 37 then t2 else -1)" if "j < 64" for j
    using assms(1) [OF that] by (simp add: guest_rpb_init_virq_def vdev_gic2_dist_map_virq_def)
  have own: "vdev_gic2_dist_irq_to_virq ?d p = int i" if "i < 64" "virq_pid (virq ?d i) = p" for i
    using that assms by (intro irq_to_virq_unique) (auto simp: pid split: if_splits)
  show ?thesis
    using own [of 44] own [of 36] own [of 37] assms
    by (auto simp: pid irq_to_virq_none)
qed

definition guest_ready :: "int \<Rightarrow> u32 \<Rightarrow> guest \<Rightarrow> bool" where
  "guest_ready i pt_base g \<longleftrightarrow> valid g \<and> guest_kind g = Realview_PB \<and> guest_id g = i
     \<and> wfi_state (sched g) = WFI_Out \<and> \<not> dirty (bk g)
     \<and> vttbr_lpae (bk_cp15 (bk g)) = ucast pt_base
     \<and> elr_hyp (bk_rf (bk g)) = 0x70000000 \<and> virqs_ready i g
     \<and> dist_base_addr (vdist_sys_gic_dist (vdev_gic_dist g)) = 0x50000000"

text \<open>The map of guest \<open>k\<close>, and the constants of \<open>main\<close> it is made of.\<close>

definition ram_base :: "nat \<Rightarrow> u32" where "ram_base k = 0x10000000 + of_nat k * 0x08000000"
definition pt_base :: "nat \<Rightarrow> u32" where "pt_base k = 0x08000000 + of_nat k * 0x00100000"
definition uart_base :: "nat \<Rightarrow> u32" where "uart_base k = 0x60000000 + of_nat k * 0x1000"
definition timer_0_base :: "nat \<Rightarrow> u32" where "timer_0_base k = 0x60004000 + of_nat k * 0x1000"
definition timer_2_base :: "nat \<Rightarrow> u32" where "timer_2_base k = 0x60008000 + of_nat k * 0x1000"
definition black_hole :: "nat \<Rightarrow> u32" where "black_hole k = 0x90000000 + of_nat k * 0x1000"

definition guest_map :: "nat \<Rightarrow> stage2" where
  "guest_map k = static_stage2 (ram_base k) 64 (uart_base k) (timer_0_base k) (timer_2_base k)
     0x50003000 (black_hole k)"

definition main_guest_k :: "u8 list \<Rightarrow> u8 list \<Rightarrow> nat \<Rightarrow> meteor \<Rightarrow> meteor res" where
  "main_guest_k zImage initrd k = main_guest zImage initrd (int k) (ram_base k) (pt_base k)
     (uart_base k) (timer_0_base k) (timer_2_base k) (black_hole k)
     (40 + int k, 44 + int k, 48 + int k)"

lemma guest_rpb_init_simps:
  "mem_size (guest_rpb_init i base_pa b sz d) = sz" "mem_base_pa (guest_rpb_init i base_pa b sz d) = base_pa"
  "kernel_base (guest_rpb_init i base_pa b sz d) = 0x00010000"
  "initrd_base (guest_rpb_init i base_pa b sz d) = 0x00d00000"
  "atag_base (guest_rpb_init i base_pa b sz d) = 0x00000100"
  "valid (guest_rpb_init i base_pa b sz d)" "guest_kind (guest_rpb_init i base_pa b sz d) = Realview_PB"
  "guest_id (guest_rpb_init i base_pa b sz d) = i"
  "wfi_state (sched (guest_rpb_init i base_pa b sz d)) = WFI_Out"
  "\<not> dirty (bk (guest_rpb_init i base_pa b sz d))"
  "elr_hyp (bk_rf (bk (guest_rpb_init i base_pa b sz d))) = 0x70000000"
  "vdist_sys_gic_dist (vdev_gic_dist (guest_rpb_init i base_pa b sz d)) = d"
  by (simp_all add: guest_rpb_init_def Let_def guest_zero_def vdev_gic2_dist_init_simps)

lemma main_guest_built:
  assumes fit: "images_fit zImage initrd" and reg: "pt_region ptb pt_slots (hw s)"
    and base: "unat base \<le> 0x80000000" and dist: "dist_base_addr (sys_gic_dist s) = 0x50000000"
    and apart: "ram_area base \<inter> pt_area ptb = {}"
  obtains g h where "main_guest zImage initrd i base ptb u t0 t2 bh (40 + i, 44 + i, 48 + i) s
      = Inr (s\<lparr>vm := (vm s)(i := g), hw := h\<rparr>)"
    and "guest_ready i ptb g" and "pt_rel ptb (static_stage2 base 64 u t0 t2 0x50003000 bh) (pt g) h"
    and "touches (pt_area ptb \<union> ram_area base) (hw s) h"
proof -
  let ?g0 = "guest_rpb_init i base 0 (push_bit 20 128) (sys_gic_dist s)"
  have n: "unat (mem_size ?g0) = 64 * 0x200000" "(64 :: nat) \<le> 128"
    by (simp_all add: guest_rpb_init_simps)
  obtain p h1 where st: "guest_rpb_init_pt_static ptb u t0 t2 0x50003000 bh ?g0 (hw s)
      = Inr (set_vttbr ptb (?g0\<lparr>pt := p\<rparr>), h1)"
    and rel: "pt_rel ptb (static_stage2 (mem_base_pa ?g0) 64 u t0 t2 0x50003000 bh) p h1"
    and t1: "touches (pt_area ptb) (hw s) h1"
    by (rule init_pt_static_refines [OF reg n, of u t0 t2 "0x50003000" bh]) blast
  let ?g1 = "set_vttbr ptb (?g0\<lparr>pt := p\<rparr>)"
  have g1: "mem_base_pa ?g1 = base" "kernel_base ?g1 = 0x00010000" "initrd_base ?g1 = 0x00d00000"
    "atag_base ?g1 = 0x00000100" "pt ?g1 = p"
    by (simp_all add: set_vttbr_def guest_rpb_init_simps)
  let ?h2 = "guest_rpb_init_mem_static zImage initrd ?g1 h1"
  have t2: "touches (ram_area base) h1 ?h2"
    using init_mem_static_touches [OF fit, of ?g1] g1 base by simp
  let ?g2 = "guest_rpb_init_virq (40 + i) (44 + i) (48 + i) ?g1"
  show ?thesis
  proof (rule that [of ?h2 ?g2])
    show "main_guest zImage initrd i base ptb u t0 t2 bh (40 + i, 44 + i, 48 + i) s = Inr (s\<lparr>vm := (vm s)(i := ?g2), hw := ?h2\<rparr>)"
      by (simp only: main_guest_def Let_def st bindR.simps prod.case)
    have "virq_pid (virq (vdev_gic_dist ?g1) j) = -1" if "j < 64" for j
      using vdev_gic2_dist_init_virq [OF that]
      by (simp add: set_vttbr_def guest_rpb_init_def Let_def)
    then have "virqs_ready i ?g2" by (simp add: virqs_ready_def init_virq_map)
    then show "guest_ready i ptb ?g2"
      using dist by (simp add: guest_ready_def guest_rpb_init_virq_def vdev_gic2_dist_map_virq_def Let_def set_vttbr_def guest_rpb_init_simps)
    show "pt_rel ptb (static_stage2 base 64 u t0 t2 0x50003000 bh) (pt ?g2) ?h2"
      using pt_rel_touch [OF rel t2 apart] g1(5)
      by (simp add: guest_rpb_init_simps guest_rpb_init_virq_def Let_def)
    show "touches (pt_area ptb \<union> ram_area base) (hw s) ?h2"
      using touches_trans [OF touches_mono [OF t1] touches_mono [OF t2]] by auto
  qed
qed

section \<open>Building the four guests\<close>

lemma bases:
  assumes "k < 4"
  shows "unat (ram_base k) = 0x10000000 + k * 0x08000000" "unat (pt_base k) = 0x08000000 + k * 0x00100000"
    "aligned 21 (ram_base k)"
proof -
  have "k = 0 \<or> k = 1 \<or> k = 2 \<or> k = 3" using assms by linarith
  then show "unat (ram_base k) = 0x10000000 + k * 0x08000000" "unat (pt_base k) = 0x08000000 + k * 0x00100000"
    "aligned 21 (ram_base k)"
    by (auto simp: ram_base_def pt_base_def aligned_def)
qed

lemma areas_apart:
  assumes "j < 4" and "k < 4"
  shows "ram_area (ram_base k) \<inter> pt_area (pt_base j) = {}"
    and "j \<noteq> k \<Longrightarrow> pt_area (pt_base k) \<inter> pt_area (pt_base j) = {}"
proof -
  show "ram_area (ram_base k) \<inter> pt_area (pt_base j) = {}"
    using assms by (auto simp: area_def bases)
  show "pt_area (pt_base k) \<inter> pt_area (pt_base j) = {}" if "j \<noteq> k"
    using assms that by (auto simp: area_def bases)
qed

text \<open>The hypervisor's state apart from the guests and the machine.\<close>

definition same_sys :: "meteor \<Rightarrow> meteor \<Rightarrow> bool" where
  "same_sys s s' \<longleftrightarrow> s' = s\<lparr>vm := vm s', hw := hw s'\<rparr>"

lemma same_sys_trans: "same_sys s t \<Longrightarrow> same_sys t u \<Longrightarrow> same_sys s u"
  unfolding same_sys_def by (cases s; cases t; cases u) simp

definition built :: "nat \<Rightarrow> meteor \<Rightarrow> bool" where
  "built k s \<longleftrightarrow> dist_base_addr (sys_gic_dist s) = 0x50000000 \<and> (\<forall>j < 4. pt_region (pt_base j) pt_slots (hw s))
     \<and> (\<forall>j < k. guest_ready (int j) (pt_base j) (vm s (int j))
          \<and> pt_rel (pt_base j) (guest_map j) (pt (vm s (int j))) (hw s))"

lemma main_guest_step:
  assumes fit: "images_fit zImage initrd" and b: "built k s" and k: "k < 4"
  obtains s' where "main_guest_k zImage initrd k s = Inr s'" and "built (Suc k) s'" and "same_sys s s'"
proof -
  have reg: "pt_region (pt_base k) pt_slots (hw s)" using b k by (simp add: built_def)
  have base: "unat (ram_base k) \<le> 0x80000000" using k by (simp add: bases)
  have dist: "dist_base_addr (sys_gic_dist s) = 0x50000000" using b by (simp add: built_def)
  obtain g h where r: "main_guest_k zImage initrd k s = Inr (s\<lparr>vm := (vm s)(int k := g), hw := h\<rparr>)"
    and g: "guest_ready (int k) (pt_base k) g" and rel: "pt_rel (pt_base k) (guest_map k) (pt g) h"
    and t: "touches (pt_area (pt_base k) \<union> ram_area (ram_base k)) (hw s) h"
    unfolding main_guest_k_def guest_map_def
    by (rule main_guest_built [OF fit reg base dist areas_apart(1) [OF k k]])
  let ?s' = "s\<lparr>vm := (vm s)(int k := g), hw := h\<rparr>"
  have "pt_region (pt_base j) pt_slots h" if "j < 4" for j
    using pt_region_dev [OF touches_dev [OF t]] b that by (simp add: built_def)
  moreover have "pt_rel (pt_base j) (guest_map j) (pt (vm s (int j))) h" if "j < k" for j
    using pt_rel_touch [OF _ t, of "pt_base j"] b that k areas_apart [of j k]
    by (simp add: built_def Int_Un_distrib2)
  ultimately have "built (Suc k) ?s'"
    using b g rel by (auto simp: built_def less_Suc_eq)
  then show ?thesis using r by (intro that) (auto simp: same_sys_def)
qed

lemma main_guests:
  assumes fit: "images_fit zImage initrd" and b: "built 0 s"
  obtains s1 s2 s3 s4 where "main_guest_k zImage initrd 0 s = Inr s1"
    "main_guest_k zImage initrd 1 s1 = Inr s2" "main_guest_k zImage initrd 2 s2 = Inr s3"
    "main_guest_k zImage initrd 3 s3 = Inr s4" "built 4 s4" "same_sys s s4"
proof -
  obtain s1 where 1: "main_guest_k zImage initrd 0 s = Inr s1" "built 1 s1" "same_sys s s1"
    using main_guest_step [OF fit b] by auto
  obtain s2 where 2: "main_guest_k zImage initrd 1 s1 = Inr s2" "built 2 s2" "same_sys s1 s2"
    using main_guest_step [OF fit 1(2)] by (auto simp: numeral_2_eq_2)
  obtain s3 where 3: "main_guest_k zImage initrd 2 s2 = Inr s3" "built 3 s3" "same_sys s2 s3"
    using main_guest_step [OF fit 2(2)] by (auto simp: numeral_3_eq_3)
  obtain s4 where 4: "main_guest_k zImage initrd 3 s3 = Inr s4" "built 4 s4" "same_sys s3 s4"
    using main_guest_step [OF fit 3(2)] by (auto simp: eval_nat_numeral)
  from 1(3) 2(3) 3(3) 4(3) have "same_sys s s4" by (blast intro: same_sys_trans)
  with 1(1) 2(1) 3(1) 4(1,2) show ?thesis by (rule that)
qed

lemma main_eq:
  "main zImage initrd s =
     bindR (meteor_devices_init s) (\<lambda>s.
     bindR (main_guest_k zImage initrd 0 (s\<lparr>hw := meteor_cp15_init (hw s)\<rparr>)) (\<lambda>s.
     bindR (main_guest_k zImage initrd 1 s) (\<lambda>s.
     bindR (main_guest_k zImage initrd 2 s) (\<lambda>s.
     bindR (main_guest_k zImage initrd 3 s) (\<lambda>s.
     bindR (restore_vm 0 0 s) (\<lambda>s.
     Inr (scheduler_reset_timer (scheduler_leave_idle s))))))))"
  by (simp add: main_def main_guest_k_def ram_base_def pt_base_def uart_base_def timer_0_base_def
      timer_2_base_def black_hole_def Let_def)

section \<open>The devices\<close>

lemma io_write_dev [hw_simps]:
  "dev (io_writeb a v8 h) = dev h" "dev (io_writeh a v16 h) = dev h"
  by (simp_all add: io_writeb_def io_writeh_def)

text \<open>A run of setters keeps the addresses of the timer and the devices.\<close>

definition timer_keeps :: "dev_timer \<times> machine \<Rightarrow> dev_timer \<times> machine \<Rightarrow> bool" where
  "timer_keeps p q \<longleftrightarrow> load (fst q) = load (fst p) \<and> int_clear (fst q) = int_clear (fst p)
     \<and> dev (snd q) = dev (snd p)"

lemma timer_keepsI:
  "timer_keeps (t, h) (dev_timer_set_wrapping t n b h)" "timer_keeps (t, h) (dev_timer_set_size t n k h)"
  "timer_keeps (t, h) (dev_timer_set_prescale t n k h)" "timer_keeps (t, h) (dev_timer_set_interrupt t n b h)"
  "timer_keeps (t, h) (dev_timer_set_mode t n m h)" "timer_keeps (t, h) (dev_timer_set_enable t n b h)"
  by (simp_all add: timer_keeps_def dev_timer_setters dev_timer_update_def hw_simps)

lemma timer_keeps_trans: "timer_keeps p q \<Longrightarrow> timer_keeps q r \<Longrightarrow> timer_keeps p r"
  by (simp add: timer_keeps_def)

lemma timer_keeps_case:
  "timer_keeps p q \<Longrightarrow> (\<And>t h. timer_keeps p (t, h) \<Longrightarrow> timer_keeps p (f t h)) \<Longrightarrow>
     timer_keeps p (case q of (t, h) \<Rightarrow> f t h)"
  by (cases q) simp

lemma dev_timer_init_load:
  "load (fst (dev_timer_init me base h)) 0 = base" "dev (snd (dev_timer_init me base h)) = dev h"
  "int_clear (fst (dev_timer_init me base h)) 0 = base + 0xC"
proof -
  have "timer_keeps p (fold (\<lambda>i (me, h).
       let (me, h) = dev_timer_set_wrapping me i False h;
           (me, h) = dev_timer_set_size me i 32 h;
           (me, h) = dev_timer_set_prescale me i 1 h;
           (me, h) = dev_timer_set_interrupt me i False h;
           (me, h) = dev_timer_set_mode me i TimerMode_Period h
       in dev_timer_set_enable me i False h) ks p)" for p ks
  proof (induction ks arbitrary: p)
    case (Cons k ks)
    have "timer_keeps p (case p of (me, h) \<Rightarrow>
       let (me, h) = dev_timer_set_wrapping me k False h;
           (me, h) = dev_timer_set_size me k 32 h;
           (me, h) = dev_timer_set_prescale me k 1 h;
           (me, h) = dev_timer_set_interrupt me k False h;
           (me, h) = dev_timer_set_mode me k TimerMode_Period h
       in dev_timer_set_enable me k False h)"
      unfolding Let_def
      by (intro timer_keeps_case timer_keeps_trans [OF _ timer_keepsI(1)]
          timer_keeps_trans [OF _ timer_keepsI(2)] timer_keeps_trans [OF _ timer_keepsI(3)]
          timer_keeps_trans [OF _ timer_keepsI(4)] timer_keeps_trans [OF _ timer_keepsI(5)]
          timer_keeps_trans [OF _ timer_keepsI(6)]) (simp_all add: timer_keeps_def)
    then show ?case using Cons timer_keeps_trans by simp
  qed (simp add: timer_keeps_def)
  then show "load (fst (dev_timer_init me base h)) 0 = base" "dev (snd (dev_timer_init me base h)) = dev h"
    "int_clear (fst (dev_timer_init me base h)) 0 = base + 0xC"
    by (simp_all add: dev_timer_init_def Let_def timer_keeps_def)
qed

lemma meteor_init_timer_keeps:
  "load (sys_timer (meteor_init_timer s)) 0 = 0x50005000
   \<and> int_clear (sys_timer (meteor_init_timer s)) 0 = 0x5000500C
   \<and> sys_gic_cpu_if (meteor_init_timer s) = sys_gic_cpu_if s
   \<and> sys_gic_dist (meteor_init_timer s) = sys_gic_dist s \<and> dev (hw (meteor_init_timer s)) = dev (hw s)
   \<and> sys_gic_vctrl (meteor_init_timer s) = sys_gic_vctrl s
   \<and> sys_gic_vcpu_if (meteor_init_timer s) = sys_gic_vcpu_if s
   \<and> sys_mem_allocator (meteor_init_timer s) = sys_mem_allocator s"
proof -
  let ?p = "dev_timer_init (sys_timer s) 0x50005000 (hw s)"
  have "timer_keeps ?p (case ?p of (t, h) \<Rightarrow>
      let (t, h) = dev_timer_set_wrapping t 0 False h;
          (t, h) = dev_timer_set_size t 0 32 h;
          (t, h) = dev_timer_set_prescale t 0 1 h;
          (t, h) = dev_timer_set_mode t 0 TimerMode_Period h;
          (t, h) = dev_timer_set_interrupt t 0 True h
      in dev_timer_set_enable t 0 True h)" (is "timer_keeps _ ?q")
    unfolding Let_def
    by (intro timer_keeps_case timer_keeps_trans [OF _ timer_keepsI(1)]
        timer_keeps_trans [OF _ timer_keepsI(2)] timer_keeps_trans [OF _ timer_keepsI(3)]
        timer_keeps_trans [OF _ timer_keepsI(4)] timer_keeps_trans [OF _ timer_keepsI(5)]
        timer_keeps_trans [OF _ timer_keepsI(6)]) (simp_all add: timer_keeps_def)
  then have "load (fst ?q) 0 = 0x50005000" "int_clear (fst ?q) 0 = 0x5000500C" "dev (snd ?q) = dev (hw s)"
    by (simp_all add: timer_keeps_def dev_timer_init_load)
  moreover have "meteor_init_timer s = s\<lparr>sys_timer := fst ?q, hw := snd ?q\<rparr>"
    unfolding meteor_init_timer_def Let_def by (simp add: case_prod_beta)
  ultimately show ?thesis by simp
qed

lemma clear_list_dev: "dev (dev_gic2_vctrl_clear_list me h) = dev h"
  unfolding dev_gic2_vctrl_clear_list_def
  by (rule fold_observe) (simp add: dev_gic2_vctrl_write_list_def Let_def hw_simps)

lemma set_target_dev: "dev_gic2_dist_set_target me 0 h = Inr h' \<Longrightarrow> dev h' = dev h"
  unfolding dev_gic2_dist_set_target_def
  by (auto intro!: fold_observe simp: hw_simps)

lemma uart_init_dev: "dev (snd (dev_uart_init me base h)) = dev h"
  by (simp add: dev_uart_init_def Let_def dev_uart_disable_def dev_uart_enalbe_def hw_simps)

lemma meteor_devices_init_ok:
  obtains s' where "meteor_devices_init s = Inr s'" and "dev (hw s') = dev (hw s)"
    and "load (sys_timer s') 0 = 0x50005000" and "vctrl_base_addr (sys_gic_vctrl s') = 0x50002000"
    and "vcpu_if_base_address (sys_gic_vcpu_if s') = 0x50003000"
    and "sys_mem_allocator s' = memory_allocator_init (sys_mem_allocator s) 0x10000000"
    and "int_clear (sys_timer s') 0 = 0x5000500C" and "cpu_if_base_addr (sys_gic_cpu_if s') = 0x50001000"
    and "dist_base_addr (sys_gic_dist s') = 0x50000000"
proof -
  obtain u h1 where u: "dev_uart_init (sys_uart s) 0x50004000 (hw s) = (u, h1)" by fastforce
  have "dev h1 = dev (hw s)"
    using uart_init_dev [of "sys_uart s" "0x50004000" "hw s"] by (simp add: u)
  obtain h2 where t: "dev_gic2_dist_set_target \<lparr>dist_base_addr = 0x50000000\<rparr> 0 h1 = Inr h2"
    by (simp add: dev_gic2_dist_set_target_def)
  have h2: "dev h2 = dev (hw s)" using set_target_dev [OF t] \<open>dev h1 = _\<close> by simp
  define dist where "dist = \<lparr>dist_base_addr = 0x50000000\<rparr>"
  define h3 where "h3 = dev_gic2_vctrl_set_enable (dev_gic2_vctrl_init 0x50002000) True
    (dev_gic2_vctrl_clear_list (dev_gic2_vctrl_init 0x50002000)
      (dev_gic2_cpu_if_set_enable (dev_gic2_cpu_if_init 0x50001000) True
        (dev_gic2_dist_set_enable dist True (dev_gic2_dist_set_enable dist False h2))))"
  define s1 where "s1 = s\<lparr>sys_uart := u, sys_semihost := dev_semihost_init 0x70800000, hw := h3,
    sys_gic_dist := dist, sys_gic_cpu_if := dev_gic2_cpu_if_init 0x50001000,
    sys_gic_vctrl := dev_gic2_vctrl_init 0x50002000,
    sys_gic_vcpu_if := dev_gic2_vcpu_if_init 0x50003000\<rparr>"
  have h3: "dev h3 = dev (hw s)"
    by (simp add: h3_def h2 clear_list_dev hw_simps dev_gic2_dist_set_enable_def
        dev_gic2_cpu_if_set_enable_def dev_gic2_vctrl_set_enable_def)
  have "meteor_devices_init s = Inr ((meteor_init_timer s1)
      \<lparr>sys_ctrl := dev_sys_ctrl_init 0x50007000 0x50008000,
       sys_mem_allocator := memory_allocator_init (sys_mem_allocator (meteor_init_timer s1)) 0x10000000,
       sys_monitor := monitor_reset (sys_monitor (meteor_init_timer s1))\<rparr>)"
    by (simp add: meteor_devices_init_def Let_def u dev_gic2_dist_init_def t s1_def h3_def dist_def)
  then show ?thesis
    by (rule that)
      (use meteor_init_timer_keeps [of s1] h3 in \<open>simp_all add: s1_def dev_gic2_vctrl_init_def
        dev_gic2_vcpu_if_init_def dev_gic2_cpu_if_init_def dist_def\<close>)
qed

section \<open>Entering a guest\<close>

text \<open>
  What the hypervisor stores to after boot: its devices, and the registers that a trap pushed
  below the top of its stack, \<open>STACK_HYP_BASE\<close> of boot/include/asm.inc.
\<close>

definition hyp_stack :: u32 where "hyp_stack = 0x06000000"

abbreviation device_area :: "u32 set" where
  "device_area \<equiv> area 0x50000000 0x10000"

abbreviation stack_area :: "u32 set" where
  "stack_area \<equiv> area 0x05FFFFC8 56"

definition handler_area :: "u32 set" where
  "handler_area = device_area \<union> stack_area"

lemma handler_area_apart: "j < 4 \<Longrightarrow> handler_area \<inter> pt_area (pt_base j) = {}"
  by (auto simp: handler_area_def area_def bases)

lemma touches_device_writew:
  "0x50000000 \<le> unat a \<Longrightarrow> unat a < 0x5000FFFD \<Longrightarrow> touches handler_area h (io_writew a v h)"
  unfolding handler_area_def
  by (rule touches_mono [OF touches_writew_area [of "0x50000000" "0x10000"]]) simp_all

lemma unat_stack_slot: "k < 14 \<Longrightarrow> unat (stack_slot hyp_stack k) = 0x05FFFFC8 + 4 * k"
proof -
  assume k: "k < 14"
  have "stack_slot hyp_stack k = of_nat (0x05FFFFC8 + 4 * k)"
    by (simp add: stack_slot_def hyp_stack_def algebra_simps)
  moreover have "0x05FFFFC8 + 4 * k < 2 ^ LENGTH(32)" using k by simp
  ultimately show ?thesis by (simp only: unat_of_nat mod_less)
qed

lemma touches_stack_slot:
  "k < 14 \<Longrightarrow> touches handler_area h (io_writew (stack_slot hyp_stack k) v h)"
  unfolding handler_area_def
  by (rule touches_mono [OF touches_writew_area [of "0x05FFFFC8" 56]]) (simp_all add: unat_stack_slot)

text \<open>The addresses the handlers use.\<close>

definition devs_ok :: "meteor \<Rightarrow> bool" where
  "devs_ok s \<longleftrightarrow> vctrl_base_addr (sys_gic_vctrl s) = 0x50002000
     \<and> vcpu_if_base_address (sys_gic_vcpu_if s) = 0x50003000
     \<and> cpu_if_base_addr (sys_gic_cpu_if s) = 0x50001000
     \<and> load (sys_timer s) 0 = 0x50005000 \<and> int_clear (sys_timer s) 0 = 0x5000500C
     \<and> (\<forall>i. 0 \<le> i \<and> i < 4 \<longrightarrow> dist_base_addr (vdist_sys_gic_dist (vdev_gic_dist (vm s i))) = 0x50000000)"

lemma list_write_touches:
  assumes "vctrl_base_addr gic = 0x50002000" and "n < 64"
  shows "touches handler_area h (dev_gic2_vctrl_write_list_simple gic n v h)"
proof -
  have "unat (0x50002000 + 0x100 + of_nat n * 4 :: u32) = 0x50002100 + n * 4"
    using assms(2) by (simp add: unat_word_ariths unat_of_nat)
  then show ?thesis
    unfolding dev_gic2_vctrl_write_list_simple_def assms(1)
    using assms(2) by (intro touches_device_writew) simp_all
qed

lemma restore_vm_effect:
  assumes "\<not> dirty_of s i" and r: "restore_vm i sp s = Inr s'" and sp: "sp = 0 \<or> sp = hyp_stack"
    and gic: "vctrl_base_addr (sys_gic_vctrl s) = 0x50002000"
    and vc: "vcpu_if_base_address (sys_gic_vcpu_if s) = 0x50003000"
  shows "touches handler_area (hw s) (hw s')"
    and "cp15_64 (hw s') (2, 6) = set_field64 (vttbr_lpae (bk_cp15 (bk (vm s i)))) 55 48
      (word_of_int (guest_id (vm s i)))"
proof -
  let ?g = "vm s i" let ?rf = "bk_rf (bk ?g)"
  let ?h0 = "restore_pushed sp ?rf (hw s)"
  let ?h1 = "guest_restore_cp15 ?g (restore_banked ?rf ?h0)"
  let ?h2 = "io_writew 0x50003000 (ctlr (bk_vcpu_if (bk ?g))) ?h1"
  let ?h3 = "guest_restore_list (sys_gic_vctrl s) ?g ?h2"
  have hw: "hw s' = cp15_write64 VTTBR_LPAE_VMID (word_of_int (guest_id ?g)) ?h3"
    using r assms(1) vc
    by (auto simp: restore_vm_def guest_restore_def guest_restore_rf_eq Let_def
        guest_restore_gic2_vcpu_if_def dev_gic2_vcpu_if_write_ctlr_def bindR_eq_Inr)
  have 0: "touches handler_area (hw s) ?h0"
    unfolding restore_pushed_def
  proof (cases "sp = 0")
    case False
    then have "sp = hyp_stack" using sp by simp
    have "touches handler_area (hw s) (restore_cells (\<lambda>k. io_writew (stack_slot sp k)) 14 (pushed_rf ?rf) (hw s))"
      by (rule restore_cells_keeps)
        (auto simp: \<open>sp = hyp_stack\<close> intro: touches_trans touches_stack_slot)
    then show "touches handler_area (hw s) (if sp = 0 then hw s
        else restore_cells (\<lambda>k. io_writew (stack_slot sp k)) 14 (pushed_rf ?rf) (hw s))" by simp
  qed simp
  have 1: "touches handler_area ?h0 ?h1"
    by (rule touches_same) (simp_all add: guest_restore_cp15_def Let_def hw_simps restore_banked_def)
  have 2: "touches handler_area ?h1 ?h2" by (rule touches_device_writew) simp_all
  have 3: "touches handler_area ?h2 ?h3"
    unfolding guest_restore_list_def
    by (rule restore_cells_keeps) (auto intro: touches_trans list_write_touches [OF gic])
  have "mem (hw s') = mem ?h3" "dev (hw s') = dev ?h3" by (simp_all add: hw hw_simps)
  with touches_trans [OF touches_trans [OF touches_trans [OF 0 1] 2] 3]
  show "touches handler_area (hw s) (hw s')" by (simp add: touches_def)
  have "cp15_64 ?h3 (2, 6) = vttbr_lpae (bk_cp15 (bk ?g))"
    using arg_cong [where f = vttbr_lpae, OF cp15_snapshot_restore [of ?g "restore_banked ?rf ?h0"]]
    by (simp add: restore_list_frame hw_simps cp15_snapshot_def cp15_read64_vttbr)
  then show "cp15_64 (hw s') (2, 6) = set_field64 (vttbr_lpae (bk_cp15 (bk ?g))) 55 48
      (word_of_int (guest_id ?g))"
    by (simp add: hw cp15_write64_vttbr_vmid)
qed

text \<open>The table of a guest, in \<open>VTTBR\<close> while it runs and in its backup while it does not.\<close>

definition table_of :: "u64 \<Rightarrow> u64" where
  "table_of v = get_field64 v 39 0"

definition vttbr_ok :: "meteor \<Rightarrow> bool" where
  "vttbr_ok s \<longleftrightarrow> (\<forall>i. 0 \<le> i \<and> i < 4 \<longrightarrow> table_of (if dirty_of s i then cp15_64 (hw s) (2, 6)
     else vttbr_lpae (bk_cp15 (bk (vm s i)))) = ucast (pt_base (nat i)))"

lemma table_of_vmid: "table_of (set_field64 v 55 48 w) = table_of v"
  unfolding table_of_def by (intro bit_word_eqI) (auto simp: field_simps32 bit_simps)

lemma table_of_ucast: "table_of (ucast (b :: u32)) = ucast b"
  unfolding table_of_def
  by (intro bit_word_eqI) (auto simp: field_simps32 bit_simps dest: bit_imp_le_length)

theorem main_boots:
  assumes fit: "images_fit zImage initrd" and reg: "\<forall>j < 4. pt_region (pt_base j) pt_slots (hw s)"
  obtains s' where "main zImage initrd s = Inr s'" and "run_inv s'" and "vm_id s' = 0"
    and "\<not> scheduler_idle s'"
    and "\<And>j. j < 4 \<Longrightarrow> pt_rel (pt_base j) (guest_map j) (pt (vm s' (int j))) (hw s')"
    and "\<And>i. 0 \<le> i \<Longrightarrow> i < 4 \<Longrightarrow> virqs_ready i (vm s' i)"
    and "devs_ok s'" and "vttbr_ok s'"
proof -
  obtain s1 where 1: "meteor_devices_init s = Inr s1" "dev (hw s1) = dev (hw s)"
    "load (sys_timer s1) 0 = 0x50005000" "vctrl_base_addr (sys_gic_vctrl s1) = 0x50002000"
    "vcpu_if_base_address (sys_gic_vcpu_if s1) = 0x50003000"
    "int_clear (sys_timer s1) 0 = 0x5000500C" "cpu_if_base_addr (sys_gic_cpu_if s1) = 0x50001000"
    "dist_base_addr (sys_gic_dist s1) = 0x50000000"
    by (rule meteor_devices_init_ok)
  let ?s1 = "s1\<lparr>hw := meteor_cp15_init (hw s1)\<rparr>"
  have "dev (hw ?s1) = dev (hw s)"
    by (simp add: meteor_cp15_init_def Let_def hw_simps 1(2))
  then have "built 0 ?s1" using reg pt_region_dev [of "hw ?s1" "hw s"] 1 by (simp add: built_def)
  from main_guests [OF fit this] obtain s2 s3 s4 s5 where
    g: "main_guest_k zImage initrd 0 ?s1 = Inr s2" "main_guest_k zImage initrd 1 s2 = Inr s3"
      "main_guest_k zImage initrd 2 s3 = Inr s4" "main_guest_k zImage initrd 3 s4 = Inr s5"
    and b: "built 4 s5" and same: "same_sys ?s1 s5" by blast
  have sys: "sys_timer s5 = sys_timer s1" "sys_gic_vctrl s5 = sys_gic_vctrl s1"
    "sys_gic_vcpu_if s5 = sys_gic_vcpu_if s1" "sys_gic_cpu_if s5 = sys_gic_cpu_if s1"
    using same unfolding same_sys_def by (cases s5; simp)+
  have ready: "guest_ready i (pt_base (nat i)) (vm s5 i)" if "0 \<le> i" "i < 4" for i
    using b that unfolding built_def by (metis nat_0_le nat_less_numeral_power_cancel_iff
      nat_less_iff of_nat_numeral)
  then have clean: "\<not> dirty_of s5 0" by (simp add: guest_ready_def)
  obtain h' where r: "restore_vm 0 0 s5 = Inr (upd_vm 0 (\<lambda>g. g\<lparr>bk := (bk g)\<lparr>dirty := True\<rparr>\<rparr>)
      (s5\<lparr>hw := h', vm_id := guest_id (vm s5 0)\<rparr>))"
    by (rule restore_vm_total [OF clean, of 0])
  let ?s6 = "upd_vm 0 (\<lambda>g. g\<lparr>bk := (bk g)\<lparr>dirty := True\<rparr>\<rparr>) (s5\<lparr>hw := h', vm_id := guest_id (vm s5 0)\<rparr>)"
  let ?s' = "scheduler_reset_timer (scheduler_leave_idle ?s6)"
  have gic: "vctrl_base_addr (sys_gic_vctrl s5) = 0x50002000"
    "vcpu_if_base_address (sys_gic_vcpu_if s5) = 0x50003000" using sys 1 by simp_all
  have t6: "touches handler_area (hw s5) h'"
    and v6: "table_of (cp15_64 h' (2, 6)) = ucast (pt_base 0)"
    using restore_vm_effect [OF clean r _ gic] ready [of 0]
    by (simp_all add: table_of_vmid table_of_ucast guest_ready_def)
  have "hw ?s' = io_writew 0x50005000 vm_switch_ms h'"
    by (simp add: scheduler_reset_timer_def scheduler_leave_idle_def dev_timer_set_load_def sys 1)
  then have t: "touches handler_area (hw s5) (hw ?s')"
    and v: "cp15_64 (hw ?s') = cp15_64 h'"
    using touches_trans [OF t6 touches_device_writew [of "0x50005000"]] by (simp_all add: hw_simps)
  show ?thesis
  proof (rule that)
    show "main zImage initrd s = Inr ?s'" by (simp only: main_eq 1(1) g r bindR.simps)
    show "vm_id ?s' = 0" using ready [of 0] by (simp add: guest_ready_def)
    show "run_inv ?s'"
      using ready by (auto simp: run_inv_def sched_pre_def guests_ok_def guest_ready_def)
    show "\<not> scheduler_idle ?s'" by simp
    have vm: "vm ?s' i = (vm s5 i)\<lparr>bk := (bk (vm s5 i))\<lparr>dirty := i = 0\<rparr>\<rparr>" if "0 \<le> i" "i < 4" for i
      using ready [OF that] by (auto simp: guest_ready_def)
    show "devs_ok ?s'"
      using ready vm sys 1 by (simp add: devs_ok_def guest_ready_def scheduler_reset_timer_def
          scheduler_leave_idle_def)
    show "vttbr_ok ?s'"
      using ready vm v v6 by (auto simp: vttbr_ok_def guest_ready_def table_of_ucast)
    show "virqs_ready i (vm ?s' i)" if "0 \<le> i" "i < 4" for i
    proof -
      have e: "vdev_gic_dist (vm ?s' i) = vdev_gic_dist (vm s5 i)" by simp
      from ready [OF that] have "virqs_ready i (vm s5 i)" by (simp add: guest_ready_def)
      then show ?thesis unfolding virqs_ready_def e .
    qed
    show "pt_rel (pt_base j) (guest_map j) (pt (vm ?s' (int j))) (hw ?s')" if "j < 4" for j
    proof -
      have e: "pt (vm ?s' (int j)) = pt (vm s5 (int j))" by (simp add: scheduler_leave_idle_def)
      have "pt_rel (pt_base j) (guest_map j) (pt (vm s5 (int j))) (hw s5)"
        using b that by (simp add: built_def)
      from pt_rel_touch [OF this t handler_area_apart [OF that]] show ?thesis unfolding e .
    qed
  qed
qed

end
