(* ===== verification/Isolation.thy ===== *)
theory Isolation
  imports Boot_Inv
begin

text \<open>
  What the guests that main builds can reach through their stage 2 tables, and what a
  data abort adds to it.
\<close>

section \<open>The pages a guest reaches\<close>

definition page_no :: "u32 \<Rightarrow> nat" where
  "page_no p = unat p div 0x1000"

lemma page_no_copy [simp]: "page_no (copy_field pa y 11 0) = page_no pa"
proof -
  have "drop_bit 12 (copy_field pa y 11 0) = drop_bit 12 pa"
    by (intro bit_word_eqI) (auto simp: field_simps32 bit_simps)
  moreover have "page_no w = unat (drop_bit 12 w)" for w
    by (simp only: unat_drop_bit_eq page_no_def) (simp add: drop_bit_eq_div)
  ultimately show ?thesis by simp
qed

lemma guest_map_lookup:
  "k < 4 \<Longrightarrow> stage2_lookup (guest_map k) y = static_lookup (ram_base k) 0x08000000
     (device_page (uart_base k) (timer_0_base k) (timer_2_base k) 0x50003000 (black_hole k)) y"
  unfolding guest_map_def
  by (simp add: static_stage2_lookup bases) (simp add: block_offset_def)

lemma ram_page:
  assumes "k < 4" and "y < 0x08000000"
  shows "0x10000 + k * 0x8000 \<le> page_no (ram_base k + y) \<and> page_no (ram_base k + y) < 0x10000 + (k + 1) * 0x8000"
proof -
  have "unat (ram_base k + y) = 0x10000000 + k * 0x08000000 + unat y"
    using assms by (simp add: unat_word_ariths bases word_less_nat_alt)
  moreover have "unat y < 0x08000000" using assms(2) by (simp add: word_less_nat_alt)
  ultimately show ?thesis
    by (simp add: page_no_def less_eq_div_iff_mult_less_eq div_less_iff_less_mult)
qed

lemma guest_map_pages:
  assumes k: "k < 4" and l: "stage2_lookup (guest_map k) y = Some p"
  shows "0x10000 + k * 0x8000 \<le> page_no p \<and> page_no p < 0x10000 + (k + 1) * 0x8000
    \<or> page_no p \<in> {0x60000 + k, 0x60004 + k, 0x60008 + k, 0x50003, 0x90000 + k}"
proof -
  have dev: "page_no (uart_base k) = 0x60000 + k" "page_no (timer_0_base k) = 0x60004 + k"
    "page_no (timer_2_base k) = 0x60008 + k" "page_no (black_hole k) = 0x90000 + k"
    "page_no 0x50003000 = 0x50003"
  proof -
    have "k = 0 \<or> k = 1 \<or> k = 2 \<or> k = 3" using k by linarith
    then show "page_no (uart_base k) = 0x60000 + k" "page_no (timer_0_base k) = 0x60004 + k"
      "page_no (timer_2_base k) = 0x60008 + k" "page_no (black_hole k) = 0x90000 + k"
      "page_no 0x50003000 = 0x50003"
      by (auto simp: page_no_def uart_base_def timer_0_base_def timer_2_base_def black_hole_def)
  qed
  consider "y < 0x08000000" "p = ram_base k + y"
    | "y - 0x70000000 < 0x08000000" "p = ram_base k + (y - 0x70000000)"
    | pa where "device_page (uart_base k) (timer_0_base k) (timer_2_base k) 0x50003000 (black_hole k)
        (unat y div 0x1000) = Some pa" "p = copy_field pa y 11 0"
    using l unfolding guest_map_lookup [OF k] static_lookup_def by (auto split: if_splits)
  then show ?thesis
  proof cases
    case 1
    then show ?thesis using ram_page [OF k] by blast
  next
    case 2
    then show ?thesis using ram_page [OF k] by blast
  next
    case (3 pa)
    then show ?thesis using dev by (auto simp: device_page_def split: if_splits)
  qed
qed

lemma guest_maps_apart:
  assumes "j < 4" and "k < 4" and "j \<noteq> k"
    and "stage2_lookup (guest_map j) x = Some p" and "stage2_lookup (guest_map k) y = Some q"
    and "page_no p = page_no q"
  shows "page_no p = 0x50003"
proof -
  let ?n = "page_no q"
  have apart: "j + 1 \<le> k \<or> k + 1 \<le> j" using assms(3) by linarith
  have pj: "0x10000 + j * 0x8000 \<le> ?n \<and> ?n < 0x10000 + (j + 1) * 0x8000
      \<or> ?n \<in> {0x60000 + j, 0x60004 + j, 0x60008 + j, 0x50003, 0x90000 + j}"
    using guest_map_pages [OF assms(1,4)] unfolding assms(6) .
  have pk: "0x10000 + k * 0x8000 \<le> ?n \<and> ?n < 0x10000 + (k + 1) * 0x8000
      \<or> ?n \<in> {0x60000 + k, 0x60004 + k, 0x60008 + k, 0x50003, 0x90000 + k}"
    using guest_map_pages [OF assms(2,5)] .
  have "?n = 0x50003"
  proof (cases "?n < 0x30000")
    case True
    with pj pk have "0x10000 + j * 0x8000 \<le> ?n \<and> ?n < 0x10000 + (j + 1) * 0x8000"
      "0x10000 + k * 0x8000 \<le> ?n \<and> ?n < 0x10000 + (k + 1) * 0x8000" by auto
    with apart have False by (elim disjE conjE) simp_all
    then show ?thesis ..
  next
    case False
    with pj pk assms(1,2) have "?n \<in> {0x60000 + j, 0x60004 + j, 0x60008 + j, 0x50003, 0x90000 + j}"
      "?n \<in> {0x60000 + k, 0x60004 + k, 0x60008 + k, 0x50003, 0x90000 + k}" by auto
    with assms(1-3) show ?thesis by (elim insertE emptyE) simp_all
  qed
  then show ?thesis using assms(6) by simp
qed

end
