(* ===== verification/Samples.thy ===== *)
theory Samples
  imports Isolation
begin

text \<open>
  Concrete states of the hypervisor on a machine of plain memory, on which the properties
  are instantiated: before main runs, and with four guests of which one runs.
\<close>

section \<open>An allocator\<close>

definition blank_allocator :: "int \<Rightarrow> memory_allocator" where
  "blank_allocator t = \<lparr>target_vm = (\<lambda>_. t), alloc_ipa = (\<lambda>_. 0), alloc_high_ipa = (\<lambda>_. 0),
     alloc_mem_base = 0, alloc_count = 0\<rparr>"

definition sample_allocator :: memory_allocator where
  "sample_allocator = memory_allocator_init (blank_allocator 0) 0x10000000"

lemma sample_allocator_free: "i < PAGE_COUNT \<Longrightarrow> slot_free sample_allocator i"
  by (simp add: sample_allocator_def slot_free_def)

lemma sample_allocator_base: "alloc_mem_base sample_allocator = 0x10000000"
  by (simp add: sample_allocator_def)

lemma sample_allocator_wf: "alloc_wf sample_allocator"
  by (simp add: sample_allocator_def init_wf)

section \<open>The state before main\<close>

definition sample_meteor :: meteor where
  "sample_meteor = \<lparr>hw = sample_machine, vm_id = 0, vm = (\<lambda>_. guest_zero),
     sys_mem_allocator = blank_allocator 0, last_i = 0,
     sys_monitor = \<lparr>print_count = 0, events = (\<lambda>_. 0)\<rparr>,
     sys_uart = \<lparr>uart_base_address = 0, dr = 0, fr = 0, ibrd = 0, fbrd = 0,
       lcrh = 0, cr = 0\<rparr>,
     rom = \<lparr>rom_base_address = 0, cur_address = 0, rom_size = 0\<rparr>,
     sys_semihost = \<lparr>semihost_base_address = 0\<rparr>,
     sys_gic_dist = \<lparr>dist_base_addr = 0\<rparr>, sys_gic_cpu_if = \<lparr>cpu_if_base_addr = 0\<rparr>,
     sys_gic_vctrl = \<lparr>vctrl_base_addr = 0\<rparr>, sys_gic_vcpu_if = \<lparr>vcpu_if_base_address = 0\<rparr>,
     sys_timer = \<lparr>timer_base_address = 0, load = (\<lambda>_. 0), timer_value = (\<lambda>_. 0), control = (\<lambda>_. 0),
       control_reg = (\<lambda>_. 0), int_clear = (\<lambda>_. 0)\<rparr>,
     sys_ctrl = \<lparr>base_addr_reg = 0, base_addr_ctrl = 0\<rparr>, scheduler_idle = False\<rparr>"

lemma sample_meteor_hw [simp]: "hw sample_meteor = sample_machine"
  by (simp add: sample_meteor_def)

lemma sample_images: "images_fit [] []"
  by (simp add: images_fit_def)

lemma sample_tables: "\<forall>j < 4. pt_region (pt_base j) pt_slots (hw sample_meteor)"
proof (intro allI impI)
  fix j :: nat assume "j < 4"
  moreover have "aligned 12 (pt_base j)" if "j = 0 \<or> j = 1 \<or> j = 2 \<or> j = 3"
    using that by (auto simp: pt_base_def aligned_def)
  moreover have "j = 0 \<or> j = 1 \<or> j = 2 \<or> j = 3" using \<open>j < 4\<close> by linarith
  ultimately show "pt_region (pt_base j) pt_slots (hw sample_meteor)"
    by (auto intro!: sample_region simp: bases)
qed

section \<open>Between two traps\<close>

text \<open>The guests wait for an interrupt as \<open>w\<close> says; guest 0 runs unless the hypervisor is idle.\<close>

definition sample_guest :: "bool \<Rightarrow> wfi_state_t \<Rightarrow> int \<Rightarrow> guest" where
  "sample_guest d w i = guest_zero\<lparr>valid := True, guest_id := i, sched := \<lparr>wfi_state = w\<rparr>,
     bk := (bk guest_zero)\<lparr>dirty := d\<rparr>\<rparr>"

definition sample_running :: "(int \<Rightarrow> wfi_state_t) \<Rightarrow> meteor" where
  "sample_running w = sample_meteor\<lparr>vm := (\<lambda>i. sample_guest (i = 0) (w i) i)\<rparr>"

definition sample_idle :: meteor where
  "sample_idle = sample_meteor\<lparr>vm := sample_guest False WFI_In, scheduler_idle := True\<rparr>"

lemma sample_guest_simps [simp]:
  "valid (sample_guest d w i)" "guest_kind (sample_guest d w i) = Realview_PB"
  "guest_id (sample_guest d w i) = i" "wfi_state (sched (sample_guest d w i)) = w"
  "dirty (bk (sample_guest d w i)) = d"
  by (simp_all add: sample_guest_def guest_zero_def)

lemma sample_simps [simp]:
  "vm (sample_running w) i = sample_guest (i = 0) (w i) i" "vm_id (sample_running w) = 0"
  "\<not> scheduler_idle (sample_running w)" "hw (sample_running w) = sample_machine"
  "vm sample_idle = sample_guest False WFI_In" "vm_id sample_idle = 0" "scheduler_idle sample_idle"
  "hw sample_idle = sample_machine"
  by (simp_all add: sample_running_def sample_idle_def sample_meteor_def)

lemma sample_running_inv: "w 0 = WFI_Out \<Longrightarrow> run_inv (sample_running w)"
  by (auto simp: run_inv_def sched_pre_def guests_ok_def)

lemma sample_idle_inv: "run_inv sample_idle"
  by (simp add: run_inv_def sched_pre_def guests_ok_def)

end
