(* ===== verification/Props_Memory.thy ===== *)
theory Props_Memory
  imports Samples
begin

text \<open>
  The properties of the memory side of the hypervisor: the stage 2 tables, the memory
  allocator, the tables main builds and the isolation of the guests, each with a concrete
  instance where it has hypotheses.
\<close>

section \<open>Stage 2 tables\<close>

text \<open>
  C11. A freshly initialised stage 2 table translates no address: whatever was in its
  memory before, every access of the guest faults to the hypervisor.
\<close>

theorem pagetable_init_faults:
  assumes "pt_region b pt_slots h"
  shows "s2_walk (mem (snd (pagetable_init (ucast b) h))) (ucast b) ipa = None"
  using s2_walk_lookup [OF init_refines [OF assms], of ipa] by (simp add: stage2_lookup_empty)

theorem pagetable_init_faults_witness:
  "s2_walk (mem (snd (pagetable_init (ucast (0x08000000 :: u32)) sample_machine)))
     (ucast (0x08000000 :: u32)) 0x70000000 = None"
  by (rule pagetable_init_faults) (simp add: sample_region aligned_def)

text \<open>
  C12. Mapping a block of 2 MiB: every address of the block is then translated into the
  block of \<open>pa\<close>, at the same offset, and the translation of every other address stays.
\<close>

theorem pagetable_set_block_walk:
  fixes x y :: u32
  assumes "pt_rel b s p h"
  shows "s2_walk (mem (pagetable_set_block p (ucast x) pa h)) (ucast b) y =
    (if unat y div 0x200000 = unat x div 0x200000 then Some (ucast (copy_field pa y 20 0))
     else s2_walk (mem h) (ucast b) y)"
  by (simp add: s2_walk_lookup [OF set_block_refines [OF assms]] s2_walk_lookup [OF assms]
      stage2_lookup_block l2_index_ucast)

lemma sample_rel:
  "pt_rel 0x08000000 stage2_empty (fst (pagetable_init (ucast (0x08000000 :: u32)) sample_machine))
     (snd (pagetable_init (ucast (0x08000000 :: u32)) sample_machine))"
  by (rule init_refines) (simp add: sample_region aligned_def)

theorem pagetable_set_block_walk_witness:
  "s2_walk (mem (pagetable_set_block (fst (pagetable_init (ucast (0x08000000 :: u32)) sample_machine))
      (ucast (0x70000000 :: u32)) 0x10000000
      (snd (pagetable_init (ucast (0x08000000 :: u32)) sample_machine))))
      (ucast (0x08000000 :: u32)) 0x70012344 = Some 0x10012344"
  by (subst pagetable_set_block_walk [OF sample_rel])
    (simp add: copy_field_def get_field_def set_field_def imask32_def mask32_def)

text \<open>
  C13. Mapping a page of 4 KiB: the addresses of the page are translated into the page of
  \<open>pa\<close>; if the page's block was mapped as a block, the rest of that block is unmapped; all
  other translations stay. This holds as long as the call needs no ninth level 3 table.
\<close>

theorem pagetable_set_page_walk:
  fixes x y :: u32
  assumes "pt_rel b s p h" and "(\<exists>t. l2 s (l2_index (ucast x)) = L2_Table t) \<or> tables s < 8"
  shows "s2_walk (mem (snd (pagetable_set_page p (ucast x) pa h))) (ucast b) y =
    (if unat y div 0x1000 = unat x div 0x1000 then Some (ucast (copy_field pa y 11 0))
     else if unat y div 0x200000 = unat x div 0x200000 \<and> (\<exists>q. l2 s (l2_index (ucast x)) = L2_Block q)
     then None
     else s2_walk (mem h) (ucast b) y)"
proof -
  have "l2_index (ucast y) = l2_index (ucast x) \<and> l3_index (ucast y) = l3_index (ucast x)
      \<longleftrightarrow> unat y div 0x1000 = unat x div 0x1000"
    using page_number_split [OF l3_index_less [of "ucast x"], of y "l2_index (ucast x)"]
      page_number_split [OF l3_index_less [of "ucast x"], of x "l2_index (ucast x)"] by simp
  then show ?thesis
    by (simp add: s2_walk_lookup [OF set_page_refines [OF assms]] s2_walk_lookup [OF assms(1)]
        stage2_lookup_page [OF pt_rel_wf [OF assms(1)]]) (auto simp: l2_index_ucast)
qed

theorem pagetable_set_page_walk_witness:
  "s2_walk (mem (snd (pagetable_set_page (fst (pagetable_init (ucast (0x08000000 :: u32)) sample_machine))
      (ucast (0x10009000 :: u32)) 0x60000000
      (snd (pagetable_init (ucast (0x08000000 :: u32)) sample_machine)))))
      (ucast (0x08000000 :: u32)) 0x10009018 = Some 0x60000018"
  by (subst pagetable_set_page_walk [OF sample_rel])
    (simp_all add: stage2_empty_def copy_field_def get_field_def set_field_def imask32_def mask32_def)

text \<open>
  C14. The code refines the abstract map: after mapping a page in a block that has a level 3 table
  already, or while fewer than eight such tables are in use, the descriptors in memory again
  represent a well-formed map, the one with the page added. The code does not check for a ninth table.
\<close>

theorem pagetable_set_page_refinement:
  assumes "pt_rel b s p h" and "(\<exists>t. l2 s (l2_index ipa) = L2_Table t) \<or> tables s < 8"
  shows "pt_rel b (stage2_page ipa pa s) (fst (pagetable_set_page p ipa pa h))
      (snd (pagetable_set_page p ipa pa h)) \<and> stage2_wf (stage2_page ipa pa s)"
  using set_page_refines [OF assms] stage2_page_wf [OF pt_rel_wf [OF assms(1)]] by blast

theorem pagetable_set_page_refinement_witness:
  "pt_rel 0x08000000 (stage2_page 0x10009000 0x60000000 stage2_empty)
     (fst (pagetable_set_page (fst (pagetable_init (ucast (0x08000000 :: u32)) sample_machine)) 0x10009000
        0x60000000 (snd (pagetable_init (ucast (0x08000000 :: u32)) sample_machine))))
     (snd (pagetable_set_page (fst (pagetable_init (ucast (0x08000000 :: u32)) sample_machine)) 0x10009000
        0x60000000 (snd (pagetable_init (ucast (0x08000000 :: u32)) sample_machine))))"
  using pagetable_set_page_refinement [OF sample_rel, of "0x10009000" "0x60000000"]
  by (simp add: stage2_empty_def)

section \<open>The static table of a guest\<close>

lemma aligned_block_le:
  fixes off :: u32
  assumes "aligned 21 off"
  shows "off \<le> 0xFFE00000"
proof -
  from assms obtain q where q: "unat off = 0x200000 * q" by (auto simp: aligned_dvd elim: dvdE)
  moreover have "unat off < 2 ^ 32" using unsigned_less [of off] by simp
  ultimately have "q \<le> 2047" by simp
  then have "unat off \<le> 0xFFE00000" using q by simp
  then show ?thesis by (simp add: word_le_nat_alt)
qed

lemma map_blocks_aligned:
  assumes "guest_rpb_map_blocks g p h = Some (off, h')"
  shows "aligned 21 off"
proof -
  have "aligned 21 (fst (off, h'))"
  proof (rule while_option_rule [OF _ assms [unfolded guest_rpb_map_blocks_def],
        where P = "\<lambda>q. aligned 21 (fst q)"])
    fix q :: "u32 \<times> machine" assume "aligned 21 (fst q)"
    then have "aligned 21 (fst q + push_bit 20 2)"
      by (rule aligned_add) (simp_all add: aligned_def)
    then show "aligned 21 (fst (case q of (offset, h) \<Rightarrow>
        let h = pagetable_set_block p (ucast offset) (mem_base_pa g + offset) h;
            h = pagetable_set_block p (ucast (0x70000000 + offset)) (mem_base_pa g + offset) h
        in (offset + push_bit 20 2, h)))"
      by (simp only: case_prod_beta Let_def fst_conv)
  qed (simp add: aligned_def)
  then show ?thesis by simp
qed

text \<open>
  C15. The loop of guest_rpb_init_pt_static over the guest's memory ends exactly for the
  sizes its 32-bit counter can pass, at most 0xFFE00000.
\<close>

theorem guest_rpb_map_blocks_ends:
  "guest_rpb_map_blocks g p h \<noteq> None \<longleftrightarrow> mem_size g \<le> 0xFFE00000"
proof
  assume "mem_size g \<le> 0xFFE00000"
  then obtain n where "unat (mem_size g) \<le> n * 0x200000" "n < 2048"
    "\<And>j. j < n \<Longrightarrow> j * 0x200000 < unat (mem_size g)"
    using block_count [of "mem_size g"] by (auto simp: word_le_nat_alt)
  from guest_rpb_map_blocks_eq [OF this] show "guest_rpb_map_blocks g p h \<noteq> None" by simp
next
  assume some: "guest_rpb_map_blocks g p h \<noteq> None"
  show "mem_size g \<le> 0xFFE00000"
  proof (rule ccontr)
    assume big: "\<not> mem_size g \<le> 0xFFE00000"
    obtain off h' where r: "guest_rpb_map_blocks g p h = Some (off, h')" using some by auto
    have "\<not> off < mem_size g"
      using while_option_stop [OF r [unfolded guest_rpb_map_blocks_def]] by simp
    moreover have "off \<le> 0xFFE00000"
      by (rule aligned_block_le) (rule map_blocks_aligned [OF r])
    ultimately show False using big by simp
  qed
qed

text \<open>
  C16. The static table of a guest with up to 128 blocks of 2 MiB of memory translates
  exactly the guest's memory, whose base is a multiple of 2 MiB, at 0 and again at 0x70000000, and
  the pages of its five devices; every other address faults.
\<close>

theorem guest_rpb_init_pt_static_map:
  assumes "pt_region b pt_slots h" and "unat (mem_size g) = n * 0x200000" and "n \<le> 128"
    and "aligned 21 (mem_base_pa g)"
  shows "\<exists>g' h'. guest_rpb_init_pt_static b u t0 t2 v bh g h = Inr (g', h')
    \<and> vttbr_lpae (bk_cp15 (bk g')) = ucast b
    \<and> (\<forall>y. s2_walk (mem h') (ucast b) y = map_option ucast
        (static_lookup (mem_base_pa g) (mem_size g) (device_page u t0 t2 v bh) y))"
proof -
  have sz: "block_offset n = mem_size g"
    using assms(2,3) by (simp add: word_unat_eq_iff unat_block_offset)
  obtain p h' where r: "guest_rpb_init_pt_static b u t0 t2 v bh g h = Inr (set_vttbr b (g\<lparr>pt := p\<rparr>), h')"
    and rel: "pt_rel b (static_stage2 (mem_base_pa g) n u t0 t2 v bh) p h'"
    by (rule init_pt_static_refines [OF assms(1-3), of u t0 t2 v bh]) blast
  have "s2_walk (mem h') (ucast b) y = map_option ucast
      (static_lookup (mem_base_pa g) (mem_size g) (device_page u t0 t2 v bh) y)" for y
    unfolding s2_walk_lookup [OF rel] static_stage2_lookup [OF assms(4,3)] sz ..
  then show ?thesis using r by (auto simp: set_vttbr_def)
qed

theorem guest_rpb_init_pt_static_map_witness:
  "\<exists>g' h'. guest_rpb_init_pt_static 0x08000000 0x60000000 0x60004000 0x60008000 0x50003000 0x90000000
      (guest_rpb_init 0 0x10000000 0 0x08000000 \<lparr>dist_base_addr = 0x50000000\<rparr>) sample_machine = Inr (g', h')
    \<and> s2_walk (mem h') (ucast (0x08000000 :: u32)) 0x70010000 = Some 0x10010000
    \<and> s2_walk (mem h') (ucast (0x08000000 :: u32)) 0x08000000 = None"
proof -
  let ?g = "guest_rpb_init 0 0x10000000 0 0x08000000 \<lparr>dist_base_addr = 0x50000000\<rparr>"
  have "\<exists>g' h'. guest_rpb_init_pt_static 0x08000000 0x60000000 0x60004000 0x60008000 0x50003000
      0x90000000 ?g sample_machine = Inr (g', h') \<and> vttbr_lpae (bk_cp15 (bk g')) = ucast (0x08000000 :: u32)
    \<and> (\<forall>y. s2_walk (mem h') (ucast (0x08000000 :: u32)) y = map_option ucast
        (static_lookup (mem_base_pa ?g) (mem_size ?g)
          (device_page 0x60000000 0x60004000 0x60008000 0x50003000 0x90000000) y))"
    by (rule guest_rpb_init_pt_static_map [where n = 64])
      (simp_all add: sample_region aligned_def guest_rpb_init_simps)
  then show ?thesis
    by (elim exE conjE) (intro exI conjI, assumption,
      simp_all add: static_lookup_def guest_rpb_init_simps device_page_def)
qed

section \<open>The memory allocator\<close>

text \<open>
  C17. A page that is handed out was free, is no longer, and is accounted for: the slot is
  recorded for the guest, the count of used pages stays exact, no other slot changes, and the
  page is none of the pages in use.
\<close>

theorem memory_allocator_new_page_takes_free:
  assumes "li < PAGE_COUNT" and "alloc_wf me" and "guest_id g \<noteq> -1"
    and "memory_allocator_new_page me li g ipa high_ipa h = Inr (pa, me', i, g', h')"
  shows "slot_free me i \<and> target_vm me' = (target_vm me)(i := guest_id g)
    \<and> pa = page_addr me' i \<and> alloc_wf me' \<and> alloc_count me' = alloc_count me + 1
    \<and> (\<forall>j < PAGE_COUNT. target_vm me j \<noteq> -1 \<longrightarrow> page_addr me' j \<noteq> pa)"
proof (rule new_page_cases [OF assms(1), where me = me and vm = g and ipa = ipa and high_ipa = high_ipa
      and h = h])
  fix j pb m v gg
  assume free: "slot_free me j" and t: "memory_allocator_take me g ipa high_ipa j h = (pb, m, v, gg)"
    and "memory_allocator_new_page me li g ipa high_ipa h = Inr (pb, m, j, v, gg)"
  with assms(4) have e: "j = i" "pb = pa" "m = me'" by auto
  note s = take_simps [OF t, unfolded e] and free = free [unfolded e]
  have addr: "page_addr me' k = page_addr me k" for k by (simp add: page_addr_def s)
  have "page_addr me k \<noteq> pa" if "k < PAGE_COUNT" "target_vm me k \<noteq> -1" for k
    using page_addr_inj [of k i me] that free by (auto simp: s slot_free_def)
  with free take_wf [OF assms(2) free assms(3) t [unfolded e]] show ?thesis by (auto simp: addr s)
qed (use assms(4) in simp)

theorem memory_allocator_new_page_takes_free_witness:
  "\<exists>pa me' i g' h'. memory_allocator_new_page sample_allocator 0 guest_zero 0 0x70000000 sample_machine
      = Inr (pa, me', i, g', h') \<and> slot_free sample_allocator i \<and> alloc_count me' = 1"
proof (rule new_page_cases [where last_i = 0 and me = sample_allocator and vm = guest_zero and ipa = 0
      and high_ipa = "0x70000000" and h = sample_machine])
  assume "\<forall>i. \<not> slot_free sample_allocator i"
  then show ?thesis using sample_allocator_free [of 0] by simp
next
  fix i pa me' g' h'
  assume r: "memory_allocator_new_page sample_allocator 0 guest_zero 0 0x70000000 sample_machine
      = Inr (pa, me', i, g', h')"
  have "guest_id guest_zero \<noteq> -1" by (simp add: guest_zero_def)
  from memory_allocator_new_page_takes_free [OF _ sample_allocator_wf this r] r show ?thesis
    by (simp add: sample_allocator_def)
qed simp

text \<open>
  C18. The allocator fails, by halting the hypervisor, exactly when every page is in use: its
  search visits every slot once, wherever the previous search ended.
\<close>

theorem memory_allocator_new_page_full:
  assumes "li < PAGE_COUNT"
  shows "memory_allocator_new_page me li g ipa high_ipa h
      = Inl (Exit d_memory_allocator ''memory_allocator_new() no free memory'')
    \<longleftrightarrow> (\<forall>i < PAGE_COUNT. target_vm me i \<noteq> -1)"
  by (rule new_page_cases [OF assms, where me = me and vm = g and ipa = ipa and high_ipa = high_ipa
      and h = h]) (auto simp: slot_free_def)

theorem memory_allocator_new_page_full_witness:
  "memory_allocator_new_page (blank_allocator 3) 131071 guest_zero 0 0x70000000 sample_machine
     = Inl (Exit d_memory_allocator ''memory_allocator_new() no free memory'')"
  by (subst memory_allocator_new_page_full) (simp_all add: PAGE_COUNT_eq blank_allocator_def)

lemma stage2_page_l2: "\<exists>t. l2 (stage2_page ipa pa s) (l2_index ipa) = L2_Table t"
  by (simp add: stage2_page_def stage2_put_def stage2_new_table_def split: l2_entry.split)

text \<open>
  C19. As long as the guest uses at most six of its eight level 3 tables, the page that is handed
  out is mapped at both addresses it was asked for: every address of the page of \<open>ipa\<close> and of the
  page of \<open>high_ipa\<close> translates to it. The two pages can take one new level 3 table each.
\<close>

theorem memory_allocator_new_page_maps_both:
  fixes y :: u32
  assumes "li < PAGE_COUNT" and rel: "pt_rel b s (pt g) h" and few: "tables s \<le> 6"
    and new: "memory_allocator_new_page me li g ipa high_ipa h = Inr (pa, me', i, g', h')"
    and y: "unat y div 0x1000 = unat ipa div 0x1000 \<or> unat y div 0x1000 = unat high_ipa div 0x1000"
  shows "s2_walk (mem h') (ucast b) y = Some (ucast (copy_field pa y 11 0))"
proof -
  let ?s1 = "stage2_page (ucast ipa) pa s"
  let ?s2 = "stage2_page (ucast high_ipa) pa ?s1"
  obtain j where "memory_allocator_take me g ipa high_ipa j h = (pa, me', g', h')"
    using new by (rule_tac new_page_cases [OF assms(1), where me = me and vm = g and ipa = ipa and high_ipa = high_ipa
      and h = h]) auto
  from take_refines [OF rel few this] have rel2: "pt_rel b ?s2 (pt g') h'" .
  have wf1: "stage2_wf ?s1" by (rule stage2_page_wf [OF pt_rel_wf [OF rel]])
  have same: "l2_index (ucast y) = l2_index (ucast x) \<and> l3_index (ucast y) = l3_index (ucast x)
      \<longleftrightarrow> unat y div 0x1000 = unat x div 0x1000" for x :: u32
    using page_number_split [OF l3_index_less [of "ucast x"], of y "l2_index (ucast x)"]
      page_number_split [OF l3_index_less [of "ucast x"], of x "l2_index (ucast x)"] by simp
  have "stage2_lookup ?s2 y = Some (copy_field pa y 11 0)"
    using y stage2_page_l2 [of "ucast ipa" pa s]
    by (auto simp: stage2_lookup_page [OF wf1] stage2_lookup_page [OF pt_rel_wf [OF rel]] same
        dest: same [THEN iffD2])
  then show ?thesis by (simp add: s2_walk_lookup [OF rel2])
qed

lemma sample_new_page:
  obtains pa me' i g' h' where "memory_allocator_new_page sample_allocator 0 g ipa high_ipa h
    = Inr (pa, me', i, g', h')"
  by (rule new_page_cases [where last_i = 0 and me = sample_allocator and vm = g and ipa = ipa
      and high_ipa = high_ipa and h = h]) (use sample_allocator_free [of 0] in auto)

theorem memory_allocator_new_page_maps_both_witness:
  "\<exists>pa me' i g' h'. memory_allocator_new_page sample_allocator 0
      (guest_zero\<lparr>pt := fst (pagetable_init (ucast (0x08000000 :: u32)) sample_machine)\<rparr>)
      0x3000 0x70003000 (snd (pagetable_init (ucast (0x08000000 :: u32)) sample_machine))
      = Inr (pa, me', i, g', h')
    \<and> s2_walk (mem h') (ucast (0x08000000 :: u32)) 0x3018 = Some (ucast (copy_field pa 0x3018 11 0))
    \<and> s2_walk (mem h') (ucast (0x08000000 :: u32)) 0x70003018
        = Some (ucast (copy_field pa 0x70003018 11 0))"
proof -
  let ?p = "pagetable_init (ucast (0x08000000 :: u32)) sample_machine"
  let ?g = "guest_zero\<lparr>pt := fst ?p\<rparr>"
  obtain pa me' i g' h' where r: "memory_allocator_new_page sample_allocator 0 ?g 0x3000 0x70003000
      (snd ?p) = Inr (pa, me', i, g', h')" by (rule sample_new_page)
  have rel: "pt_rel 0x08000000 stage2_empty (pt ?g) (snd ?p)" using sample_rel by simp
  have t: "tables stage2_empty \<le> 6" by (simp add: stage2_empty_def)
  show ?thesis
    using memory_allocator_new_page_maps_both [OF _ rel t r, of "0x3018"]
      memory_allocator_new_page_maps_both [OF _ rel t r, of "0x70003018"] r by simp
qed

text \<open>
  C20. With the base that meteor_devices_init gives the allocator, every page it can hand out
  lies in the 128 MiB of memory that main maps statically for one of the four guests: an
  on-demand page of one guest is already memory of another, or of the guest itself.
\<close>

theorem memory_allocator_new_page_in_guest_ram:
  assumes "li < PAGE_COUNT" and "alloc_mem_base me = 0x10000000"
    and "memory_allocator_new_page me li g ipa high_ipa h = Inr (pa, me', i, g', h')"
  shows "\<exists>k < 4. \<exists>y < 0x08000000. stage2_lookup (guest_map k) y = Some pa"
proof -
  have i: "i < PAGE_COUNT" and pa: "pa = page_addr me i"
    using assms(3) by (rule_tac new_page_cases [OF assms(1), where me = me and vm = g and ipa = ipa
        and high_ipa = high_ipa and h = h]; auto simp: slot_free_def dest: take_simps(1))+
  let ?k = "i div 0x8000" and ?r = "i mod 0x8000"
  have k: "?k < 4" using i by (simp add: PAGE_COUNT_eq less_mult_imp_div_less)
  define y :: u32 where "y = of_nat (?r * 0x1000)"
  have y: "unat y = ?r * 0x1000" 
  proof -
    have "?r * 0x1000 < 2 ^ LENGTH(32)" by simp
    then show ?thesis unfolding y_def by (simp only: unat_of_nat mod_less)
  qed
  have "i * PAGE_SIZE = ?k * 0x08000000 + ?r * 0x1000"
  proof -
    have "i = q * 0x8000 + r \<Longrightarrow> i * (4 * 1024) = q * 0x08000000 + r * 0x1000" for q r by simp
    from this [OF div_mult_mod_eq [of i "0x8000", symmetric]] show ?thesis unfolding PAGE_SIZE_def .
  qed
  then have "pa = ram_base ?k + y"
    by (simp only: pa page_addr_def assms(2) ram_base_def y_def of_nat_add of_nat_mult)
      simp
  moreover have "y < 0x08000000" by (simp add: word_less_nat_alt y)
  ultimately show ?thesis
    using k by (intro exI [of _ ?k] exI [of _ y] conjI)
      (simp_all add: guest_map_lookup static_lookup_def)
qed

theorem memory_allocator_new_page_in_guest_ram_witness:
  "\<exists>pa me' i g' h'. memory_allocator_new_page sample_allocator 0 guest_zero 0 0x70000000 sample_machine
      = Inr (pa, me', i, g', h')
    \<and> (\<exists>k < 4. \<exists>y < 0x08000000. stage2_lookup (guest_map k) y = Some pa)"
proof -
  obtain pa me' i g' h' where r: "memory_allocator_new_page sample_allocator 0 guest_zero 0 0x70000000
      sample_machine = Inr (pa, me', i, g', h')" by (rule sample_new_page)
  from memory_allocator_new_page_in_guest_ram [OF _ sample_allocator_base r] r show ?thesis by simp
qed

section \<open>The guests after boot\<close>

lemma main_walk:
  assumes "images_fit zImage initrd" and "\<forall>j < 4. pt_region (pt_base j) pt_slots (hw s)"
  obtains s' where "main zImage initrd s = Inr s'"
    and "\<And>k y. k < 4 \<Longrightarrow> s2_walk (mem (hw s')) (ucast (pt_base k)) y
      = map_option ucast (stage2_lookup (guest_map k) y)"
proof -
  obtain s' where "main zImage initrd s = Inr s'"
    and "\<And>j. j < 4 \<Longrightarrow> pt_rel (pt_base j) (guest_map j) (pt (vm s' (int j))) (hw s')"
    by (rule main_boots [OF assms]) blast
  then show ?thesis by (intro that) (auto intro: s2_walk_lookup)
qed

text \<open>
  C21. Booting builds the address spaces it is meant to: with images that fit into a guest's
  memory, and whatever the memory of the tables held before, the tables in memory afterwards
  translate, for each of the four guests, exactly its 128 MiB at 0 and at 0x70000000 and its
  device pages.
\<close>

theorem main_builds_guest_maps:
  assumes "images_fit zImage initrd" and "\<forall>j < 4. pt_region (pt_base j) pt_slots (hw s)" and "k < 4"
  shows "\<exists>s'. main zImage initrd s = Inr s' \<and> (\<forall>y. s2_walk (mem (hw s')) (ucast (pt_base k)) y =
    map_option ucast (static_lookup (ram_base k) 0x08000000
      (device_page (uart_base k) (timer_0_base k) (timer_2_base k) 0x50003000 (black_hole k)) y))"
  using main_walk [OF assms(1,2)] guest_map_lookup [OF assms(3)] assms(3) by metis

theorem main_builds_guest_maps_witness:
  "\<exists>s'. main [] [] sample_meteor = Inr s'
     \<and> s2_walk (mem (hw s')) (ucast (pt_base 3)) 0x70001234 = Some 0x28001234"
  using main_builds_guest_maps [OF sample_images sample_tables, of 3]
  by (auto simp: static_lookup_def ram_base_def)

text \<open>
  C22. The guests are isolated from each other: after boot, with images that fit, two guests reach a common page of
  physical memory only if it is the page of the virtual CPU interface at 0x50003000.
\<close>

theorem main_isolates_guests:
  assumes "images_fit zImage initrd" and "\<forall>j < 4. pt_region (pt_base j) pt_slots (hw s)"
    and "j < 4" and "k < 4" and "j \<noteq> k"
  shows "\<exists>s'. main zImage initrd s = Inr s' \<and> (\<forall>x y p q.
      s2_walk (mem (hw s')) (ucast (pt_base j)) x = Some p \<longrightarrow>
      s2_walk (mem (hw s')) (ucast (pt_base k)) y = Some q \<longrightarrow>
      unat p div 0x1000 = unat q div 0x1000 \<longrightarrow> unat p div 0x1000 = 0x50003)"
proof -
  obtain s' where s': "main zImage initrd s = Inr s'"
    and w: "\<And>k y. k < 4 \<Longrightarrow> s2_walk (mem (hw s')) (ucast (pt_base k)) y
      = map_option ucast (stage2_lookup (guest_map k) y)"
    by (rule main_walk [OF assms(1,2)]) blast
  have "unat p div 0x1000 = 0x50003"
    if "s2_walk (mem (hw s')) (ucast (pt_base j)) x = Some p"
      "s2_walk (mem (hw s')) (ucast (pt_base k)) y = Some q"
      "unat p div 0x1000 = unat q div 0x1000" for x y p q
    using that guest_maps_apart [OF assms(3-5), of x _ y]
    by (auto simp: w assms(3,4) page_no_def unat_ucast_64)
  with s' show ?thesis by blast
qed

theorem main_isolates_guests_witness:
  "\<exists>s'. main [] [] sample_meteor = Inr s'
     \<and> (s2_walk (mem (hw s')) (ucast (pt_base 0)) 0x1000 = Some 0x10001000 \<longrightarrow>
        s2_walk (mem (hw s')) (ucast (pt_base 1)) 0x1000 \<noteq> Some 0x10001000)"
proof -
  have "(0 :: nat) < 4" "(1 :: nat) < 4" "(0 :: nat) \<noteq> 1" by simp_all
  from main_isolates_guests [OF sample_images sample_tables this]
  obtain s' where m: "main [] [] sample_meteor = Inr s'" and iso: "\<And>x y p q.
      s2_walk (mem (hw s')) (ucast (pt_base 0)) x = Some p \<Longrightarrow>
      s2_walk (mem (hw s')) (ucast (pt_base 1)) y = Some q \<Longrightarrow>
      unat p div 0x1000 = unat q div 0x1000 \<Longrightarrow> unat p div 0x1000 = 0x50003" by blast
  have "s2_walk (mem (hw s')) (ucast (pt_base 1)) 0x1000 \<noteq> Some 0x10001000"
    if "s2_walk (mem (hw s')) (ucast (pt_base 0)) 0x1000 = Some 0x10001000"
    using iso [OF that, of "0x1000" "0x10001000"] by auto
  with m show ?thesis by blast
qed

text \<open>
  C23. The hypervisor is out of reach of the guests: no translation of a guest yields an
  address below 0x10000000, where the hypervisor, its stack and the tables are, or an address
  from 0x50000000 to 0x5000FFFF, where the interrupt controller and the hypervisor's own UART and
  timer are, other than in the page of the virtual CPU interface.
\<close>

theorem main_protects_hypervisor:
  assumes "images_fit zImage initrd" and "\<forall>j < 4. pt_region (pt_base j) pt_slots (hw s)" and "k < 4"
  shows "\<exists>s'. main zImage initrd s = Inr s' \<and> (\<forall>y p.
      s2_walk (mem (hw s')) (ucast (pt_base k)) y = Some p \<longrightarrow>
      0x10000000 \<le> unat p \<and> (0x50000000 \<le> unat p \<and> unat p < 0x50010000 \<longrightarrow>
        unat p div 0x1000 = 0x50003))"
proof -
  obtain s' where s': "main zImage initrd s = Inr s'"
    and w: "\<And>k y. k < 4 \<Longrightarrow> s2_walk (mem (hw s')) (ucast (pt_base k)) y
      = map_option ucast (stage2_lookup (guest_map k) y)"
    by (rule main_walk [OF assms(1,2)]) blast
  have "0x10000000 \<le> unat p \<and> (0x50000000 \<le> unat p \<and> unat p < 0x50010000 \<longrightarrow>
      unat p div 0x1000 = 0x50003)" if "s2_walk (mem (hw s')) (ucast (pt_base k)) y = Some p" for y p
  proof -
    from that obtain q where q: "stage2_lookup (guest_map k) y = Some q" "p = ucast q"
      by (auto simp: w assms(3))
    then have p: "unat p = unat q" by (simp add: unat_ucast_64)
    have "page_no q = unat p div 0x1000" by (simp add: page_no_def p)
    with guest_map_pages [OF assms(3) q(1)] assms(3)
    have "0x10000 \<le> unat p div 0x1000" and "unat p div 0x1000 < 0x30000 \<or> 0x60000 \<le> unat p div 0x1000
        \<or> unat p div 0x1000 = 0x50003" by auto
    then show ?thesis by linarith
  qed
  with s' show ?thesis by blast
qed

theorem main_protects_hypervisor_witness:
  "\<exists>s'. main [] [] sample_meteor = Inr s'
     \<and> s2_walk (mem (hw s')) (ucast (pt_base 2)) 0x70000000 \<noteq> Some 0x08200000"
proof -
  have "(2 :: nat) < 4" by simp
  from main_protects_hypervisor [OF sample_images sample_tables this]
  obtain s' where m: "main [] [] sample_meteor = Inr s'" and safe: "\<And>y p.
      s2_walk (mem (hw s')) (ucast (pt_base 2)) y = Some p \<Longrightarrow> 0x10000000 \<le> unat p" by blast
  have "s2_walk (mem (hw s')) (ucast (pt_base 2)) 0x70000000 \<noteq> Some 0x08200000"
    using safe [of "0x70000000" "0x08200000"] by auto
  with m show ?thesis by blast
qed

end
