(* ===== verification/Fault_Inv.thy ===== *)
theory Fault_Inv
  imports Handler_Inv
begin

text \<open>
  What a trap leaves in the processor's registers: serving a data abort stores to memory and
  to devices, but touches no banked and no system register except the return address, so
  that the guest goes on where the handler decides.
\<close>

section \<open>The processor during a data abort\<close>

lemma same_cpu_readw: "same_cpu h (snd (io_readw a h))"
  by (simp add: same_cpu_def hw_simps)

lemma same_cpu_readw_eq: "io_readw a h = (v, h') \<Longrightarrow> same_cpu h h'"
  using same_cpu_readw [of h a] by simp

lemma same_cpu_writew: "same_cpu h (io_writew a v h)"
  by (simp add: same_cpu_def hw_simps)

lemma set_page_cpu: "same_cpu h (snd (pagetable_set_page p ipa pa h))"
  unfolding pagetable_set_page_def same_cpu_def Let_def case_prod_beta
  by (simp add: hw_simps)

lemma take_cpu:
  assumes "memory_allocator_take me g ipa high_ipa i h = (pa, me', g', h')"
  shows "same_cpu h h'"
proof -
  obtain p1 h1 where 1: "pagetable_set_page (pt g) (ucast ipa) pa h = (p1, h1)" by fastforce
  obtain p2 h2 where 2: "pagetable_set_page p1 (ucast high_ipa) pa h1 = (p2, h2)" by fastforce
  have "h' = h2"
    using assms 1 2 take_simps(1) [OF assms]
    by (auto simp: memory_allocator_take_def Let_def page_addr_def)
  then show ?thesis
    using set_page_cpu [of h "pt g" "ucast ipa" pa] set_page_cpu [of h1 p1 "ucast high_ipa" pa]
    by (simp add: 1 2 same_cpu_trans)
qed

lemma read_reg_cpu: "read_reg_from_stack sp rt h = Inr (v, h') \<Longrightarrow> same_cpu h h'"
  by (auto simp: read_reg_from_stack_def bindR_eq_Inr dest: same_cpu_readw_eq split: if_splits)

lemma write_reg_cpu: "write_reg_to_stack sp rt v h = Inr h' \<Longrightarrow> same_cpu h h'"
  by (auto simp: write_reg_to_stack_def bindR_eq_Inr same_cpu_writew)

lemma dabort_load_cpu:
  assumes "dabort_load sp rt rd s = Inr s'" and "\<And>v h. rd (hw s) = Inr (v, h) \<Longrightarrow> same_cpu (hw s) h"
  shows "same_cpu (hw s) (hw s') \<and> sys_mem_allocator s' = sys_mem_allocator s"
  using assms by (auto simp: dabort_load_def bindR_eq_Inr dest!: write_reg_cpu intro: same_cpu_trans)

lemma dabort_store_cpu:
  assumes "dabort_store i sp rt wr s = Inr s'"
    and "\<And>v g h g' h'. wr v g h = Inr (g', h') \<Longrightarrow> same_cpu h h'"
  shows "same_cpu (hw s) (hw s') \<and> sys_mem_allocator s' = sys_mem_allocator s"
  using assms by (auto simp: dabort_store_def bindR_eq_Inr dest!: read_reg_cpu intro: same_cpu_trans)

lemma isenable_cpu:
  "vdev_gic2_dist_isenable data base i (me, h) = Inr (me', h') \<Longrightarrow> same_cpu h h'"
  by (auto simp: vdev_gic2_dist_isenable_def Let_def bindR_eq_Inr same_cpu_def
      split: if_splits dest: dev_gic2_dist_enable_irq_dev)

lemma icenable_cpu:
  "vdev_gic2_dist_icenable data base i (me, h) = Inr (me', h') \<Longrightarrow> same_cpu h h'"
  by (auto simp: vdev_gic2_dist_icenable_def Let_def bindR_eq_Inr same_cpu_def
      split: if_splits dest: dev_gic2_dist_disable_irq_dev)

lemma forR_cpu:
  assumes "\<And>i me h me' h'. f i (me, h) = Inr (me', h') \<Longrightarrow> same_cpu h h'"
    and "forR f ns (me, h) = Inr (me', h')"
  shows "same_cpu h h'"
  using assms(2)
proof (induction ns arbitrary: me h)
  case (Cons i ns)
  then obtain m1 h1 where 1: "f i (me, h) = Inr (m1, h1)" "forR f ns (m1, h1) = Inr (me', h')"
    by (auto simp: bindR_eq_Inr)
  from assms(1) [OF 1(1)] Cons.IH [OF 1(2)] show ?case by (rule same_cpu_trans)
qed simp

lemma forR_enable_cpu:
  "forR (vdev_gic2_dist_isenable data base) ns (me, h) = Inr (me', h') \<Longrightarrow> same_cpu h h'"
  "forR (vdev_gic2_dist_icenable data base) ns (me, h) = Inr (me', h') \<Longrightarrow> same_cpu h h'"
  by (erule forR_cpu [rotated], erule isenable_cpu) (erule forR_cpu [rotated], erule icenable_cpu)

lemma vdist_write_cpu:
  "vdev_gic2_dist_write me offset data h = Inr (me', h') \<Longrightarrow> same_cpu h h'"
  unfolding vdev_gic2_dist_write_def Let_def
  by (auto split: if_splits dest: forR_enable_cpu)

lemma sysreg_read_cpu: "vdev_rpb_sysreg_read c offset h = Inr (v, h') \<Longrightarrow> same_cpu h h'"
  by (auto simp: vdev_rpb_sysreg_read_def Let_def case_prod_beta dev_sys_ctrl_100counter_def
      dev_sys_ctrl_24Mcounter_def split: if_splits dest!: same_cpu_readw_eq
      intro: same_cpu_trans [OF same_cpu_readw])

lemma dabort_vdev_cpu:
  assumes "dabort_vdev i sp base offset is_load rt s = Inr s'"
  shows "same_cpu (hw s) (hw s') \<and> sys_mem_allocator s' = sys_mem_allocator s"
  using assms unfolding dabort_vdev_def
  by (auto split: if_splits simp: vdev_rpb_sysreg_write_def bindR_eq_Inr
      elim!: dabort_load_cpu dabort_store_cpu dest: vdist_write_cpu sysreg_read_cpu)

section \<open>The page of a data abort\<close>

definition fault_page :: "meteor \<Rightarrow> u32" where
  "fault_page s =
     (let ipa = push_bit 12 (drop_bit 4 (cp15_read HPFAR (hw s)));
          ipa = ipa OR (cp15_read HDFAR (hw s) AND mask32 11 0)
      in ipa AND mask32 31 12)"

text \<open>The two windows of addresses in which the handler takes an abort for missing memory.\<close>

definition memory_fault :: "meteor \<Rightarrow> bool" where
  "memory_fault s \<longleftrightarrow> fault_page s \<le> 0x08000000
     \<or> 0x70000000 \<le> fault_page s \<and> fault_page s < 0x90000000"

lemma no_wrap: "b \<le> b + 0x70000000 \<longleftrightarrow> b < (0x90000000 :: u32)"
proof -
  have b: "unat b < 0x100000000" using unsigned_less [of b] by simp
  show ?thesis
  proof (cases "unat b < 0x90000000")
    case True
    then show ?thesis by (simp add: word_le_nat_alt word_less_nat_alt unat_word_ariths)
  next
    case False
    then have "(unat b + 0x70000000) mod 0x100000000 = unat b + 0x70000000 - 0x100000000"
      using b by (simp add: le_mod_geq)
    with False show ?thesis
      by (simp add: word_le_nat_alt word_less_nat_alt unat_word_ariths)
  qed
qed

definition fault_pages :: "u32 \<Rightarrow> u32 \<times> u32" where
  "fault_pages b = (if b \<le> 0x08000000 then (b, b + 0x70000000) else (b - 0x70000000, b))"

lemma dabort_memory_eq:
  assumes "memory_fault s"
  shows "guest_rpb_hyp_trap_dabort_handler i sp iss s =
    (case fault_pages (fault_page s) of (low, high) \<Rightarrow> dabort_new_page i low high s)"
  using assms
  by (cases "fault_page s \<le> 0x08000000")
    (simp_all add: guest_rpb_hyp_trap_dabort_handler_def Let_def memory_fault_def no_wrap
      fault_pages_def flip: fault_page_def [unfolded Let_def])

lemma dabort_device_eq:
  assumes "\<not> memory_fault s"
  obtains offset where "guest_rpb_hyp_trap_dabort_handler i sp iss s =
    bindR (dabort_decode (cp15_read HADFSR (hw s)))
      (\<lambda>(is_load, rt). dabort_vdev i sp (fault_page s) offset is_load rt (vm_trigger i TRAP_DABORT_VDEV s))"
  using assms
  by (intro that) (auto simp: guest_rpb_hyp_trap_dabort_handler_def Let_def memory_fault_def no_wrap
      vm_trigger_def simp flip: fault_page_def [unfolded Let_def])

lemma rf_elr_same_cpu: "same_cpu h h' \<Longrightarrow> rf_elr_hyp_read h' = rf_elr_hyp_read h"
  by (simp add: same_cpu_def rf_elr_hyp_read_def mrs_def)

lemma dabort_memory:
  assumes "memory_fault s" and "last_i s < PAGE_COUNT"
    and "guest_rpb_hyp_trap_dabort_handler i sp iss s = Inr s'"
  obtains j where "slot_free (sys_mem_allocator s) j"
    and "target_vm (sys_mem_allocator s') = (target_vm (sys_mem_allocator s))(j := guest_id (vm s i))"
    and "alloc_ipa (sys_mem_allocator s') j = fst (fault_pages (fault_page s))"
    and "alloc_high_ipa (sys_mem_allocator s') j = snd (fault_pages (fault_page s))"
    and "rf_elr_hyp_read (hw s') = rf_elr_hyp_read (hw s) - 4"
proof -
  let ?t = "vm_trigger i ALLOCATE_PAGE s"
  obtain low high where lh: "fault_pages (fault_page s) = (low, high)" by fastforce
  have "dabort_new_page i low high s = Inr s'" using assms dabort_memory_eq [OF assms(1)] lh by simp
  then obtain pa me li g h where n: "memory_allocator_new_page (sys_mem_allocator s) (last_i s)
      (vm ?t i) low high (hw s) = Inr (pa, me, li, g, h)"
    and s': "sys_mem_allocator s' = me" "hw s' = rf_elr_hyp_write (rf_elr_hyp_read h - 4) h"
    by (auto simp: dabort_new_page_def Let_def bindR_eq_Inr vm_trigger_def)
  obtain j where j: "slot_free (sys_mem_allocator s) j"
    and t: "memory_allocator_take (sys_mem_allocator s) (vm ?t i) low high j (hw s) = (pa, me, g, h)"
    by (rule new_page_cases [OF assms(2), where me = "sys_mem_allocator s" and vm = "vm ?t i"
        and ipa = low and high_ipa = high and h = "hw s"]) (use n in auto)
  have "guest_id (vm ?t i) = guest_id (vm s i)" by (simp add: vm_trigger_def)
  with j take_simps [OF t] rf_elr_same_cpu [OF take_cpu [OF t]] show ?thesis
    by (intro that [of j]) (simp_all add: s' lh rf_elr_hyp_read_write)
qed

lemma dabort_device:
  assumes "\<not> memory_fault s" and "guest_rpb_hyp_trap_dabort_handler i sp iss s = Inr s'"
  shows "sys_mem_allocator s' = sys_mem_allocator s \<and> rf_elr_hyp_read (hw s') = rf_elr_hyp_read (hw s)"
proof -
  let ?t = "vm_trigger i TRAP_DABORT_VDEV s"
  obtain offset where "guest_rpb_hyp_trap_dabort_handler i sp iss s =
    bindR (dabort_decode (cp15_read HADFSR (hw s)))
      (\<lambda>(is_load, rt). dabort_vdev i sp (fault_page s) offset is_load rt ?t)"
    by (rule dabort_device_eq [OF assms(1)])
  with assms(2) obtain l rt where "dabort_vdev i sp (fault_page s) offset l rt ?t = Inr s'"
    by (auto simp: bindR_eq_Inr)
  from dabort_vdev_cpu [OF this] show ?thesis
    by (auto simp: vm_trigger_def dest: rf_elr_same_cpu)
qed

text \<open>The return address is not an input of the handlers.\<close>

lemma fault_page_elr: "fault_page (s\<lparr>hw := rf_elr_hyp_write v (hw s)\<rparr>) = fault_page s"
proof -
  have "cp15 (rf_elr_hyp_write v (hw s)) = cp15 (hw s)" by (simp add: rf_elr_hyp_write_def hw_simps)
  then show ?thesis
    by (simp add: fault_page_def cp15_read_cong [of "rf_elr_hyp_write v (hw s)" "hw s"])
qed

end
