(* ===== verification/Delivery.thy ===== *)
theory Delivery
  imports Handler_Inv
begin

text \<open>
  Where an interrupt ends up when it is delivered: in a list register of its guest, the ones
  of the interrupt controller while the guest runs and those of its backup otherwise, and
  from there in the controller when the guest is switched to.
\<close>

section \<open>List registers across a restore\<close>

lemma restore_vm_live:
  assumes "ctx_ok (sys_gic_vctrl s) (sys_gic_vcpu_if s) sp (hw s)" and "\<not> dirty_of s i"
  obtains t where "restore_vm i sp s = Inr t" and "dev (hw t) = dev (hw s)"
    and "sys_gic_vctrl t = sys_gic_vctrl s" and "vdev_gic_dist (vm t i) = vdev_gic_dist (vm s i)"
    and "\<And>j. j < 64 \<Longrightarrow> live_list (sys_gic_vctrl s) (hw t) j = bk_list (bk (vm s i)) j"
proof -
  obtain h where r: "guest_restore (sys_gic_vctrl s) (sys_gic_vcpu_if s) (vm s i) sp (hw s)
      = Inr (guest_id (vm s i), (vm s i)\<lparr>bk := (bk (vm s i))\<lparr>dirty := True\<rparr>\<rparr>, h)"
    and d: "dev h = dev (hw s)"
    and l: "ctx_live (sys_gic_vctrl s) (sys_gic_vcpu_if s) sp
      ((bk (vm s i))\<lparr>bk_cp15 := (bk_cp15 (bk (vm s i)))\<lparr>vttbr_lpae :=
        set_field64 (vttbr_lpae (bk_cp15 (bk (vm s i)))) 55 48
          (word_of_int (guest_id (vm s i)))\<rparr>\<rparr>) h"
    by (rule guest_restore_live [OF assms])
  from r have "restore_vm i sp s = Inr (upd_vm i (\<lambda>_. (vm s i)\<lparr>bk := (bk (vm s i))\<lparr>dirty := True\<rparr>\<rparr>)
      (s\<lparr>hw := h, vm_id := guest_id (vm s i)\<rparr>))"
    by (simp add: restore_vm_def)
  then show ?thesis by (rule that) (use d l in \<open>simp_all add: ctx_live_def\<close>)
qed

lemma live_list_ok_dev: "dev h' = dev h \<Longrightarrow> live_list_ok gic h \<Longrightarrow> live_list_ok gic h'"
  by (simp add: live_list_ok_def ram_def)

lemma inject_live:
  assumes "live_list_ok gic h" and "inject_loop (dev_gic2_vctrl_read_list gic)
    (dev_gic2_vctrl_write_list_simple gic) pid vid [0..<64] h = Some h'"
  obtains n where "first_invalid (live_list gic h) [0..<64] = Some n" and "n < 64"
    and "\<And>j. j < 64 \<Longrightarrow> live_list gic h' j =
      (if n = j then list_reg_inject (live_list gic h n) pid vid else live_list gic h j)"
proof -
  have ns: "set [0..<64] \<subseteq> {..<64 :: nat}" by auto
  obtain n where n: "first_invalid (live_list gic h) [0..<64] = Some n"
    "\<And>j. j < 64 \<Longrightarrow> live_list gic h' j =
      (if n = j then list_reg_inject (live_list gic h n) pid vid else live_list gic h j)"
    using live.inject_loop_Some [OF assms(1) ns assms(2)] by metis
  have "n < 64" using first_invalid_Some [OF n(1)] by simp
  with n show ?thesis by (intro that)
qed

section \<open>The list registers of a guest\<close>

text \<open>The list registers that count for a guest: the live ones while it is not saved.\<close>

definition guest_list :: "meteor \<Rightarrow> int \<Rightarrow> nat \<Rightarrow> u32" where
  "guest_list s i = (if dirty_of s i then live_list (sys_gic_vctrl s) (hw s) else bk_list (bk (vm s i)))"

definition takes_irq :: "int \<Rightarrow> int \<Rightarrow> (nat \<Rightarrow> u32) \<Rightarrow> (nat \<Rightarrow> u32) \<Rightarrow> bool" where
  "takes_irq pid vid l l' \<longleftrightarrow> (\<exists>n < 64. first_invalid l [0..<64] = Some n
     \<and> (\<forall>j < 64. l' j = (if n = j then list_reg_inject (l n) pid vid else l j)))"

lemma takes_irq_cong:
  "takes_irq pid vid l l' \<Longrightarrow> (\<And>j. j < 64 \<Longrightarrow> l'' j = l' j) \<Longrightarrow> takes_irq pid vid l l''"
  by (auto simp: takes_irq_def)

lemma guest_list_simps [simp]:
  "guest_list (vm_trigger k e s) i = guest_list s i" "guest_list (sys_trigger e s) i = guest_list s i"
  "guest_list (set_wfi k w s) i = guest_list s i"
  by (simp_all add: guest_list_def vm_trigger_def sys_trigger_def set_wfi_def upd_vm_def)

lemma irq_inject_takes:
  assumes ok: "live_list_ok (sys_gic_vctrl s) (hw s)" and pid: "pid \<noteq> 1023"
    and wfi: "dirty_of s t \<Longrightarrow> wfi_of s t \<noteq> WFI_In" and inj: "irq_inject sp pid t s = Inr u"
  obtains vid where "vdev_gic2_dist_irq_to_virq (vdev_gic_dist (vm s t)) pid = vid" and "vid \<noteq> -1"
    and "takes_irq pid vid (guest_list s t) (guest_list u t)"
    and "sys_gic_vctrl u = sys_gic_vctrl s" and "sys_gic_vcpu_if u = sys_gic_vcpu_if s"
    and "sys_timer u = sys_timer s" and "\<not> dirty_of s t \<Longrightarrow> hw u = hw s"
proof -
  define vid where "vid = vdev_gic2_dist_irq_to_virq (vdev_gic_dist (vm s t)) pid"
  obtain v where v: "(if dirty_of s t then guest_rpb_irq_handler t sp pid s
      else guest_rpb_irq_handler_suspend t sp pid s) = Inr v"
    and u: "u = (if wfi_of v t = WFI_In then set_wfi t WFI_PendingIRQ v else v)"
    using inj wfi unfolding irq_inject_def bindR_eq_Inr by (cases "dirty_of s t") auto
  have eq: "guest_list u t = guest_list v t" "sys_gic_vctrl u = sys_gic_vctrl v"
    "sys_gic_vcpu_if u = sys_gic_vcpu_if v" "sys_timer u = sys_timer v" "hw u = hw v"
    by (simp_all add: u) (simp_all add: set_wfi_def)
  show ?thesis
  proof (cases "dirty_of s t")
    case True
    then obtain h where vid: "vid \<noteq> -1" and h: "inject_loop (dev_gic2_vctrl_read_list (sys_gic_vctrl s))
        (dev_gic2_vctrl_write_list_simple (sys_gic_vctrl s)) pid vid [0..<64] (hw s) = Some h"
      and v': "v = (vm_trigger t TRAP_IRQ s)\<lparr>hw := h\<rparr>"
      using v pid by (auto simp: guest_rpb_irq_handler_def Let_def vid_def vm_trigger_def
          split: if_splits option.splits)
    obtain n where "first_invalid (live_list (sys_gic_vctrl s) (hw s)) [0..<64] = Some n" "n < 64"
      "\<And>j. j < 64 \<Longrightarrow> live_list (sys_gic_vctrl s) h j =
        (if n = j then list_reg_inject (live_list (sys_gic_vctrl s) (hw s) n) pid vid
         else live_list (sys_gic_vctrl s) (hw s) j)"
      by (rule inject_live [OF ok h]) blast
    then have "takes_irq pid vid (guest_list s t) (guest_list v t)"
      using True by (auto simp: takes_irq_def guest_list_def v' vm_trigger_def)
    then show ?thesis
      using True vid by (intro that [of vid]) (simp_all add: eq v' vm_trigger_def vid_def)
  next
    case False
    then obtain l where vid: "vid \<noteq> -1"
      and l: "inject_loop (\<lambda>k l. (l k, l)) (\<lambda>k v l. l(k := v)) pid vid [0..<64] (bk_list (bk (vm s t))) = Some l"
      and v': "v = upd_vm t (\<lambda>g. g\<lparr>bk := (bk g)\<lparr>bk_list := l\<rparr>\<rparr>) s"
      using v pid by (auto simp: guest_rpb_irq_handler_suspend_def Let_def vid_def
          split: if_splits option.splits)
    have ns: "set [0..<64] \<subseteq> {..<64 :: nat}" by auto
    obtain n where n: "first_invalid (bk_list (bk (vm s t))) [0..<64] = Some n"
      "\<And>j. j < 64 \<Longrightarrow> l j = (if n = j then list_reg_inject (bk_list (bk (vm s t)) n) pid vid
        else bk_list (bk (vm s t)) j)"
      using saved.inject_loop_Some [OF _ ns l] by metis
    moreover have "n < 64" using first_invalid_Some [OF n(1)] by simp
    ultimately have "takes_irq pid vid (guest_list s t) (guest_list v t)"
      using False by (auto simp: takes_irq_def guest_list_def v')
    then show ?thesis
      using False vid by (intro that [of vid]) (simp_all add: eq v' vid_def)
  qed
qed

section \<open>Switching to the guest from the idle thread\<close>

text \<open>The timer's register is not one of the list registers.\<close>

lemma list_reg_addr_timer:
  "vctrl_base_addr gic = 0x50002000 \<Longrightarrow> n < 64 \<Longrightarrow> list_reg_addr gic n \<noteq> 0x50005000"
proof
  assume gic: "vctrl_base_addr gic = 0x50002000" and n: "n < 64" and "list_reg_addr gic n = 0x50005000"
  moreover have "unat (list_reg_addr gic n) = 0x50002100 + n * 4"
    using n by (simp add: list_reg_addr_def gic unat_word_ariths unat_of_nat)
  ultimately show False by simp
qed

lemma idle_switch_list:
  assumes pre: "sched_pre u" and clean: "\<And>i. 0 \<le> i \<Longrightarrow> i < 4 \<Longrightarrow> \<not> dirty_of u i"
    and next_t: "next_guest u = Some t"
    and gic: "vctrl_base_addr (sys_gic_vctrl u) = 0x50002000" "load (sys_timer u) 0 = 0x50005000"
    and ctx: "ctx_ok (sys_gic_vctrl u) (sys_gic_vcpu_if u) sp (hw u)"
    and r: "scheduler sp u = Inr (fl, s')" and j: "j < 64"
  shows "guest_list s' t j = guest_list u t j"
proof -
  note t = next_guest_range [OF next_t] and v = sched_pre_vm_id [OF pre]
  define s0 where "s0 = (if wfi_of u t = WFI_PendingIRQ then set_wfi t WFI_Out u else u)"
  have s0: "dirty_of s0 i = dirty_of u i" "bk (vm s0 i) = bk (vm u i)" "hw s0 = hw u"
    "sys_gic_vctrl s0 = sys_gic_vctrl u" "sys_gic_vcpu_if s0 = sys_gic_vcpu_if u"
    "sys_timer s0 = sys_timer u" "vm_id s0 = vm_id u" for i
    by (simp_all add: s0_def set_wfi_def)
  have "suspend_vm (vm_id u) sp s0 = Inr s0"
    using guest_suspend_clean [of "vm s0 (vm_id u)"] clean v s0(1) by (simp add: suspend_vm_def upd_vm_def)
  then obtain w where w: "restore_vm t sp s0 = Inr w"
    and s': "s' = scheduler_leave_idle (scheduler_reset_timer (sys_trigger VM_SWITCH w))"
    using r v by (auto simp: scheduler_rr_cases next_t scheduler_switch_def bindR_eq_Inr simp flip: s0_def)
  have c0: "\<not> dirty_of s0 t" using clean t s0(1) by simp
  have ctx0: "ctx_ok (sys_gic_vctrl s0) (sys_gic_vcpu_if s0) sp (hw s0)" using ctx by (simp add: s0)
  obtain w' where "restore_vm t sp s0 = Inr w'" "\<And>j. j < 64 \<Longrightarrow>
      live_list (sys_gic_vctrl s0) (hw w') j = bk_list (bk (vm s0 t)) j"
    by (rule restore_vm_live [OF ctx0 c0]) blast
  with w have l: "live_list (sys_gic_vctrl u) (hw w) j = bk_list (bk (vm u t)) j" using j by (simp add: s0)
  have w2: "dirty_of w t" "sys_gic_vctrl w = sys_gic_vctrl u" "sys_timer w = sys_timer u"
    using w c0 by (auto simp: restore_vm_def guest_restore_def bindR_eq_Inr Let_def s0)
  have "aligned 2 (list_reg_addr (sys_gic_vctrl u) j)"
    using ctx j by (intro aligned_list_reg_addr) (simp_all add: ctx_ok_def live_list_ok_def)
  then have "live_list (sys_gic_vctrl u) (hw s') j = live_list (sys_gic_vctrl u) (hw w) j"
    using list_reg_addr_timer [OF gic(1) j]
    by (simp add: s' scheduler_leave_idle_def scheduler_reset_timer_def dev_timer_set_load_def w2 gic
        live_list_def hw_simps load32_store32 aligned_def [of _ "0x50005000"])
  moreover have "dirty_of s' t" "sys_gic_vctrl s' = sys_gic_vctrl u"
    using w2 by (simp_all add: s' scheduler_leave_idle_def scheduler_reset_timer_def)
  moreover have "\<not> dirty_of u t" using clean t by simp
  ultimately show ?thesis using l by (simp add: guest_list_def)
qed

section \<open>Delivery\<close>

lemma irq_deliver_takes:
  assumes inv: "run_inv s" and t: "0 \<le> t" "t < 4" and d: "irq_deliver sp pid t s = Inr (fl, s')"
    and gic: "vctrl_base_addr (sys_gic_vctrl s) = 0x50002000" "load (sys_timer s) 0 = 0x50005000"
    and ctx: "ctx_ok (sys_gic_vctrl s) (sys_gic_vcpu_if s) sp (hw s)" and pid: "pid \<noteq> 1023"
  obtains vid where "vdev_gic2_dist_irq_to_virq (vdev_gic_dist (vm s t)) pid = vid" and "vid \<noteq> -1"
    and "takes_irq pid vid (guest_list s t) (guest_list s' t)"
proof -
  have pre: "sched_pre s" by (rule run_inv_pre [OF inv])
  have kind: "guest_kind (vm s t) = Realview_PB" using pre t by (simp add: sched_pre_def guests_ok_def)
  from d obtain u where u: "irq_inject sp pid t (sys_trigger TRAP_IRQ s) = Inr u"
    and fl: "(if scheduler_is_idle u then scheduler sp u else Inr (Resume, u)) = Inr (fl, s')"
    unfolding irq_deliver_eq [OF kind] by (auto simp: bindR_eq_Inr)
  note e = irq_inject_effect [OF u]
  have dirty: "dirty_of s t \<Longrightarrow> \<not> scheduler_idle s \<and> t = vm_id s"
    using inv t by (auto simp: run_inv_def sched_pre_def split: if_splits)
  then have wfi: "dirty_of s t \<Longrightarrow> wfi_of s t \<noteq> WFI_In" using inv by (auto simp: run_inv_def)
  obtain vid where vid: "vdev_gic2_dist_irq_to_virq (vdev_gic_dist (vm s t)) pid = vid" "vid \<noteq> -1"
    and l: "takes_irq pid vid (guest_list s t) (guest_list u t)"
    and same: "sys_gic_vctrl u = sys_gic_vctrl s" "sys_gic_vcpu_if u = sys_gic_vcpu_if s"
      "sys_timer u = sys_timer s" "\<not> dirty_of s t \<Longrightarrow> hw u = hw s"
    by (rule irq_inject_takes [of "sys_trigger TRAP_IRQ s", OF _ pid _ u]) (use wfi ctx in \<open>auto simp: ctx_ok_def\<close>)
  have "takes_irq pid vid (guest_list s t) (guest_list s' t)"
  proof (cases "scheduler_idle s")
    case False
    with fl e(2) l show ?thesis by (simp add: scheduler_is_idle_def)
  next
    case True
    have clean: "\<not> dirty_of u i" if "0 \<le> i" "i < 4" for i
      using inv True that e(6) by (cases "i = vm_id s") (auto simp: run_inv_def sched_pre_def)
    then have "\<not> dirty_of s t" using e(6) t by simp
    with same(4) have hw: "hw u = hw s" by simp
    have preu: "sched_pre u"
      using irq_inject_pre [OF u] pre same_control_pre [OF same_control_trigger(2) [of s TRAP_IRQ]] by simp
    have r: "scheduler sp u = Inr (fl, s')" using fl e(2) True by (simp add: scheduler_is_idle_def)
    have "next_guest u \<noteq> None"
    proof
      assume "next_guest u = None"
      then obtain w where "scheduler sp u = Inr (Idle_Thread, w)" by (rule scheduler_none [OF preu])
      with r irq_deliver_idle [OF inv True t d] show False by simp
    qed
    then obtain i where i: "next_guest u = Some i" by blast
    have "vm_id s' = i" using scheduler_some [OF preu i, of sp] r by (metis Inr_inject prod.inject)
    then have "i = t" using irq_deliver_idle [OF inv True t d] by simp
    have "guest_list s' t j = guest_list u t j" if "j < 64" for j
      by (rule idle_switch_list [OF preu clean i [unfolded \<open>i = t\<close>] _ _ _ r that])
        (use same hw gic ctx in simp_all)
    with l show ?thesis by (rule takes_irq_cong)
  qed
  with vid show ?thesis by (rule that)
qed

end
