(* ===== verification/Props_Guest.thy ===== *)
theory Props_Guest
  imports Samples Fault_Inv Delivery
begin

text \<open>
  The properties of a guest's context and of what the handlers do for it: saving and
  restoring its registers, injecting its interrupts, serving its data aborts and its calls,
  each with a concrete instance where it has hypotheses.
\<close>

section \<open>The context\<close>

text \<open>
  C24. Saving a running guest and restoring it later, on another stack frame and over
  whatever the guests in between left, brings back what the hypervisor saves: the banked stack
  pointers, link registers and status registers, the pushed registers, the list registers,
  the virtual CPU interface and the sixteen system registers of a backup; in the stage 2 base
  register the VMID field becomes the guest's number. It is not the whole context: every system
  register that a backup does not hold, such as VBAR, keeps the value the guests in between left
  (R8 to R12 of the FIQ mode, which no code here touches, are not modelled).
\<close>

theorem guest_suspend_restore_roundtrip:
  assumes "ctx_ok gic vc sp h" and "dirty (bk g)" and "ctx_ok gic vc sp2 h2"
    and "sp \<noteq> 0" and "sp2 \<noteq> 0"
  shows "\<exists>g1 h1 g2 h3. guest_suspend gic vc g sp h = Inr (g1, h1)
    \<and> guest_restore gic vc g1 sp2 h2 = Inr (guest_id g, g2, h3)
    \<and> banked h3 = banked h \<and> (\<forall>k < 14. stack_reg sp2 h3 k = stack_reg sp h k)
    \<and> (\<forall>i < 64. live_list gic h3 i = live_list gic h i)
    \<and> load32 (mem h3) (vcpu_if_base_address vc) = load32 (mem h) (vcpu_if_base_address vc)
    \<and> cp15_snapshot h3 = (cp15_snapshot h)\<lparr>vttbr_lpae :=
        set_field64 (vttbr_lpae (cp15_snapshot h)) 55 48 (word_of_int (guest_id g))\<rparr>
    \<and> (\<forall>c. c \<notin> set guest_cp15_coords \<longrightarrow> cp15 h3 c = cp15 h2 c)
    \<and> cp15_read VBAR h3 = cp15_read VBAR h2"
proof -
  obtain b h1 where s: "guest_suspend gic vc g sp h = Inr (g\<lparr>bk := b\<rparr>, h1)" and "\<not> dirty b"
    and l: "ctx_live gic vc sp b h"
    by (rule guest_suspend_live [OF assms(1,2)])
  let ?g1 = "g\<lparr>bk := b\<rparr>"
  obtain h3 where r: "guest_restore gic vc ?g1 sp2 h2
      = Inr (guest_id ?g1, ?g1\<lparr>bk := (bk ?g1)\<lparr>dirty := True\<rparr>\<rparr>, h3)"
    and l3: "ctx_live gic vc sp2 ((bk ?g1)\<lparr>bk_cp15 := (bk_cp15 (bk ?g1))\<lparr>vttbr_lpae :=
      set_field64 (vttbr_lpae (bk_cp15 (bk ?g1))) 55 48 (word_of_int (guest_id ?g1))\<rparr>\<rparr>) h3"
    by (rule guest_restore_live [OF assms(3), of ?g1]) (use \<open>\<not> dirty b\<close> in simp_all)
  have other: "cp15 h3 c = cp15 h2 c" if "c \<notin> set guest_cp15_coords" for c
    by (rule guest_restore_other [OF r that])
  have "cp15_full_name VBAR = VBAR" "cp15_parse VBAR = Some (12, 0, 0, 0)"
    by (simp_all add: cp15_eval cp15_full_name_alt cp15_parse_def cp15_cases_def)
  then have vbar: "cp15_read VBAR h3 = cp15_read VBAR h2"
    using other [of "(12, 0, 0, 0)"] by (simp add: cp15_read_full guest_cp15_coords_def)
  show ?thesis
    by (rule exI [of _ ?g1], rule exI [of _ h1],
        rule exI [of _ "?g1\<lparr>bk := (bk ?g1)\<lparr>dirty := True\<rparr>\<rparr>"], rule exI [of _ h3])
      (use s r l l3 assms(4,5) other vbar in \<open>simp add: ctx_live_def rf_live_def\<close>)
qed

text \<open>A controller, a virtual CPU interface and a stack in plain memory.\<close>

lemma sample_ctx_ok:
  "ctx_ok \<lparr>vctrl_base_addr = 0x50002000\<rparr> \<lparr>vcpu_if_base_address = 0x50003000\<rparr> 0x06000000 sample_machine"
proof -
  have "list_reg_addr \<lparr>vctrl_base_addr = 0x50002000\<rparr> n \<noteq> 0x50003000" if "n < 64" for n
  proof -
    have "unat (list_reg_addr \<lparr>vctrl_base_addr = 0x50002000\<rparr> n) = 0x50002100 + n * 4"
      using that by (simp add: list_reg_addr_def unat_word_ariths unat_of_nat)
    then show ?thesis using that by auto
  qed
  moreover have "stack_slot 0x06000000 k \<noteq> 0x50003000
      \<and> (\<forall>n < 64. stack_slot 0x06000000 k \<noteq> list_reg_addr \<lparr>vctrl_base_addr = 0x50002000\<rparr> n)"
    if "k < 14" for k
  proof -
    have "stack_slot 0x06000000 k = of_nat (0x05FFFFC8 + 4 * k)" by (simp add: stack_slot_def)
    moreover have "0x05FFFFC8 + 4 * k < 2 ^ LENGTH(32)" using that by simp
    ultimately have "unat (stack_slot 0x06000000 k) = 0x05FFFFC8 + 4 * k"
      by (simp only: unat_of_nat mod_less)
    then have low: "unat (stack_slot 0x06000000 k) < 0x06000000" using that by simp
    have "stack_slot 0x06000000 k \<noteq> list_reg_addr \<lparr>vctrl_base_addr = 0x50002000\<rparr> n" if "n < 64" for n
    proof -
      have "unat (list_reg_addr \<lparr>vctrl_base_addr = 0x50002000\<rparr> n) = 0x50002100 + n * 4"
        using that by (simp add: list_reg_addr_def unat_word_ariths unat_of_nat)
      then show ?thesis using low by auto
    qed
    moreover have "stack_slot 0x06000000 k \<noteq> 0x50003000" using low by auto
    ultimately show ?thesis by blast
  qed
  ultimately show ?thesis
    by (auto simp: ctx_ok_def live_list_ok_def stack_ok_def aligned_def)
qed

theorem guest_suspend_restore_roundtrip_witness:
  "\<exists>g1 h1 g2 h3. guest_suspend \<lparr>vctrl_base_addr = 0x50002000\<rparr> \<lparr>vcpu_if_base_address = 0x50003000\<rparr>
      (sample_guest True WFI_Out 2) 0x06000000 sample_machine = Inr (g1, h1)
    \<and> guest_restore \<lparr>vctrl_base_addr = 0x50002000\<rparr> \<lparr>vcpu_if_base_address = 0x50003000\<rparr> g1 0x06000000
      sample_machine = Inr (2, g2, h3) \<and> banked h3 = banked sample_machine
    \<and> (\<forall>k < 14. stack_reg 0x06000000 h3 k = stack_reg 0x06000000 sample_machine k)"
proof -
  have d: "dirty (bk (sample_guest True WFI_Out 2))" and n: "(0x06000000 :: u32) \<noteq> 0" by simp_all
  from guest_suspend_restore_roundtrip [OF sample_ctx_ok d sample_ctx_ok n n] show ?thesis
    unfolding sample_guest_simps by blast
qed

section \<open>Interrupts\<close>

text \<open>
  C25. Injecting an interrupt into the saved list registers of a guest that does not run, and
  restoring the guest afterwards, leaves the interrupt controller with the same list registers
  as restoring the guest first and injecting the interrupt live.
\<close>

theorem irq_suspended_equals_live:
  assumes ok: "ctx_ok (sys_gic_vctrl s) (sys_gic_vcpu_if s) sp (hw s)" and clean: "\<not> dirty_of s i"
    and inj: "guest_rpb_irq_handler_suspend i sp2 pid s = Inr u"
  shows "\<exists>a b c. restore_vm i sp u = Inr a \<and> restore_vm i sp s = Inr b
    \<and> guest_rpb_irq_handler i sp2 pid b = Inr c
    \<and> (\<forall>j < 64. live_list (sys_gic_vctrl s) (hw a) j = live_list (sys_gic_vctrl s) (hw c) j)"
proof -
  let ?gic = "sys_gic_vctrl s" and ?l = "bk_list (bk (vm s i))"
  obtain b where b: "restore_vm i sp s = Inr b" "dev (hw b) = dev (hw s)" "sys_gic_vctrl b = ?gic"
    "vdev_gic_dist (vm b i) = vdev_gic_dist (vm s i)" "\<And>j. j < 64 \<Longrightarrow> live_list ?gic (hw b) j = ?l j"
    by (rule restore_vm_live [OF ok clean]) blast
  show ?thesis
  proof (cases "pid = 1023")
    case True
    with inj have "u = s" by (simp add: guest_rpb_irq_handler_suspend_def)
    then show ?thesis
      using b(1) True by (simp add: guest_rpb_irq_handler_def Let_def vm_trigger_def)
  next
    case False
    define vid where "vid = vdev_gic2_dist_irq_to_virq (vdev_gic_dist (vm s i)) pid"
    from inj False obtain l where vid: "vid \<noteq> -1"
      and l: "inject_loop (\<lambda>k l. (l k, l)) (\<lambda>k v l. l(k := v)) pid vid [0..<64] ?l = Some l"
      and u: "u = upd_vm i (\<lambda>g. g\<lparr>bk := (bk g)\<lparr>bk_list := l\<rparr>\<rparr>) s"
      by (auto simp: guest_rpb_irq_handler_suspend_def Let_def vid_def split: if_splits option.splits)
    have u': "sys_gic_vctrl u = ?gic" "sys_gic_vcpu_if u = sys_gic_vcpu_if s" "hw u = hw s"
      "dirty_of u i = dirty_of s i" "bk_list (bk (vm u i)) = l"
      by (simp_all add: u)
    obtain a where a: "restore_vm i sp u = Inr a" "\<And>j. j < 64 \<Longrightarrow> live_list ?gic (hw a) j = l j"
      by (rule restore_vm_live [of u sp i]) (use ok clean u' in auto)
    have okb: "live_list_ok ?gic (hw b)"
      using ok live_list_ok_dev [OF b(2)] by (simp add: ctx_ok_def)
    have ns: "set [0..<64] \<subseteq> {..<64 :: nat}" by auto
    have "first_invalid (live_list ?gic (hw b)) [0..<64] = first_invalid ?l [0..<64]"
      by (rule first_invalid_cong) (simp add: b(5))
    moreover have "first_invalid ?l [0..<64] \<noteq> None"
      using saved.inject_loop_None [OF _ ns, where s = ?l and pid = pid and vid = vid] l by simp
    ultimately obtain h where h: "inject_loop (dev_gic2_vctrl_read_list ?gic)
        (dev_gic2_vctrl_write_list_simple ?gic) pid vid [0..<64] (hw b) = Some h"
      using live.inject_loop_None [OF okb ns, where pid = pid and vid = vid] by fastforce
    have "live_list ?gic h j = l j" if "j < 64" for j
      using live.inject_loop_view [OF okb ns h b(5) that]
        saved.inject_loop_view [OF _ ns l refl that] by simp
    moreover have "guest_rpb_irq_handler i sp2 pid b = Inr ((vm_trigger i TRAP_IRQ b)\<lparr>hw := h\<rparr>)"
      using False vid h b(3,4) by (simp add: guest_rpb_irq_handler_def Let_def vm_trigger_def vid_def)
    ultimately show ?thesis using a b(1) by auto
  qed
qed

text \<open>An idle hypervisor with its interrupt controller at the addresses of the board.\<close>

definition sample_gic :: meteor where
  "sample_gic = sample_idle\<lparr>sys_gic_vctrl := \<lparr>vctrl_base_addr = 0x50002000\<rparr>,
     sys_gic_vcpu_if := \<lparr>vcpu_if_base_address = 0x50003000\<rparr>,
     sys_timer := (sys_timer sample_idle)\<lparr>load := (\<lambda>_. 0x50005000)\<rparr>\<rparr>"

lemma sample_gic_simps [simp]:
  "sys_gic_vctrl sample_gic = \<lparr>vctrl_base_addr = 0x50002000\<rparr>" "hw sample_gic = sample_machine"
  "sys_gic_vcpu_if sample_gic = \<lparr>vcpu_if_base_address = 0x50003000\<rparr>"
  "vm sample_gic = sample_guest False WFI_In" "load (sys_timer sample_gic) 0 = 0x50005000"
  by (simp_all add: sample_gic_def)

lemma find_first: "0 < n \<Longrightarrow> P 0 \<Longrightarrow> find P [0..<n] = Some 0"
  by (simp add: upt_conv_Cons)

lemma sample_guest_virq: "vdev_gic2_dist_irq_to_virq (vdev_gic_dist (sample_guest d w i)) 0 = 0"
  unfolding vdev_gic2_dist_irq_to_virq_def
  by (subst find_first) (simp_all add: sample_guest_def guest_zero_def)

lemma free_word: "list_reg_invalid 0"
  by (simp add: list_reg_invalid_def get_field_def)

lemma inject_loop_first:
  "list_reg_invalid (fst (rd 0 s)) \<Longrightarrow> inject_loop rd wr pid vid [0..<64] s \<noteq> None"
  by (simp add: upt_conv_Cons case_prod_beta)

lemma sample_suspended_irq:
  assumes "vm s = sample_guest False WFI_In"
  shows "\<exists>u. guest_rpb_irq_handler_suspend 1 sp 0 s = Inr u"
proof -
  have "bk_list (bk (sample_guest False WFI_In 1)) 0 = 0"
    by (simp add: sample_guest_def guest_zero_def)
  with inject_loop_first [of "\<lambda>k l. (l k, l)" "bk_list (bk (sample_guest False WFI_In 1))"]
  have "inject_loop (\<lambda>k l. (l k, l)) (\<lambda>k v l. l(k := v)) 0 0 [0..<64]
      (bk_list (bk (sample_guest False WFI_In 1))) \<noteq> None"
    using free_word by simp
  then show ?thesis
    by (auto simp: assms guest_rpb_irq_handler_suspend_def Let_def sample_guest_virq simp del: upt_rec_numeral)
qed

theorem irq_suspended_equals_live_witness:
  "\<exists>u a b c. guest_rpb_irq_handler_suspend 1 0 0 sample_gic = Inr u \<and> restore_vm 1 0x06000000 u = Inr a
    \<and> restore_vm 1 0x06000000 sample_gic = Inr b \<and> guest_rpb_irq_handler 1 0 0 b = Inr c
    \<and> live_list \<lparr>vctrl_base_addr = 0x50002000\<rparr> (hw a) 0
        = live_list \<lparr>vctrl_base_addr = 0x50002000\<rparr> (hw c) 0"
proof -
  obtain u where u: "guest_rpb_irq_handler_suspend 1 0 0 sample_gic = Inr u"
    using sample_suspended_irq [of sample_gic] by auto
  have "ctx_ok (sys_gic_vctrl sample_gic) (sys_gic_vcpu_if sample_gic) 0x06000000 (hw sample_gic)"
    "\<not> dirty_of sample_gic 1"
    using sample_ctx_ok by simp_all
  from irq_suspended_equals_live [OF this u] u show ?thesis by fastforce
qed

text \<open>
  C26. Delivering a mapped interrupt to the guest that runs puts it, pending, with its
  physical and its virtual number, into the first free list register, and leaves the other
  list registers alone.
\<close>

theorem irq_handler_injects:
  assumes "live_list_ok (sys_gic_vctrl s) (hw s)" and "pid \<noteq> 1023"
    and inj: "guest_rpb_irq_handler i sp pid s = Inr s'"
  shows "\<exists>n < 64. \<exists>vid. 0 \<le> vid \<and> vid < 64 \<and> virq_pid (virq (vdev_gic_dist (vm s i)) (nat vid)) = pid
    \<and> list_reg_invalid (live_list (sys_gic_vctrl s) (hw s) n)
    \<and> (\<forall>j < n. \<not> list_reg_invalid (live_list (sys_gic_vctrl s) (hw s) j))
    \<and> get_field (live_list (sys_gic_vctrl s) (hw s') n) 29 28 = list_reg_state_val LR_Pending
    \<and> get_field (live_list (sys_gic_vctrl s) (hw s') n) 19 10 = take_bit 10 (word_of_int pid)
    \<and> get_field (live_list (sys_gic_vctrl s) (hw s') n) 9 0 = take_bit 10 (word_of_int vid)
    \<and> (\<forall>j < 64. j \<noteq> n \<longrightarrow> live_list (sys_gic_vctrl s) (hw s') j = live_list (sys_gic_vctrl s) (hw s) j)"
proof -
  define vid where "vid = vdev_gic2_dist_irq_to_virq (vdev_gic_dist (vm s i)) pid"
  from inj assms(2) obtain h where vid: "vid \<noteq> -1" and h: "inject_loop
      (dev_gic2_vctrl_read_list (sys_gic_vctrl s)) (dev_gic2_vctrl_write_list_simple (sys_gic_vctrl s))
      pid vid [0..<64] (hw s) = Some h" and s': "hw s' = h"
    by (auto simp: guest_rpb_irq_handler_def Let_def vid_def vm_trigger_def
        split: if_splits option.splits)
  obtain n where n: "first_invalid (live_list (sys_gic_vctrl s) (hw s)) [0..<64] = Some n" "n < 64"
    "\<And>j. j < 64 \<Longrightarrow> live_list (sys_gic_vctrl s) h j = (if n = j
      then list_reg_inject (live_list (sys_gic_vctrl s) (hw s) n) pid vid
      else live_list (sys_gic_vctrl s) (hw s) j)"
    by (rule inject_live [OF assms(1) h]) blast
  show ?thesis
    using irq_to_virq_found [OF vid_def [symmetric] vid] first_invalid_Some [OF n(1)]
      first_invalid_least [OF n(1)]
    by (intro exI [of _ n] exI [of _ vid] conjI)
      (simp_all add: s' n(2,3) list_reg_inject_state list_reg_inject_pid list_reg_inject_vid)
qed

lemma sample_live_ok: "live_list_ok \<lparr>vctrl_base_addr = 0x50002000\<rparr> sample_machine"
  by (simp add: live_list_ok_def aligned_def)

lemma sample_live_irq: "\<exists>u. guest_rpb_irq_handler 1 0 0 sample_gic = Inr u"
proof -
  let ?gic = "\<lparr>vctrl_base_addr = 0x50002000\<rparr>"
  have "fst (dev_gic2_vctrl_read_list ?gic 0 sample_machine) = 0"
    by (simp add: dev_gic2_vctrl_read_list_def io_readw_ram)
      (simp add: sample_machine_def load32_def load16_def)
  then have "inject_loop (dev_gic2_vctrl_read_list ?gic) (dev_gic2_vctrl_write_list_simple ?gic) 0 0
      [0..<64] sample_machine \<noteq> None"
    by (intro inject_loop_first) (simp add: free_word)
  then show ?thesis
    by (auto simp: guest_rpb_irq_handler_def Let_def sample_guest_virq vm_trigger_def
        simp del: upt_rec_numeral)
qed

theorem irq_handler_injects_witness:
  "\<exists>s'. guest_rpb_irq_handler 1 0 0 sample_gic = Inr s' \<and>
     (\<exists>n < 64. get_field (live_list \<lparr>vctrl_base_addr = 0x50002000\<rparr> (hw s') n) 29 28 = 1)"
proof -
  obtain u where u: "guest_rpb_irq_handler 1 0 0 sample_gic = Inr u" using sample_live_irq by blast
  have "live_list_ok (sys_gic_vctrl sample_gic) (hw sample_gic)" "(0 :: int) \<noteq> 1023"
    using sample_live_ok by simp_all
  from irq_handler_injects [OF this u] u show ?thesis by auto
qed

text \<open>
  C27. Delivering an interrupt to the guest that runs fails, by halting the hypervisor,
  exactly when the interrupt is not mapped to the guest or all 64 list registers are in use.
\<close>

theorem irq_handler_fails_iff:
  assumes "live_list_ok (sys_gic_vctrl s) (hw s)" and "pid \<noteq> 1023"
  shows "(\<exists>e. guest_rpb_irq_handler i sp pid s = Inl e) \<longleftrightarrow>
    (\<forall>v < 64. virq_pid (virq (vdev_gic_dist (vm s i)) v) \<noteq> pid)
    \<or> (\<forall>n < 64. \<not> list_reg_invalid (live_list (sys_gic_vctrl s) (hw s) n))"
proof -
  define vid where "vid = vdev_gic2_dist_irq_to_virq (vdev_gic_dist (vm s i)) pid"
  have ns: "set [0..<64] \<subseteq> {..<64 :: nat}" by auto
  have "(\<exists>e. guest_rpb_irq_handler i sp pid s = Inl e) \<longleftrightarrow> vid = -1
    \<or> inject_loop (dev_gic2_vctrl_read_list (sys_gic_vctrl s))
        (dev_gic2_vctrl_write_list_simple (sys_gic_vctrl s)) pid vid [0..<64] (hw s) = None"
    using assms(2)
    by (auto simp: guest_rpb_irq_handler_def Let_def vid_def vm_trigger_def
        simp del: upt_rec_numeral split: option.split)
  also have "\<dots> \<longleftrightarrow> vid = -1 \<or> first_invalid (live_list (sys_gic_vctrl s) (hw s)) [0..<64] = None"
    by (simp only: live.inject_loop_None [OF assms(1) ns])
  also have "\<dots> \<longleftrightarrow> (\<forall>v < 64. virq_pid (virq (vdev_gic_dist (vm s i)) v) \<noteq> pid)
      \<or> (\<forall>n < 64. \<not> list_reg_invalid (live_list (sys_gic_vctrl s) (hw s) n))"
    unfolding vid_def irq_to_virq_none first_invalid_None by auto
  finally show ?thesis .
qed

theorem irq_handler_fails_iff_witness: "\<exists>e. guest_rpb_irq_handler 1 0 7 sample_gic = Inl e"
  by (subst irq_handler_fails_iff)
    (use sample_live_ok in \<open>simp_all add: sample_guest_def guest_zero_def\<close>)

lemma irq_target_cases:
  "irq_target pid = Some t \<Longrightarrow> (pid = 40 + t \<or> pid = 44 + t \<or> pid = 48 + t) \<and> 0 \<le> t \<and> t < 4"
  by (auto simp: irq_target_def split: if_splits)

text \<open>
  C28. After boot the physical interrupts are wired to the guests they are delivered to: an
  interrupt that irq_handler delivers to guest \<open>t\<close> is mapped in the virtual distributor of
  \<open>t\<close>, as virtual interrupt 44 (UART), 36 (timer 0) or 37 (timer 2), and in no other guest's.
\<close>

theorem main_wires_interrupts:
  assumes "images_fit zImage initrd" and "\<forall>j < 4. pt_region (pt_base j) pt_slots (hw s)"
    and "irq_target pid = Some t" and "0 \<le> i" and "i < 4"
  shows "\<exists>s'. main zImage initrd s = Inr s' \<and> vdev_gic2_dist_irq_to_virq (vdev_gic_dist (vm s' i)) pid =
    (if i \<noteq> t then -1 else if pid < 44 then 44 else if pid < 48 then 36 else 37)"
proof -
  obtain s' where s': "main zImage initrd s = Inr s'"
    and "\<And>i. 0 \<le> i \<Longrightarrow> i < 4 \<Longrightarrow> virqs_ready i (vm s' i)"
    by (rule main_boots [OF assms(1,2)]) blast
  then have "virqs_ready i (vm s' i)" using assms(4,5) by blast
  moreover have pid: "pid = 40 + t \<or> pid = 44 + t \<or> pid = 48 + t" and t: "0 \<le> t" "t < 4"
    using irq_target_cases [OF assms(3)] by blast+
  moreover have "pid \<noteq> -1" using pid t by linarith
  ultimately have "vdev_gic2_dist_irq_to_virq (vdev_gic_dist (vm s' i)) pid =
      (if pid = 40 + i then 44 else if pid = 44 + i then 36 else if pid = 48 + i then 37 else -1)"
    unfolding virqs_ready_def by blast
  moreover have "pid = 40 + i \<longleftrightarrow> i = t \<and> pid < 44" "pid = 44 + i \<longleftrightarrow> i = t \<and> 44 \<le> pid \<and> pid < 48"
    "pid = 48 + i \<longleftrightarrow> i = t \<and> 48 \<le> pid"
    using pid t assms(4,5) by linarith+
  ultimately show ?thesis using s' by auto
qed

theorem main_wires_interrupts_witness:
  "\<exists>s'. main [] [] sample_meteor = Inr s'
     \<and> vdev_gic2_dist_irq_to_virq (vdev_gic_dist (vm s' 2)) 46 = 36"
proof -
  have "irq_target 46 = Some 2" "(0 :: int) \<le> 2" "(2 :: int) < 4" by (simp_all add: irq_target_def)
  from main_wires_interrupts [OF sample_images sample_tables this] show ?thesis by simp
qed

section \<open>Data aborts\<close>

text \<open>
  C29. A data abort of a guest allocates a page exactly in two windows, up to 0x08000000 and
  from 0x70000000 to 0x8FFFF000: a slot that was free then records the guest and the two
  addresses, and the return address moves back by one instruction. In any other case, the
  access of a virtual device, neither the allocator nor the return address changes.
\<close>

theorem dabort_allocates:
  assumes "last_i s < PAGE_COUNT" and "guest_rpb_hyp_trap_dabort_handler i sp iss s = Inr s'"
  shows "if memory_fault s then
      (\<exists>j. slot_free (sys_mem_allocator s) j
        \<and> target_vm (sys_mem_allocator s') = (target_vm (sys_mem_allocator s))(j := guest_id (vm s i))
        \<and> alloc_ipa (sys_mem_allocator s') j = fst (fault_pages (fault_page s))
        \<and> alloc_high_ipa (sys_mem_allocator s') j = snd (fault_pages (fault_page s)))
      \<and> rf_elr_hyp_read (hw s') = rf_elr_hyp_read (hw s) - 4
    else sys_mem_allocator s' = sys_mem_allocator s \<and> rf_elr_hyp_read (hw s') = rf_elr_hyp_read (hw s)"
proof (cases "memory_fault s")
  case True
  from dabort_memory [OF True assms] obtain j where "slot_free (sys_mem_allocator s) j"
    and "target_vm (sys_mem_allocator s') = (target_vm (sys_mem_allocator s))(j := guest_id (vm s i))"
    and "alloc_ipa (sys_mem_allocator s') j = fst (fault_pages (fault_page s))"
    and "alloc_high_ipa (sys_mem_allocator s') j = snd (fault_pages (fault_page s))"
    and "rf_elr_hyp_read (hw s') = rf_elr_hyp_read (hw s) - 4" .
  then show ?thesis using True by auto
next
  case False
  with dabort_device [OF False assms(2)] show ?thesis by simp
qed

definition sample_fault :: meteor where
  "sample_fault = (sample_running (\<lambda>_. WFI_Out))\<lparr>sys_mem_allocator := sample_allocator\<rparr>"

lemma sample_fault_simps [simp]:
  "hw sample_fault = sample_machine" "last_i sample_fault = 0" "vm_id sample_fault = 0"
  "sys_mem_allocator sample_fault = sample_allocator"
  "guest_kind (vm sample_fault i) = Realview_PB"
  by (simp_all add: sample_fault_def sample_running_def sample_meteor_def)

lemma sample_cp15: "cp15_read n sample_machine = 0"
  by (cases "cp15_parse (cp15_full_name n)")
    (simp_all add: cp15_read_def asm_cp15_read_def sample_machine_def get_field_def)

lemma sample_memory_fault: "memory_fault sample_fault"
  by (simp add: memory_fault_def fault_page_def sample_cp15)

lemma sample_dabort: "\<exists>s'. guest_rpb_hyp_trap_dabort_handler 0 sp iss sample_fault = Inr s'"
proof -
  have "dabort_new_page 0 low high sample_fault \<noteq> Inl e" for low high e
    by (rule new_page_cases [where last_i = 0 and me = sample_allocator and ipa = low
        and vm = "vm (vm_trigger 0 ALLOCATE_PAGE sample_fault) 0" and high_ipa = high and h = sample_machine])
      (use sample_allocator_free [of 0] in \<open>auto simp: dabort_new_page_def Let_def vm_trigger_def\<close>)
  then show ?thesis
    by (simp add: dabort_memory_eq [OF sample_memory_fault] case_prod_beta) (metis sum.exhaust)
qed

theorem dabort_allocates_witness:
  "\<exists>s' j. guest_rpb_hyp_trap_dabort_handler 0 0x06000000 0 sample_fault = Inr s'
     \<and> alloc_high_ipa (sys_mem_allocator s') j = 0x70000000"
proof -
  obtain s' where s': "guest_rpb_hyp_trap_dabort_handler 0 0x06000000 0 sample_fault = Inr s'"
    using sample_dabort by blast
  have "last_i sample_fault < PAGE_COUNT" by simp
  moreover have "fault_page sample_fault = 0" by (simp add: fault_page_def sample_cp15)
  ultimately show ?thesis
    using dabort_allocates [OF _ s'] s' sample_memory_fault by (auto simp: fault_pages_def)
qed

lemma bit_two_four: "bit (2 :: u32) n \<longleftrightarrow> n = 1" "bit (4 :: u32) n \<longleftrightarrow> n = 2"
proof -
  have "bit ((2 :: u32) ^ m) n \<longleftrightarrow> n = m" if "m < 32" for m
    using that by (auto simp: bit_exp_iff possible_bit_word)
  from this [of 1] this [of 2] show "bit (2 :: u32) n \<longleftrightarrow> n = 1" "bit (4 :: u32) n \<longleftrightarrow> n = 2"
    by (simp_all del: bit_numeral_word_iff)
qed

lemma field_27_25: "get_field w 27 25 = 0b010 \<longleftrightarrow> \<not> bit w 27 \<and> bit w 26 \<and> \<not> bit w 25"
  "get_field w 27 25 = 0b011 \<longleftrightarrow> \<not> bit w 27 \<and> bit w 26 \<and> bit w 25"
proof -
  have f: "get_field w 27 25 = (if bit w 27 then push_bit 2 1 else 0)
      OR (if bit w 26 then push_bit 1 1 else 0) OR (if bit w 25 then push_bit 0 1 else 0)"
  proof (rule bit_word_eqI)
    fix n assume "n < LENGTH(32)"
    consider "n = 0" | "n = 1" | "n = 2" | "n > 2" by linarith
    then show "bit (get_field w 27 25) n = bit ((if bit w 27 then push_bit 2 1 else 0)
        OR (if bit w 26 then push_bit 1 1 else 0) OR (if bit w 25 then push_bit 0 1 else 0 :: u32)) n"
      by cases (auto simp: field_simps32 bit_or_iff bit_push_bit_iff bit_1_iff bit_two_four
        simp del: bit_numeral_word_iff)
  qed
  show "get_field w 27 25 = 0b010 \<longleftrightarrow> \<not> bit w 27 \<and> bit w 26 \<and> \<not> bit w 25"
    "get_field w 27 25 = 0b011 \<longleftrightarrow> \<not> bit w 27 \<and> bit w 26 \<and> bit w 25"
    unfolding f by auto
qed

lemma literal_load:
  "get_field w 22 16 = 0b0011111 \<Longrightarrow> \<not> bit w 22 \<and> bit w 20"
  "get_field w 27 24 = 0b0101 \<Longrightarrow> \<not> bit w 27 \<and> bit w 26 \<and> \<not> bit w 25"
proof -
  have b: "bit w (l + n) = bit v n" if "get_field w m l = v" "l + n \<le> m" "m < 32" for m l n and v :: u32
    using that bit_get_field [of m w l n] by (simp add: add.commute)
  show "\<not> bit w 22 \<and> bit w 20" if "get_field w 22 16 = 0b0011111"
    using b [OF that, of 6] b [OF that, of 4] by simp
  show "\<not> bit w 27 \<and> bit w 26 \<and> \<not> bit w 25" if "get_field w 27 24 = 0b0101"
    using b [OF that, of 3] b [OF that, of 2] b [OF that, of 1] by simp
qed

text \<open>
  C30. Of the trapped instructions the handler emulates exactly the word loads with an
  immediate offset and the word stores with an immediate or a register offset; a load with a
  register offset is an error, and the branch for literal loads is never taken, because the
  branch before it covers them.
\<close>

theorem dabort_decode_accepts:
  "(dabort_decode inst = Inr (l, rt) \<longleftrightarrow> rt = get_field inst 15 12 \<and> \<not> bit inst 27 \<and> bit inst 26
      \<and> \<not> bit inst 22 \<and> (if l then \<not> bit inst 25 \<and> bit inst 20
           else \<not> bit inst 20 \<and> \<not> (bit inst 25 \<and> bit inst 4)))
    \<and> dabort_decode inst \<noteq> Inl (Exit d_guest_rpb ''ldr ltrl'')"
proof -
  define lit where "lit \<longleftrightarrow> get_field inst 27 24 = 0b0101 \<and> get_field inst 22 16 = 0b0011111"
  have "lit \<Longrightarrow> \<not> bit inst 27 \<and> bit inst 26 \<and> \<not> bit inst 25 \<and> \<not> bit inst 22 \<and> bit inst 20"
    using literal_load [of inst] by (simp add: lit_def)
  moreover have "dabort_decode inst =
    (if (\<not> bit inst 27 \<and> bit inst 26 \<and> \<not> bit inst 25) \<and> \<not> bit inst 22 \<and> bit inst 20
     then Inr (True, get_field inst 15 12)
     else if lit then Inl (Exit d_guest_rpb ''ldr ltrl'')
     else if (\<not> bit inst 27 \<and> bit inst 26 \<and> bit inst 25) \<and> \<not> bit inst 22 \<and> bit inst 20 \<and> \<not> bit inst 4
     then Inl (Exit d_guest_rpb ''ldr reg'')
     else if (\<not> bit inst 27 \<and> bit inst 26 \<and> \<not> bit inst 25) \<and> \<not> bit inst 22 \<and> \<not> bit inst 20
     then Inr (False, get_field inst 15 12)
     else if (\<not> bit inst 27 \<and> bit inst 26 \<and> bit inst 25) \<and> \<not> bit inst 22 \<and> \<not> bit inst 20 \<and> \<not> bit inst 4
     then Inr (False, get_field inst 15 12)
     else Inl (Exit d_guest_rpb ''error decoding instruction:0x%X''))"
    unfolding dabort_decode_def field_27_25 lit_def by (simp add: get_bit_eq)
  ultimately show ?thesis by (cases lit; cases l) auto
qed

text \<open>
  C31. Where a guest goes on after a trap that is not a WFI: at the instruction that trapped
  when memory was allocated for it, so that it is executed again, and at the return address of
  the call for a hypervisor call; after the trapped instruction in every other case.
\<close>

theorem hyp_trap_return_address:
  assumes "hyp_trap_handler sp s = Inr (fl, s')" and "last_i s < PAGE_COUNT"
    and "get_field (cp15_read HSR (hw s)) 31 26 \<noteq> 0x01"
  shows "fl = Resume \<and> rf_elr_hyp_read (hw s') = rf_elr_hyp_read (hw s) +
    (if get_field (cp15_read HSR (hw s)) 31 26 = 0x12
        \<or> get_field (cp15_read HSR (hw s)) 31 26 = 0x24 \<and> memory_fault s then 0 else 4)"
proof -
  define s1 where "s1 = s\<lparr>hw := rf_elr_hyp_write (rf_elr_hyp_read (hw s) + 4) (hw s)\<rparr>"
  define ec where "ec = get_field (cp15_read HSR (hw s1)) 31 26"
  define iss where "iss = get_field (cp15_read HSR (hw s1)) 24 0"
  have hsr: "cp15_read HSR (hw s1) = cp15_read HSR (hw s)"
    by (rule cp15_read_cong) (simp add: s1_def rf_elr_hyp_write_def hw_simps)
  have elr: "rf_elr_hyp_read (hw s1) = rf_elr_hyp_read (hw s) + 4"
    by (simp add: s1_def rf_elr_hyp_read_write)
  have mf: "memory_fault s1 = memory_fault s"
    unfolding memory_fault_def s1_def fault_page_elr ..
  have li: "last_i s1 < PAGE_COUNT" using assms(2) by (simp add: s1_def)
  note h = assms(1) [unfolded hyp_trap_handler_def Let_def, folded s1_def, folded ec_def iss_def]
  have "ec \<noteq> 1" using assms(3) by (simp add: ec_def hsr)
  then consider (cp) "ec \<in> {3, 4, 5}" "fl = Resume" "hw s' = hw s1"
    | (hvc) "ec = 0x12" "fl = Resume" "s' = hypervisor_call (vm_id s1) (iss AND mask32 15 0) s1"
    | (dabort) "ec = 0x24" "fl = Resume" "guest_rpb_hyp_trap_dabort_handler (vm_id s1) sp iss s1 = Inr s'"
    using h by (auto simp: resume_def bindR_eq_Inr guest_rpb_cp15_trap_def Let_def vm_trigger_def
        split: if_splits)
  then show ?thesis
  proof cases
    case cp
    then show ?thesis by (auto simp: ec_def hsr [symmetric] elr)
  next
    case hvc
    have "rf_elr_hyp_read (hw s') = rf_elr_hyp_read (hw s1) - 4"
      by (simp add: hvc(3) hypervisor_call_def Let_def rf_elr_hyp_read_write)
    then show ?thesis using hvc by (simp add: ec_def hsr elr)
  next
    case dabort
    have "rf_elr_hyp_read (hw s') = rf_elr_hyp_read (hw s1) - (if memory_fault s1 then 4 else 0)"
    proof (cases "memory_fault s1")
      case True
      from dabort_memory [OF True li dabort(3)] show ?thesis using True by simp
    next
      case False
      from dabort_device [OF False dabort(3)] show ?thesis using False by simp
    qed
    then show ?thesis using dabort by (auto simp: ec_def hsr elr mf)
  qed
qed

text \<open>Guest 0 of a running hypervisor executes \<open>hvc 1\<close>: \<open>HSR\<close> has class 0x12.\<close>

definition sample_hvc :: meteor where
  "sample_hvc = sample_fault\<lparr>hw := sample_machine\<lparr>cp15 := (\<lambda>_. 0x4A000001)\<rparr>\<rparr>"

theorem hyp_trap_return_address_witness:
  "\<exists>s'. hyp_trap_handler 0x06000000 sample_hvc = Inr (Resume, s')
     \<and> rf_elr_hyp_read (hw s') = rf_elr_hyp_read (hw sample_hvc)"
proof -
  have hsr: "cp15_read HSR h = 0x4A000001" if "cp15 h = (\<lambda>_. 0x4A000001)" for h
    using cp15_read_whole [of HSR "(5, 4, 2, 0)" h] that
    by (simp add: cp15_parse_def cp15_cases_def cp15_eval cp15_full_name_alt)
  have ec: "get_field (0x4A000001 :: u32) 31 26 = 0x12" by (simp add: get_field_def mask32_def)
  have c: "cp15 (rf_elr_hyp_write v (hw sample_hvc)) = (\<lambda>_. 0x4A000001)" "cp15 (hw sample_hvc) = (\<lambda>_. 0x4A000001)"
    for v by (simp_all add: sample_hvc_def rf_elr_hyp_write_def hw_simps)
  have k: "guest_kind (vm sample_hvc i) = Realview_PB" "last_i sample_hvc < PAGE_COUNT" for i
    using sample_fault_simps(2,5) by (simp_all add: sample_hvc_def)
  have "\<exists>fl s'. hyp_trap_handler 0x06000000 sample_hvc = Inr (fl, s')"
    by (simp add: hyp_trap_handler_def Let_def hsr c ec k resume_def)
  then obtain fl s' where r: "hyp_trap_handler 0x06000000 sample_hvc = Inr (fl, s')" by blast
  have "get_field (cp15_read HSR (hw sample_hvc)) 31 26 \<noteq> 0x01" by (simp add: hsr c ec)
  from hyp_trap_return_address [OF r k(2) this] r show ?thesis by (auto simp: hsr c ec)
qed

end
