(* ===== verification/Hvc_Helper.thy ===== *)
theory Hvc_Helper
  imports Meteor_Prelude
begin

text \<open>
  hvc_helper/hvc_helper.c: a program that runs in a guest and issues the hypervisor call of
  its first argument. The C library's \<open>atoi\<close> is included; an argument that does not fit an
  \<open>int\<close>, which C leaves undefined, is reduced modulo the width.
\<close>

definition is_space :: "char \<Rightarrow> bool" where
  "is_space c \<longleftrightarrow> c = CHR '' '' \<or> (9 \<le> (of_char c :: nat) \<and> (of_char c :: nat) \<le> 13)"

definition is_digit :: "char \<Rightarrow> bool" where
  "is_digit c \<longleftrightarrow> 48 \<le> (of_char c :: nat) \<and> (of_char c :: nat) \<le> 57"

definition atoi_digits :: "string \<Rightarrow> int" where
  "atoi_digits cs = foldl (\<lambda>n c. 10 * n + (of_char c - 48)) 0 (takeWhile is_digit cs)"

definition atoi :: "string \<Rightarrow> int" where
  "atoi cs = (case dropWhile is_space cs of
     [] \<Rightarrow> 0
   | c # cs \<Rightarrow> if c = CHR ''-'' then - atoi_digits cs
               else if c = CHR ''+'' then atoi_digits cs
               else atoi_digits (c # cs))"

text \<open>
  The immediate of the \<open>hvc\<close> that is executed, \<^term>\<open>None\<close> for the error message. Without an
  argument \<open>argv[1]\<close> is a null pointer.
\<close>

definition hvc_helper :: "string list \<Rightarrow> u32 option res" where
  "hvc_helper argv =
     (if length argv \<le> 1 then Inl (OutOfBounds ''argv'' 1)
      else
        let imm = word_of_int (atoi (argv ! 1)) :: u32
        in Inr (if imm \<in> {1, 2, 3, 4, 5, 6, 7, 8, 9, 10} then Some imm else None))"

lemma hvc_helper_imm:
  "hvc_helper argv = Inr (Some imm) \<Longrightarrow> 1 \<le> imm \<and> imm \<le> 10 \<and> imm = word_of_int (atoi (argv ! 1))"
  by (auto simp: hvc_helper_def Let_def split: if_splits)

lemma hvc_helper_total: "2 \<le> length argv \<Longrightarrow> \<exists>r. hvc_helper argv = Inr r"
  by (simp add: hvc_helper_def Let_def)

end
