(* ===== verification/Props_Devices.thy ===== *)
theory Props_Devices
  imports Samples Debug_Utils Hvc_Helper
begin

text \<open>
  The properties of the drivers, the virtual devices and the small libraries: system
  registers, timers, interrupt controller, console, heap and counters.
\<close>

section \<open>System registers\<close>









text \<open>The coordinates that the enumerator of a register packs.\<close>

definition cp15_coords :: "u32 \<Rightarrow> nat \<times> nat \<times> nat \<times> nat" where
  "cp15_coords n = (unat (get_crn n), unat (get_opc1 n), unat (get_crm n), unat (get_opc2 n))"

text \<open>The register that the switch of the access functions takes for a name.\<close>

definition cp15_taken_for :: "u32 \<Rightarrow> u32" where
  "cp15_taken_for n = (if n = TTBR0 then TTBR1 else if n = TTBR1 then TTBCR else if n = TTBCR then TTBR0 else n)"

lemma cp15_parse_taken:
  "list_all (\<lambda>n. cp15_full_name n = n \<and> get_hsb n = 31 \<and> get_lsb n = 0
     \<and> cp15_parse n = (if n = HTPIDR then None else Some (cp15_coords (cp15_taken_for n)))) cp15_full_names"
  by (simp add: cp15_full_names_def cp15_parse_def cp15_cases_def cp15_coords_def cp15_taken_for_def
      cp15_eval cp15_full_name_alt)

text \<open>
  C33. An access to a register by its name reaches the register of the coordinates in the
  enumeration, and no other, except for four names: TTBR0 reads and writes the register TTBR1, TTBR1
  the register TTBCR and TTBCR the register TTBR0, so that a value written under one of these names
  is not in the register of that name; HTPIDR reads as 0 and is never written.
\<close>

theorem cp15_access_register:
  assumes "n \<in> set cp15_full_names"
  shows "cp15_read n h = (if n = HTPIDR then 0 else cp15 h (cp15_coords (cp15_taken_for n)))
    \<and> cp15_write n v h = (if n = HTPIDR \<or> cp15_coords n \<in> set cp15_read_only then h
        else h\<lparr>cp15 := (cp15 h)(cp15_coords (cp15_taken_for n) := v)\<rparr>)
    \<and> (n \<in> {TTBR0, TTBR1, TTBCR} \<longrightarrow> cp15 (cp15_write n v h) (cp15_coords n) = cp15 h (cp15_coords n))"
proof -
  have n: "cp15_full_name n = n" "get_hsb n = 31" "get_lsb n = 0"
    and p: "cp15_parse n = (if n = HTPIDR then None else Some (cp15_coords (cp15_taken_for n)))"
    using assms cp15_parse_taken by (auto simp: list_all_iff)
  have ttb: "cp15_coords TTBR0 = (2, 0, 0, 0)" "cp15_coords TTBR1 = (2, 0, 0, 1)"
    "cp15_coords TTBCR = (2, 0, 0, 2)" "TTBR0 \<noteq> HTPIDR" "TTBR1 \<noteq> HTPIDR" "TTBCR \<noteq> HTPIDR"
    "TTBR0 \<noteq> TTBR1" "TTBR0 \<noteq> TTBCR" "TTBR1 \<noteq> TTBCR"
    by (simp_all add: cp15_coords_def cp15_eval)
  show ?thesis
  proof (cases "n = HTPIDR")
    case True
    then show ?thesis
      using p n ttb by (auto simp: cp15_read_def cp15_write_unknown get_field_def)
  next
    case False
    with p have c: "cp15_parse (cp15_full_name n) = Some (cp15_coords (cp15_taken_for n))" by (simp add: n)
    have ro: "cp15_coords (cp15_taken_for n) \<in> set cp15_read_only \<longleftrightarrow> cp15_coords n \<in> set cp15_read_only"
      using ttb by (auto simp: cp15_taken_for_def cp15_read_only_def)
    have w: "cp15_write n v h = (if cp15_coords n \<in> set cp15_read_only then h
        else h\<lparr>cp15 := (cp15 h)(cp15_coords (cp15_taken_for n) := v)\<rparr>)"
      by (simp add: cp15_write_asm [OF c] asm_cp15_write_def ro n set_field_whole)
    have "cp15_read n h = cp15 h (cp15_coords (cp15_taken_for n))" using cp15_read_whole [OF c] n by simp
    moreover have "cp15 (cp15_write n v h) (cp15_coords n) = cp15 h (cp15_coords n)"
      if "n \<in> {TTBR0, TTBR1, TTBCR}"
      using that ttb by (auto simp: w cp15_taken_for_def)
    ultimately show ?thesis using False w by simp
  qed
qed

theorem cp15_access_register_witness:
  "cp15 (cp15_write TTBR0 7 sample_machine) (cp15_coords TTBR1) = 7
   \<and> cp15 (cp15_write TTBR0 7 sample_machine) (cp15_coords TTBR0) = 0"
proof -
  have "TTBR0 \<in> set cp15_full_names" by (simp add: cp15_full_names_def)
  from cp15_access_register [OF this, of sample_machine 7]
  show ?thesis
    by (simp add: cp15_taken_for_def cp15_read_only_def cp15_coords_def cp15_eval sample_machine_def)
qed

lemma cp15_named:
  "cp15_full_name n = n \<Longrightarrow> cp15_parse n = Some c \<Longrightarrow> cp15_read n h = cp15 h c"
  using cp15_read_whole [of n c h] by simp

lemma config_names:
  "cp15_full_name HSCTLR = HSCTLR" "cp15_full_name HSCTLR_A = HSCTLR" "cp15_full_name HCR = HCR"
  "cp15_full_name HCR_VM = HCR" "cp15_full_name HCR_IMO = HCR" "cp15_full_name HCR_TWI = HCR"
  "cp15_full_name HVBAR = HVBAR" "cp15_full_name VTCR = VTCR" "cp15_full_name VTCR_SL0 = VTCR"
  "cp15_full_name VTCR_T0SZ = VTCR" "cp15_full_name HSTR = HSTR" "cp15_full_name HSTR_T7 = HSTR"
  "cp15_full_name HSTR_T8 = HSTR"
  by (simp_all add: HSCTLR_A_def HCR_VM_def HCR_IMO_def HCR_TWI_def VTCR_SL0_def VTCR_T0SZ_def
      HSTR_T7_def HSTR_T8_def cp15_full_name_setfd cp15_full_name_alt cp15_eval)

lemma config_bits:
  "get_hsb HSCTLR = 31" "get_lsb HSCTLR = 0" "get_hsb HSCTLR_A = 1" "get_lsb HSCTLR_A = 1"
  "get_hsb HCR = 31" "get_lsb HCR = 0" "get_hsb HCR_VM = 0" "get_lsb HCR_VM = 0"
  "get_hsb HCR_IMO = 4" "get_lsb HCR_IMO = 4" "get_hsb HCR_TWI = 13" "get_lsb HCR_TWI = 13"
  "get_hsb HVBAR = 31" "get_lsb HVBAR = 0" "get_hsb VTCR = 31" "get_lsb VTCR = 0"
  "get_hsb VTCR_SL0 = 7" "get_lsb VTCR_SL0 = 6" "get_hsb VTCR_T0SZ = 3" "get_lsb VTCR_T0SZ = 0"
  "get_hsb HSTR_T7 = 7" "get_lsb HSTR_T7 = 7" "get_hsb HSTR_T8 = 8" "get_lsb HSTR_T8 = 8"
  by (simp_all add: HSCTLR_A_def HCR_VM_def HCR_IMO_def HCR_TWI_def VTCR_SL0_def VTCR_T0SZ_def
      HSTR_T7_def HSTR_T8_def cp15_eval)

lemma config_regs:
  "cp15_parse HSCTLR = Some (1, 4, 0, 0)" "cp15_parse HCR = Some (1, 4, 1, 0)"
  "cp15_parse HVBAR = Some (12, 4, 0, 0)" "cp15_parse VTCR = Some (2, 4, 1, 2)"
  "cp15_parse HSTR = Some (1, 4, 1, 3)"
  by (simp_all add: cp15_parse_def cp15_cases_def cp15_eval)

lemma config_rw:
  "cp15_parse HSCTLR = Some (1, 4, 0, 0) \<and> (1, 4, 0, 0) \<notin> set cp15_read_only"
  "cp15_parse HCR = Some (1, 4, 1, 0) \<and> (1, 4, 1, 0) \<notin> set cp15_read_only"
  "cp15_parse HVBAR = Some (12, 4, 0, 0) \<and> (12, 4, 0, 0) \<notin> set cp15_read_only"
  "cp15_parse VTCR = Some (2, 4, 1, 2) \<and> (2, 4, 1, 2) \<notin> set cp15_read_only"
  "cp15_parse HSTR = Some (1, 4, 1, 3) \<and> (1, 4, 1, 3) \<notin> set cp15_read_only"
  by (simp_all add: config_regs cp15_read_only_def)

text \<open>
  The configuration that boot writes to the hypervisor's system registers: stage 2
  translation on, interrupts and WFI trapped, a 32-bit input range starting at level 1,
  accesses to CP15 c7 and c8 trapped, alignment checks on and everything else off.
\<close>

theorem meteor_cp15_init_configures:
  "cp15_read HCR (meteor_cp15_init h) = 0x2011 \<and> cp15_read HSCTLR (meteor_cp15_init h) = 0x2
   \<and> cp15_read VTCR (meteor_cp15_init h) = 0x40
   \<and> cp15_read HSTR (meteor_cp15_init h) = (cp15_read HSTR h OR 0x180)
   \<and> cp15_read HVBAR (meteor_cp15_init h) = 0"
proof -
  have w: "cp15 (cp15_write n v g) d =
      (if d = c then set_field (cp15 g d) (unat (get_hsb n)) (unat (get_lsb n)) v else cp15 g d)"
    if "cp15_full_name n = r" "cp15_parse r = Some c \<and> c \<notin> set cp15_read_only" for n r v g c d
    using cp15_write_eq [of n c v g] that by simp
  note ws = w [OF config_names(1) config_rw(1)] w [OF config_names(2) config_rw(1)]
    w [OF config_names(3) config_rw(2)] w [OF config_names(4) config_rw(2)]
    w [OF config_names(5) config_rw(2)] w [OF config_names(6) config_rw(2)]
    w [OF config_names(7) config_rw(3)] w [OF config_names(8) config_rw(4)]
    w [OF config_names(9) config_rw(4)] w [OF config_names(10) config_rw(4)]
    w [OF config_names(12) config_rw(5)] w [OF config_names(13) config_rw(5)]
  note rs = cp15_named [OF config_names(1) config_regs(1)] cp15_named [OF config_names(3) config_regs(2)]
    cp15_named [OF config_names(7) config_regs(3)] cp15_named [OF config_names(8) config_regs(4)]
    cp15_named [OF config_names(11) config_regs(5)]
  have one: "set_field x k k 1 = x OR push_bit k 1" if "k < 32" for x k
    using that by (intro bit_word_eqI) (auto simp: field_simps32 bit_simps bit_1_iff)
  have t: "set_field (set_field x 7 7 1) 8 8 1 = x OR 0x180" for x
    by (simp add: one or.assoc)
  show ?thesis
    by (simp add: meteor_cp15_init_def Let_def rs ws config_bits set_field_whole t)
      (simp add: set_field_def imask32_def mask32_def)
qed

section \<open>Register fields\<close>

text \<open>
  C34. Writing a field of a word and reading it back gives the value cut to the field's
  width; writing back what was read changes nothing; fields that do not overlap do not
  interfere.
\<close>

theorem set_field_roundtrip:
  assumes "msb < 32" and "lsb \<le> msb" and "m2 < 32" and "msb < j2 \<or> m2 < lsb"
  shows "get_field (set_field w msb lsb v) msb lsb = take_bit (Suc msb - lsb) v
    \<and> set_field w msb lsb (get_field w msb lsb) = w
    \<and> get_field (set_field w msb lsb v) m2 j2 = get_field w m2 j2"
proof -
  have "get_field (set_field w msb lsb v) msb lsb = take_bit (Suc msb - lsb) v"
    using assms by (intro f32.get_put_same) auto
  moreover have "set_field w msb lsb (get_field w msb lsb) = w"
    using assms by (intro f32.put_get_same) auto
  moreover have "get_field (set_field w msb lsb v) m2 j2 = get_field w m2 j2"
    using assms by (intro f32.get_put_other) auto
  ultimately show ?thesis by blast
qed

theorem set_field_roundtrip_witness:
  "get_field (set_field 0xFFFFFFFF 19 10 0x2A) 19 10 = 0x2A
   \<and> get_field (set_field 0xFFFFFFFF 19 10 0x2A) 9 0 = get_field 0xFFFFFFFF 9 0"
proof -
  have "(19 :: nat) < 32" "(10 :: nat) \<le> 19" "(9 :: nat) < 32" "(19 :: nat) < 0 \<or> (9 :: nat) < 10" by simp_all
  from set_field_roundtrip [OF this, of "0xFFFFFFFF" "0x2A"] show ?thesis by simp
qed

section \<open>The interrupt controller\<close>

text \<open>
  C35. The flag that ties a virtual interrupt to its hardware interrupt is lost: the word put
  in a list register is the same with the flag and without it, because the bit it sets lies in
  the field of the virtual number that is written afterwards; bit 31, where the controller
  looks for the flag, is always clear. State and numbers arrive in their fields.
\<close>

theorem write_list_loses_hw_flag:
  "\<exists>w. (\<forall>hw. dev_gic2_vctrl_write_list me n hw st pid vid h = io_writew (list_reg_addr me n) w h)
    \<and> \<not> bit w 31 \<and> get_field w 29 28 = list_reg_state_val st
    \<and> get_field w 19 10 = take_bit 10 (word_of_int pid) \<and> get_field w 9 0 = take_bit 10 (word_of_int vid)"
proof -
  define wd where "wd hw = set_field (set_field (set_field (set_bit32 0 1 (if hw then 1 else 0)) 29 28
    (list_reg_state_val st)) 19 10 (word_of_int pid)) 9 0 (word_of_int vid)" for hw
  have bits: "bit (wd hw) k \<longleftrightarrow> (if k < 10 then bit (word_of_int vid :: u32) k
      else if k < 20 then bit (word_of_int pid :: u32) (k - 10)
      else if k = 28 \<or> k = 29 then bit (list_reg_state_val st) (k - 28) else False)" for hw k
    by (auto simp: wd_def field_simps32 less_Suc_eq_le)
  have same: "wd hw = wd True" for hw
    by (rule bit_word_eqI) (simp only: bits)
  have "dev_gic2_vctrl_write_list me n hw st pid vid h = io_writew (list_reg_addr me n) (wd True) h" for hw
    using same [of hw] by (simp add: dev_gic2_vctrl_write_list_def Let_def list_reg_addr_def wd_def)
  moreover have "\<not> bit (wd True) 31" by (simp add: bits)
  moreover have "get_field (wd True) 29 28 = list_reg_state_val st"
  proof -
    have "get_field (wd True) 29 28 = take_bit 2 (list_reg_state_val st)"
      by (rule bit_word_eqI) (auto simp: field_simps32 bits bit_simps)
    then show ?thesis by (cases st) simp_all
  qed
  moreover have "get_field (wd True) 19 10 = take_bit 10 (word_of_int pid)"
    "get_field (wd True) 9 0 = take_bit 10 (word_of_int vid)"
    by (rule bit_word_eqI, auto simp: field_simps32 bits bit_simps)+
  ultimately show ?thesis by blast
qed

text \<open>
  C36. A guest's write to a set-enable or clear-enable register of its distributor, for the
  64 interrupts there are, changes the enable state of exactly the interrupts whose bit is
  set, and passes on exactly those of them that are mapped to a physical interrupt.
\<close>

theorem vdist_write_enables:
  assumes "k < 2"
  shows "vdev_gic2_dist_write me (0x100 + 4 * of_nat k) data h =
      bindR (dist_enable_all (vdist_sys_gic_dist me) (vdist_forwarded 32 (32 * k) data me) h)
        (\<lambda>h'. Inr (vdist_set_en 32 (32 * k) data True me, h'))
    \<and> vdev_gic2_dist_write me (0x180 + 4 * of_nat k) data h =
      bindR (dist_disable_all (vdist_sys_gic_dist me) (vdist_forwarded 32 (32 * k) data me) h)
        (\<lambda>h'. Inr (vdist_set_en 32 (32 * k) data False me, h'))"
proof -
  have "k = 0 \<or> k = 1" using assms by linarith
  then show ?thesis
    using isenable_loop [of "32 * k" 32 data me h] icenable_loop [of "32 * k" 32 data me h] assms
    by (elim disjE) (simp_all add: vdev_gic2_dist_write_def Let_def del: upt_rec_numeral forR.simps)
qed

theorem vdist_write_enables_witness:
  "vdev_gic2_dist_write (vdev_gic_dist guest_zero) 0x104 0 sample_machine
     = bindR (dist_enable_all \<lparr>dist_base_addr = 0\<rparr> [] sample_machine)
        (\<lambda>h'. Inr (vdist_set_en 32 32 0 True (vdev_gic_dist guest_zero), h'))"
  using vdist_write_enables [of 1 "vdev_gic_dist guest_zero" 0 sample_machine]
  by (simp add: vdist_forwarded_def guest_zero_def)

text \<open>
  C37. The registers beyond those for the 64 interrupts are not guarded: a guest that sets a
  bit there makes the hypervisor access its array of 64 interrupts out of bounds.
\<close>

theorem vdist_write_out_of_bounds:
  assumes "0x108 \<le> offset \<and> offset \<le> 0x17C \<or> 0x188 \<le> offset \<and> offset \<le> 0x1FC" and "data \<noteq> 0"
  shows "\<exists>i \<ge> 64. vdev_gic2_dist_write me offset data h = Inl (OutOfBounds ''virq'' i)"
proof -
  have b: "\<exists>i \<in> set [0..<32]. bit data i" "\<forall>i \<in> set [0..<32]. i < 32"
    using nonzero_word_bit [OF assms(2)] by auto
  have base: "64 \<le> unat ((x div 4) * 32) " if "8 \<le> x" "x \<le> 0x7C" for x :: u32
  proof -
    have x: "8 \<le> unat x" "unat x \<le> 0x7C" using that by (simp_all add: word_le_nat_alt)
    have "unat x div 4 * 32 < 2 ^ 32"
      by (rule le_less_trans [OF mult_le_mono1 [OF div_le_mono [OF x(2)]]]) simp
    moreover have "2 \<le> unat x div 4" using div_le_mono [OF x(1), of 4] by simp
    ultimately show ?thesis by (simp add: unat_word_ariths unat_div)
  qed
  show ?thesis
  proof (cases "0x108 \<le> offset \<and> offset \<le> 0x17C")
    case True
    then have "8 \<le> offset - 0x100" "offset - 0x100 \<le> 0x7C" "offset \<noteq> 0" "offset \<noteq> 0x80" "offset \<ge> 0x100"
      by (auto simp: word_le_nat_alt unat_sub_if' word_less_nat_alt)
    define n where "n = unat ((offset - 0x100) div 4 * 32)"
    have "vdev_gic2_dist_write me offset data h = forR (vdev_gic2_dist_isenable data n) [0..<32] (me, h)"
      using \<open>offset \<noteq> 0\<close> \<open>offset \<noteq> 0x80\<close> \<open>offset \<ge> 0x100\<close> True
      by (simp add: vdev_gic2_dist_write_def Let_def n_def del: upt_rec_numeral forR.simps)
    moreover have n: "64 \<le> n" unfolding n_def by (rule base) fact+
    moreover obtain i where "forR (vdev_gic2_dist_isenable data n) [0..<32] (me, h)
        = Inl (OutOfBounds ''virq'' (int (n + i)))"
      using isenable_loop_oob [OF n b(2,1)] by blast
    moreover have "64 \<le> int (n + i)" using n by simp
    ultimately show ?thesis by metis
  next
    case False
    then have o: "0x188 \<le> offset" "offset \<le> 0x1FC" using assms(1) by auto
    then have "8 \<le> offset - 0x180" "offset - 0x180 \<le> 0x7C" "offset \<noteq> 0" "offset \<noteq> 0x80"
      "offset \<ge> 0x180" "\<not> offset \<le> 0x17C"
      by (auto simp: word_le_nat_alt unat_sub_if' word_less_nat_alt)
    define n where "n = unat ((offset - 0x180) div 4 * 32)"
    have "vdev_gic2_dist_write me offset data h = forR (vdev_gic2_dist_icenable data n) [0..<32] (me, h)"
      using \<open>offset \<noteq> 0\<close> \<open>offset \<noteq> 0x80\<close> \<open>offset \<ge> 0x180\<close> \<open>\<not> offset \<le> 0x17C\<close> o
      by (simp add: vdev_gic2_dist_write_def Let_def n_def del: upt_rec_numeral forR.simps)
    moreover have n: "64 \<le> n" unfolding n_def by (rule base) fact+
    moreover obtain i where "forR (vdev_gic2_dist_icenable data n) [0..<32] (me, h)
        = Inl (OutOfBounds ''virq'' (int (n + i)))"
      using icenable_loop_oob [OF n b(2,1)] by blast
    moreover have "64 \<le> int (n + i)" using n by simp
    ultimately show ?thesis by metis
  qed
qed

theorem vdist_write_out_of_bounds_witness:
  "\<exists>i \<ge> 64. vdev_gic2_dist_write (vdev_gic_dist guest_zero) 0x108 1 sample_machine
     = Inl (OutOfBounds ''virq'' i)"
  by (rule vdist_write_out_of_bounds) simp_all

text \<open>
  No interrupt of a guest is enabled in the physical distributor as it is meant to be:
  all of them are above 31, and for those the code shifts a 32-bit word by the whole number
  of the interrupt, which C leaves undefined; what is stored is what the shifter of the
  machine makes of it. Below 32 the bit of the interrupt is stored.
\<close>

theorem guest_irq_enable_shift:
  assumes "irq_target pid = Some t" and "0 \<le> irq" and "irq < 32"
  shows "dev_gic2_dist_enable_irq d pid h
      = Inr (io_writew (dist_base_addr d + 0x104) (shl_over h 1 (nat pid)) h)
    \<and> dev_gic2_dist_enable_irq d irq h
      = Inr (io_writew (dist_base_addr d + 0x100) (push_bit (nat irq) 1) h)"
proof -
  have "32 \<le> pid" "pid < 64" using assms(1) by (auto simp: irq_target_def split: if_splits)
  then show ?thesis
    using dev_gic2_dist_enable_irq_high [of pid d h] dev_gic2_dist_enable_irq_low [OF assms(2,3), of d h]
    by blast
qed

theorem guest_irq_enable_shift_witness:
  "dev_gic2_dist_enable_irq \<lparr>dist_base_addr = 0x50000000\<rparr> 40 sample_machine
     = Inr (io_writew 0x50000104 0 sample_machine)"
proof -
  have "irq_target 40 = Some 0" "(0 :: int) \<le> 5" "(5 :: int) < 32" by (simp_all add: irq_target_def)
  from guest_irq_enable_shift [OF this, of "\<lparr>dist_base_addr = 0x50000000\<rparr>" sample_machine] show ?thesis
    by (simp add: sample_machine_def)
qed

section \<open>The scheduler's timer\<close>

lemma set_bits32: "set_bit32 w k b = (if b \<noteq> 0 then w OR push_bit k 1 else w AND NOT (push_bit k 1))"
  if "k < 32"
  using that by (intro bit_word_eqI) (auto simp: field_simps32 bit_simps bit_1_iff)

lemma timer_steps:
  "control_reg (fst (dev_timer_update me n r h)) = (control_reg me)(n := r)"
  "control (fst (dev_timer_update me n r h)) = control me"
  by (simp_all add: dev_timer_update_def)

lemma timer_setters_eq:
  "dev_timer_set_wrapping me n False h = dev_timer_update me n (control_reg me n AND NOT 2) h"
  "dev_timer_set_size me n 32 h = dev_timer_update me n (control_reg me n OR 2) h"
  "dev_timer_set_prescale me n 1 h = dev_timer_update me n (control_reg me n AND NOT 0xC) h"
  "dev_timer_set_interrupt me n b h
     = dev_timer_update me n (if b then control_reg me n OR 0x20 else control_reg me n AND NOT 0x20) h"
  "dev_timer_set_mode me n TimerMode_Period h = dev_timer_update me n (control_reg me n OR 0x40) h"
  "dev_timer_set_enable me n b h
     = dev_timer_update me n (if b then control_reg me n OR 0x80 else control_reg me n AND NOT 0x80) h"
  by (simp_all add: dev_timer_setters set_bits32 set_field_def imask32_def mask32_def)

lemma dev_timer_update_D:
  assumes "dev_timer_update me n r h = (me', h')"
  shows "control_reg me' = (control_reg me)(n := r) \<and> control me' = control me"
  using timer_steps [of me n r h] assms by simp_all

text \<open>The six steps of one turn of the initialisation's loop.\<close>

definition timer_reset :: "nat \<Rightarrow> dev_timer \<times> machine \<Rightarrow> dev_timer \<times> machine" where
  "timer_reset = (\<lambda>i (me, h).
           let (me, h) = dev_timer_set_wrapping me i False h;
               (me, h) = dev_timer_set_size me i 32 h;
               (me, h) = dev_timer_set_prescale me i 1 h;
               (me, h) = dev_timer_set_interrupt me i False h;
               (me, h) = dev_timer_set_mode me i TimerMode_Period h
           in dev_timer_set_enable me i False h)"

lemma timer_reset_step:
  assumes "timer_reset i (me, h) = (me', h')"
  shows "control me' = control me"
    and "control_reg me' j = (if j = i then
      (((((control_reg me i AND NOT 2) OR 2) AND NOT 0xC) AND NOT 0x20) OR 0x40) AND NOT 0x80
      else control_reg me j)"
  using assms unfolding timer_reset_def timer_setters_eq
  by (auto split: prod.splits dest!: dev_timer_update_D)

lemma dev_timer_init_control:
  assumes "dev_timer_init me b h = (t, h')"
  shows "control t 0 = b + 8" and "control_reg t 0 = 0x42"
proof -
  define m0 where "m0 = me\<lparr>timer_base_address := b,
                  load := (load me)(0 := b + 0x0000, 1 := b + 0x0020),
                  timer_value := (timer_value me)(0 := b + 0x0004, 1 := b + 0x0024),
                  control := (control me)(0 := b + 0x0008, 1 := b + 0x0028),
                  control_reg := (control_reg me)(0 := 0, 1 := 0),
                  int_clear := (int_clear me)(0 := b + 0x000c, 1 := b + 0x002c)\<rparr>"
  have m0: "control m0 0 = b + 8" "control_reg m0 0 = 0" by (simp_all add: m0_def)
  have f: "fold timer_reset [0..<2] (m0, h) = (t, h')"
    using assms by (simp only: dev_timer_init_def Let_def m0_def timer_reset_def)
  obtain t1 h1 where 1: "timer_reset 0 (m0, h) = (t1, h1)" by fastforce
  have 2: "timer_reset 1 (t1, h1) = (t, h')" using f by (simp add: upt_conv_Cons 1)
  note r = timer_reset_step [OF 1] timer_reset_step [OF 2]
  show "control t 0 = b + 8" using m0 r(1,3) by simp
  show "control_reg t 0 = 0x42" using m0 r(2) [of 0] r(4) [of 0] by simp
qed

text \<open>
  C38. After boot's configuration the control register of timer 0 holds 0xE2, in the driver's
  copy and in the device: enabled, periodic, with its interrupt, undivided and 32 bits wide.
  Bit 0, which makes the timer stop instead of wrapping, is clear although boot asked for a
  timer that does not wrap: the driver clears the size bit instead.
\<close>

theorem meteor_init_timer_control:
  "control_reg (sys_timer (meteor_init_timer s)) 0 = 0xE2
   \<and> load32 (mem (hw (meteor_init_timer s))) 0x50005008 = 0xE2"
proof -
  obtain t0 h0 where 0: "dev_timer_init (sys_timer s) 0x50005000 (hw s) = (t0, h0)" by fastforce
  have c0: "control t0 0 = 0x50005008"
    using dev_timer_init_control(1) [OF 0] by simp
  obtain t1 h1 where 1: "dev_timer_set_wrapping t0 0 False h0 = (t1, h1)" by fastforce
  obtain t2 h2 where 2: "dev_timer_set_size t1 0 32 h1 = (t2, h2)" by fastforce
  obtain t3 h3 where 3: "dev_timer_set_prescale t2 0 1 h2 = (t3, h3)" by fastforce
  obtain t4 h4 where 4: "dev_timer_set_mode t3 0 TimerMode_Period h3 = (t4, h4)" by fastforce
  obtain t5 h5 where 5: "dev_timer_set_interrupt t4 0 True h4 = (t5, h5)" by fastforce
  obtain t6 h6 where 6: "dev_timer_set_enable t5 0 True h5 = (t6, h6)" by fastforce
  have "control_reg t0 0 = 0x42" by (rule dev_timer_init_control(2) [OF 0])
  then have "control_reg t6 0 = 0xE2"
    using 1 2 3 4 5 6
    by (auto simp: dev_timer_setters dev_timer_update_def set_bits32 set_field_def imask32_def mask32_def)
  moreover have "load32 (mem h6) (control t6 0) = control_reg t6 0"
    using dev_timer_setters_shadow(6) [OF 6] by (simp add: dev_timer_shadow_ok_def)
  moreover have "control t6 0 = 0x50005008"
    using 1 2 3 4 5 6 c0 by (auto simp: dev_timer_setters dev_timer_update_def)
  moreover have "meteor_init_timer s = s\<lparr>sys_timer := t6, hw := h6\<rparr>"
    by (simp add: meteor_init_timer_def Let_def 0 1 2 3 4 5 6)
  ultimately show ?thesis by simp
qed

section \<open>The heap\<close>

text \<open>
  The heap grows within its 32 MiB: as long as it does not shrink, a request returns
  the old end and moves the end by the amount asked for, up to 0x04000000, and fails with a
  null pointer exactly when it would go beyond; a failed request changes nothing.
\<close>

theorem sbrk_stays_in_heap:
  assumes "heap_start \<le> e" and "e \<le> heap_end" and "0 \<le> incr" and "incr \<le> 0x02000000"
  shows "newlib_sbrk incr e =
      (if uint e + incr \<le> uint heap_end then (e, word_of_int (uint e + incr)) else (0, e))
    \<and> heap_start \<le> snd (newlib_sbrk incr e) \<and> snd (newlib_sbrk incr e) \<le> heap_end"
proof -
  have e: "0x02000000 \<le> uint e" "uint e \<le> 0x04000000"
    using assms(1,2) by (simp_all add: heap_start_def heap_end_def word_le_def)
  have sum: "uint (e + word_of_int incr) = uint e + incr"
    using e assms(3,4) by (simp add: uint_word_ariths uint_word_of_int)
  have "e + word_of_int incr = word_of_int (uint e + incr)"
    unfolding sum [symmetric] word_of_int_uint ..
  moreover have "e + word_of_int incr > heap_end \<longleftrightarrow> \<not> uint e + incr \<le> uint heap_end"
    by (simp add: word_less_def sum not_le)
  ultimately have "newlib_sbrk incr e =
      (if uint e + incr \<le> uint heap_end then (e, word_of_int (uint e + incr)) else (0, e))"
    by (auto simp: newlib_sbrk_def)
  moreover have "heap_start \<le> snd (newlib_sbrk incr e) \<and> snd (newlib_sbrk incr e) \<le> heap_end"
    using sbrk_grow [OF assms surjective_pairing] by blast
  ultimately show ?thesis by blast
qed

theorem sbrk_stays_in_heap_witness:
  "newlib_sbrk 0x1000 0x02000000 = (0x02000000, 0x02001000) \<and> newlib_sbrk 2 0x03FFFFFF = (0, 0x03FFFFFF)"
proof -
  have h: "heap_start \<le> 0x02000000" "(0x02000000 :: u32) \<le> heap_end" "heap_start \<le> 0x03FFFFFF"
    "(0x03FFFFFF :: u32) \<le> heap_end" by (simp_all add: heap_start_def heap_end_def)
  from sbrk_stays_in_heap [OF h(1,2), of "0x1000"] sbrk_stays_in_heap [OF h(3,4), of 2]
  show ?thesis by (simp add: heap_end_def)
qed

section \<open>The console\<close>

lemma wait_txff_polls:
  assumes "dev_uart_wait_txff me h = Some h'"
  shows "\<exists>n. dev_uart_fr_txff (fst (uart_poll me (uart_polls me n h))) = 0"
proof (rule dev_uart_wait_txff.raw_induct [OF _ assms])
  fix w :: "dev_uart \<Rightarrow> machine \<Rightarrow> machine option" and m g y
  assume IH: "\<And>h b y. w h b = Some y \<Longrightarrow> \<exists>n. dev_uart_fr_txff (fst (uart_poll h (uart_polls h n b))) = 0"
    and step: "(case io_readh (fr m) g of (flag, h) \<Rightarrow>
      if dev_uart_fr_txff (ucast flag) \<noteq> 0 then w m h else Some h) = Some y"
  show "\<exists>n. dev_uart_fr_txff (fst (uart_poll m (uart_polls m n g))) = 0"
  proof (cases "dev_uart_fr_txff (fst (uart_poll m g)) = 0")
    case True
    then have "dev_uart_fr_txff (fst (uart_poll m (uart_polls m 0 g))) = 0" by simp
    then show ?thesis by blast
  next
    case False
    then have "w m (snd (uart_poll m g)) = Some y"
      using step by (simp add: uart_poll_def split: prod.splits)
    then obtain n where "dev_uart_fr_txff (fst (uart_poll m (uart_polls m n (snd (uart_poll m g))))) = 0"
      using IH by blast
    then have "dev_uart_fr_txff (fst (uart_poll m (uart_polls m (Suc n) g))) = 0" by simp
    then show ?thesis by blast
  qed
qed

text \<open>
  C39. Sending waits for the UART and for nothing else: the polling loop returns exactly when
  the device reports room in its transmit queue at some read of its flags, and never when it
  does not.
\<close>

theorem dev_uart_wait_txff_returns_iff:
  "(\<exists>h'. dev_uart_wait_txff me h = Some h')
    \<longleftrightarrow> (\<exists>n. dev_uart_fr_txff (fst (uart_poll me (uart_polls me n h))) = 0)"
proof
  assume "\<exists>n. dev_uart_fr_txff (fst (uart_poll me (uart_polls me n h))) = 0"
  then obtain n where "dev_uart_fr_txff (fst (uart_poll me (uart_polls me n h))) = 0"
    "\<And>k. k < n \<Longrightarrow> dev_uart_fr_txff (fst (uart_poll me (uart_polls me k h))) \<noteq> 0"
    using exists_least_iff [of "\<lambda>n. dev_uart_fr_txff (fst (uart_poll me (uart_polls me n h))) = 0"]
    by auto
  then show "\<exists>h'. dev_uart_wait_txff me h = Some h'" using wait_txff_returns [of n me h] by blast
qed (use wait_txff_polls in blast)

section \<open>Debug output\<close>

text \<open>
  C40. After \<open>debug_utils_init\<close> and whatever units are switched on and off after it, every
  message goes to the console or to a log file that was opened, never to a null stream, and
  is at most 387 characters long.
\<close>

theorem messages_go_to_open_logs:
  assumes "debug_utils_init prefix st0 = Inr st1" and "debug_run release opers st1 = Inr st"
    and "printm_base release leave ue msg st = Inr (out, l)
      \<or> printmi_base release leave i ue msg st = Inr (out, l)
      \<or> printd_base release ue msg st = Inr out \<or> printdi_base release i ue msg st = Inr out"
    and "(strm, line) \<in> set out"
  shows "strm \<noteq> Log_File 0 \<and> length line \<le> 387"
proof -
  have "logs_open st" by (rule debug_ops_open [OF assms(2) debug_utils_init_open [OF assms(1)]])
  then have "printm_head release head leave ue msg st \<noteq> Inr (out, l) \<and>
      printd_head release head ue msg st \<noteq> Inr out \<or> ?thesis" if "length head \<le> 127" for head
    using printm_head_lines [of release head leave ue msg st out l strm line]
      printd_head_lines [of release head ue msg st out strm line] that assms(4) by blast
  from this [OF head_length(1) [of ue]] this [OF head_length(2) [of i ue]] assms(3) show ?thesis
    unfolding printm_base_def printmi_base_def printd_base_def printdi_base_def by argo
qed

definition sample_debug :: debug_state where
  "sample_debug = \<lparr>path_prefix = [],
     debug_units = (\<lambda>_. \<lparr>unit_print = 1, unit_log = 1, fd = 0\<rparr>), close_at_exit = False\<rparr>"

theorem messages_go_to_open_logs_witness:
  "\<exists>st1 st line. debug_utils_init ''meteor/'' sample_debug = Inr st1
    \<and> debug_run False [Set_Log d_guest (\<lambda>_. 3)] st1 = Inr st
    \<and> printd_base False d_guest ''message'' st = Inr [(Log_File 3, line)] \<and> length line \<le> 387"
proof -
  obtain st1 where 1: "debug_utils_init ''meteor/'' sample_debug = Inr st1"
    by (simp add: debug_utils_init_def Let_def)
  have u: "debug_units st1 d_guest = \<lparr>unit_print = 0, unit_log = 0, fd = 0\<rparr>" "path_prefix st1 = ''meteor/''"
    using 1 by (auto simp: debug_utils_init_def Let_def debug_unit_list_def)
  obtain st where 2: "debug_run False [Set_Log d_guest (\<lambda>_. 3)] st1 = Inr st"
    and v: "debug_units st d_guest = \<lparr>unit_print = 0, unit_log = 1, fd = 3\<rparr>"
    by (simp add: debug_utils_setl_def upd_unit_def debug_unit_at_def u Let_def)
  define line where "line = line_of (head_of d_guest) ''message''"
  have 3: "printd_base False d_guest ''message'' st = Inr [(Log_File 3, line)]"
    by (simp add: printd_base_def printd_head_def debug_unit_at_def v to_log_def line_def)
  from messages_go_to_open_logs [OF 1 2 disjI2 [OF disjI2 [OF disjI1 [OF 3]]]] 1 2 3
  show ?thesis by auto
qed

end
