(* ===== verification/Confinement.thy ===== *)
theory Confinement
  imports Fault_Inv Isolation
begin

text \<open>
  What the guests and the hypervisor do to memory after boot: the handlers store to their
  devices and to the pushed registers only, a guest to what its own stage 2 table reaches, so
  that the tables, and with them the isolation of the guests, stay as boot left them for as
  long as no page is allocated on demand.
\<close>

section \<open>Steps that leave the tables alone\<close>

text \<open>The state that says where the handlers store, and which table is whose.\<close>

definition same_fixed :: "meteor \<Rightarrow> meteor \<Rightarrow> bool" where
  "same_fixed s s' \<longleftrightarrow> sys_gic_vctrl s' = sys_gic_vctrl s \<and> sys_gic_vcpu_if s' = sys_gic_vcpu_if s
     \<and> sys_gic_cpu_if s' = sys_gic_cpu_if s \<and> sys_timer s' = sys_timer s
     \<and> (\<forall>i. pt (vm s' i) = pt (vm s i)
          \<and> vdist_sys_gic_dist (vdev_gic_dist (vm s' i)) = vdist_sys_gic_dist (vdev_gic_dist (vm s i)))"

definition quiet :: "meteor \<Rightarrow> meteor \<Rightarrow> bool" where
  "quiet s s' \<longleftrightarrow> same_fixed s s' \<and> touches handler_area (hw s) (hw s')
     \<and> cp15_64 (hw s') (2, 6) = cp15_64 (hw s) (2, 6)
     \<and> (\<forall>i. bk_cp15 (bk (vm s' i)) = bk_cp15 (bk (vm s i)))"

lemma same_fixed_refl [simp]: "same_fixed s s"
  by (simp add: same_fixed_def)

lemma same_fixed_trans: "same_fixed s t \<Longrightarrow> same_fixed t u \<Longrightarrow> same_fixed s u"
  by (simp add: same_fixed_def)

lemma same_fixed_devs: "same_fixed s s' \<Longrightarrow> devs_ok s' = devs_ok s"
  by (simp add: same_fixed_def devs_ok_def)

lemma same_fixed_hw [simp]: "same_fixed s (s\<lparr>hw := h\<rparr>)"
  by (simp add: same_fixed_def)

lemma quiet_refl [simp]: "quiet s s"
  by (simp add: quiet_def)

lemma quiet_trans: "quiet s t \<Longrightarrow> quiet t u \<Longrightarrow> quiet s u"
  unfolding quiet_def by (auto intro: same_fixed_trans touches_trans)

lemma quiet_hw:
  "touches handler_area (hw s) h \<Longrightarrow> cp15_64 h (2, 6) = cp15_64 (hw s) (2, 6) \<Longrightarrow> quiet s (s\<lparr>hw := h\<rparr>)"
  by (simp add: quiet_def)

lemma quiet_upd:
  "pt g = pt (vm s i) \<Longrightarrow> vdist_sys_gic_dist (vdev_gic_dist g) = vdist_sys_gic_dist (vdev_gic_dist (vm s i)) \<Longrightarrow>
     bk_cp15 (bk g) = bk_cp15 (bk (vm s i)) \<Longrightarrow> touches handler_area (hw s) h \<Longrightarrow>
     cp15_64 h (2, 6) = cp15_64 (hw s) (2, 6) \<Longrightarrow> quiet s (upd_vm i (\<lambda>_. g) (s\<lparr>hw := h\<rparr>))"
  by (simp add: quiet_def same_fixed_def)

lemma quiet_trigger: "quiet s (vm_trigger i e s)" "quiet s (sys_trigger e s)" "quiet s (set_wfi i w s)"
  by (simp_all add: quiet_def same_fixed_def vm_trigger_def set_wfi_def)

lemma quiet_elr: "quiet s (s\<lparr>hw := rf_elr_hyp_write v (hw s)\<rparr>)"
  by (rule quiet_hw) (simp_all add: rf_elr_hyp_write_def hw_simps touches_same)

lemma quiet_vttbr:
  assumes "quiet s s'" and "\<And>i. dirty_of s' i = dirty_of s i"
  shows "vttbr_ok s' = vttbr_ok s"
  using assms by (simp add: quiet_def vttbr_ok_def)

section \<open>The virtual devices\<close>

lemma touches_reads: "reads_only h h' \<Longrightarrow> touches A h h'"
  by (rule touches_same) (simp_all add: reads_onlyD)

lemma dist_irq_touches:
  assumes "dist_base_addr d = 0x50000000"
  shows "dev_gic2_dist_enable_irq d p h = Inr h' \<Longrightarrow> touches handler_area h h'"
    and "dev_gic2_dist_disable_irq d p h = Inr h' \<Longrightarrow> touches handler_area h h'"
  by (auto simp: dev_gic2_dist_enable_irq_def dev_gic2_dist_disable_irq_def assms split: if_splits
      intro!: touches_device_writew)

lemma isenable_touches:
  assumes "dist_base_addr (vdist_sys_gic_dist me) = 0x50000000"
  shows "vdev_gic2_dist_isenable data base i (me, h) = Inr (me', h') \<Longrightarrow>
      touches handler_area h h' \<and> vdist_sys_gic_dist me' = vdist_sys_gic_dist me"
    and "vdev_gic2_dist_icenable data base i (me, h) = Inr (me', h') \<Longrightarrow>
      touches handler_area h h' \<and> vdist_sys_gic_dist me' = vdist_sys_gic_dist me"
  using dist_irq_touches [OF assms]
  by (auto simp: vdev_gic2_dist_isenable_def vdev_gic2_dist_icenable_def Let_def bindR_eq_Inr
      split: if_splits)

lemma forR_touches:
  fixes f :: "nat \<Rightarrow> vdev_gic2_dist \<times> machine \<Rightarrow> (vdev_gic2_dist \<times> machine) res"
    and me :: vdev_gic2_dist
  assumes step: "\<And>i me h me' h'. dist_base_addr (vdist_sys_gic_dist me) = 0x50000000 \<Longrightarrow>
      f i (me, h) = Inr (me', h') \<Longrightarrow> touches handler_area h h' \<and> vdist_sys_gic_dist me' = vdist_sys_gic_dist me"
    and d: "dist_base_addr (vdist_sys_gic_dist me) = 0x50000000"
    and r: "forR f ns (me, h) = Inr (me', h')"
  shows "touches handler_area h h' \<and> vdist_sys_gic_dist me' = vdist_sys_gic_dist me"
proof -
  define P where "P = (\<lambda>(m :: vdev_gic2_dist, g). touches handler_area h g \<and> vdist_sys_gic_dist m = vdist_sys_gic_dist me)"
  have "P t" if "P s" "f i s = Inr t" for i s t
    using that d step [of "fst s" i "snd s" "fst t" "snd t"]
    by (cases s; cases t) (auto simp: P_def intro: touches_trans)
  from forR_invariant [of ns P f, OF this r] show ?thesis by (simp add: P_def)
qed

lemma enable_loop_touches:
  fixes me :: vdev_gic2_dist
  assumes "dist_base_addr (vdist_sys_gic_dist me) = 0x50000000"
  shows "forR (vdev_gic2_dist_isenable data base) ns (me, h) = Inr (me', h') \<Longrightarrow>
      touches handler_area h h' \<and> vdist_sys_gic_dist me' = vdist_sys_gic_dist me"
    and "forR (vdev_gic2_dist_icenable data base) ns (me, h) = Inr (me', h') \<Longrightarrow>
      touches handler_area h h' \<and> vdist_sys_gic_dist me' = vdist_sys_gic_dist me"
  using forR_touches [of "vdev_gic2_dist_isenable data base" me ns h me' h']
    forR_touches [of "vdev_gic2_dist_icenable data base" me ns h me' h']
    isenable_touches assms by blast+

lemma vdist_write_touches:
  fixes me :: vdev_gic2_dist
  assumes "dist_base_addr (vdist_sys_gic_dist me) = 0x50000000"
    and "vdev_gic2_dist_write me offset data h = Inr (me', h')"
  shows "touches handler_area h h' \<and> vdist_sys_gic_dist me' = vdist_sys_gic_dist me"
  using assms(2) unfolding vdev_gic2_dist_write_def Let_def
  by (auto split: if_splits dest: enable_loop_touches [OF assms(1)])

lemma reads_only_readw_eq: "io_readw a h = (v, h') \<Longrightarrow> reads_only h h'"
  using reads_only_readw [of h a] by simp

lemma sysreg_read_reads: "vdev_rpb_sysreg_read c offset h = Inr (v, h') \<Longrightarrow> reads_only h h'"
  by (auto simp: vdev_rpb_sysreg_read_def Let_def case_prod_beta dev_sys_ctrl_100counter_def
      dev_sys_ctrl_24Mcounter_def split: if_splits dest!: reads_only_readw_eq
      intro: reads_only_trans [OF reads_only_readw])

lemma write_reg_touches:
  assumes "write_reg_to_stack hyp_stack rn v h = Inr h'"
  shows "touches handler_area h h'"
proof -
  consider k where "k < 13" "rn = of_nat k" | "rn = 14"
  proof (cases "rn \<le> 12")
    case True
    then show ?thesis using that(1) [of "unat rn"] by (simp add: word_le_nat_alt)
  next
    case False
    with assms that(2) show ?thesis by (auto simp: write_reg_to_stack_def split: if_splits)
  qed
  then show ?thesis
  proof cases
    case 1
    with assms show ?thesis by (auto simp: write_reg_low intro: touches_stack_slot)
  next
    case 2
    with assms show ?thesis by (auto simp: write_reg_lr intro: touches_stack_slot)
  qed
qed

section \<open>The handlers that do not schedule\<close>

lemma dabort_load_quiet:
  assumes "dabort_load hyp_stack rt rd s = Inr s'" and "\<And>v h. rd (hw s) = Inr (v, h) \<Longrightarrow> reads_only (hw s) h"
  shows "quiet s s'"
proof -
  from assms(1) obtain v h h' where rd: "rd (hw s) = Inr (v, h)"
    and wr: "write_reg_to_stack hyp_stack rt v h = Inr h'" and s': "s' = s\<lparr>hw := h'\<rparr>"
    by (auto simp: dabort_load_def bindR_eq_Inr)
  have "touches handler_area (hw s) h'"
    using touches_trans [OF touches_reads [OF assms(2) [OF rd]] write_reg_touches [OF wr]] .
  moreover have "cp15_64 h' = cp15_64 (hw s)"
    using reads_onlyD(5) [OF assms(2) [OF rd]] write_reg_cpu [OF wr] by (simp add: same_cpu_def)
  ultimately show ?thesis unfolding s' by (intro quiet_hw) simp_all
qed

lemma read_reg_reads: "read_reg_from_stack sp rt h = Inr (v, h') \<Longrightarrow> reads_only h h'"
  by (auto simp: read_reg_from_stack_def bindR_eq_Inr dest: reads_only_readw_eq split: if_splits)

lemma dabort_store_quiet:
  assumes "dabort_store i sp rt wr s = Inr s'"
    and "\<And>v h g' h'. reads_only (hw s) h \<Longrightarrow> wr v (vm s i) h = Inr (g', h') \<Longrightarrow>
      pt g' = pt (vm s i) \<and> bk g' = bk (vm s i)
      \<and> vdist_sys_gic_dist (vdev_gic_dist g') = vdist_sys_gic_dist (vdev_gic_dist (vm s i))
      \<and> touches handler_area h h' \<and> cp15_64 h' = cp15_64 h"
  shows "quiet s s'"
proof -
  from assms(1) obtain v h g' h' where rd: "read_reg_from_stack sp rt (hw s) = Inr (v, h)"
    and wr: "wr v (vm s i) h = Inr (g', h')" and s': "s' = upd_vm i (\<lambda>_. g') (s\<lparr>hw := h'\<rparr>)"
    by (auto simp: dabort_store_def bindR_eq_Inr)
  note ro = read_reg_reads [OF rd]
  show ?thesis
    using assms(2) [OF ro wr] touches_trans [OF touches_reads [OF ro]] reads_onlyD(5) [OF ro]
    unfolding s' by (intro quiet_upd) auto
qed

lemma dabort_vdev_quiet:
  assumes "dabort_vdev i hyp_stack base offset is_load rt s = Inr s'"
    and "dist_base_addr (vdist_sys_gic_dist (vdev_gic_dist (vm s i))) = 0x50000000"
  shows "quiet s s'"
  using assms(1) unfolding dabort_vdev_def
  by (auto split: if_splits simp: vdev_rpb_sysreg_write_def bindR_eq_Inr
      elim!: dabort_load_quiet dabort_store_quiet
      dest: sysreg_read_reads vdist_write_touches [OF assms(2)] vdist_write_cpu
      simp: same_cpu_def)

lemma dabort_quiet:
  assumes "\<not> memory_fault s" and "guest_rpb_hyp_trap_dabort_handler i hyp_stack iss s = Inr s'"
    and "dist_base_addr (vdist_sys_gic_dist (vdev_gic_dist (vm s i))) = 0x50000000"
  shows "quiet s s'"
proof -
  let ?t = "vm_trigger i TRAP_DABORT_VDEV s"
  obtain offset where "guest_rpb_hyp_trap_dabort_handler i hyp_stack iss s =
    bindR (dabort_decode (cp15_read HADFSR (hw s)))
      (\<lambda>(is_load, rt). dabort_vdev i hyp_stack (fault_page s) offset is_load rt ?t)"
    by (rule dabort_device_eq [OF assms(1)])
  with assms(2) obtain l rt where "dabort_vdev i hyp_stack (fault_page s) offset l rt ?t = Inr s'"
    by (auto simp: bindR_eq_Inr)
  from quiet_trans [OF quiet_trigger(1) dabort_vdev_quiet [OF this]] assms(3)
  show ?thesis by (simp add: vm_trigger_def)
qed

lemma hypervisor_call_quiet: "quiet s (hypervisor_call i imm16 s)"
proof -
  define t where "t = s\<lparr>hw := rf_elr_hyp_write (rf_elr_hyp_read (hw s) - 4) (hw s)\<rparr>"
  have "quiet t (hypervisor_call i imm16 s)"
    by (simp add: hypervisor_call_def Let_def quiet_def same_fixed_def flip: t_def)
  with quiet_elr show ?thesis unfolding t_def by (rule quiet_trans)
qed

section \<open>Interrupts\<close>

lemma inject_loop_touches:
  assumes "vctrl_base_addr gic = 0x50002000" and "set ns \<subseteq> {..<64}"
    and "inject_loop (dev_gic2_vctrl_read_list gic) (dev_gic2_vctrl_write_list_simple gic) pid vid ns h = Some h'"
  shows "touches handler_area h h' \<and> cp15_64 h' = cp15_64 h"
  using assms(2,3)
proof (induction ns arbitrary: h)
  case (Cons n ns)
  obtain v g where r: "dev_gic2_vctrl_read_list gic n h = (v, g)" by fastforce
  have ro: "reads_only h g" using r by (auto simp: dev_gic2_vctrl_read_list_def intro: reads_only_readw_eq)
  have n: "n < 64" and ns: "set ns \<subseteq> {..<64}" using Cons.prems(1) by auto
  have "touches handler_area g h' \<and> cp15_64 h' = cp15_64 g"
  proof (cases "list_reg_invalid v")
    case True
    with Cons.prems(2) list_write_touches [OF assms(1) n, of g] show ?thesis
      by (auto simp: r dev_gic2_vctrl_write_list_simple_def hw_simps)
  next
    case False
    with Cons.prems(2) Cons.IH [OF ns] show ?thesis by (simp add: r)
  qed
  with touches_trans [OF touches_reads [OF ro]] reads_onlyD(5) [OF ro] show ?case by auto
qed simp

lemma irq_inject_quiet:
  assumes "irq_inject sp pid t s = Inr s'" and "vctrl_base_addr (sys_gic_vctrl s) = 0x50002000"
  shows "quiet s s'"
proof -
  have live: "quiet s u" if u: "guest_rpb_irq_handler t sp pid s = Inr u" for u
  proof -
    have ns: "set [0..<64] \<subseteq> {..<64 :: nat}" by auto
    from u have "u = vm_trigger t TRAP_IRQ s \<or> (\<exists>h vid. inject_loop
        (dev_gic2_vctrl_read_list (sys_gic_vctrl s)) (dev_gic2_vctrl_write_list_simple (sys_gic_vctrl s))
        pid vid [0..<64] (hw s) = Some h \<and> u = (vm_trigger t TRAP_IRQ s)\<lparr>hw := h\<rparr>)"
      by (auto simp: guest_rpb_irq_handler_def Let_def vm_trigger_def split: if_splits option.splits)
    then show ?thesis
    proof
      assume "u = vm_trigger t TRAP_IRQ s"
      then show ?thesis by (simp add: quiet_trigger)
    next
      assume "\<exists>h vid. inject_loop
        (dev_gic2_vctrl_read_list (sys_gic_vctrl s)) (dev_gic2_vctrl_write_list_simple (sys_gic_vctrl s))
        pid vid [0..<64] (hw s) = Some h \<and> u = (vm_trigger t TRAP_IRQ s)\<lparr>hw := h\<rparr>"
      then obtain h vid where h: "inject_loop
        (dev_gic2_vctrl_read_list (sys_gic_vctrl s)) (dev_gic2_vctrl_write_list_simple (sys_gic_vctrl s))
        pid vid [0..<64] (hw s) = Some h" and u: "u = (vm_trigger t TRAP_IRQ s)\<lparr>hw := h\<rparr>" by blast
      from inject_loop_touches [OF assms(2) ns h] show ?thesis
        unfolding u by (intro quiet_trans [OF quiet_trigger(1) quiet_hw]) (auto simp: vm_trigger_def)
    qed
  qed
  have susp: "quiet s u" if "guest_rpb_irq_handler_suspend t sp pid s = Inr u" for u
    using that by (auto simp: guest_rpb_irq_handler_suspend_def Let_def quiet_def same_fixed_def
        split: if_splits option.splits)
  obtain u where u: "quiet s u" and "s' = (if wfi_of u t = WFI_In then set_wfi t WFI_PendingIRQ u else u)"
    using assms(1) live susp unfolding irq_inject_def by (auto simp: bindR_eq_Inr split: if_splits)
  then show ?thesis using quiet_trans [OF u quiet_trigger(3)] by simp
qed

section \<open>Switching guests\<close>

lemma guest_suspend_effect:
  assumes "guest_suspend gic vc g sp h = Inr (g', h')"
  shows "reads_only h h'" and "g' = g\<lparr>bk := bk g'\<rparr>" and "\<not> dirty (bk g')"
    and "vttbr_lpae (bk_cp15 (bk g')) = (if dirty (bk g) then cp15_64 h (2, 6)
      else vttbr_lpae (bk_cp15 (bk g)))"
proof -
  have "reads_only h h' \<and> g' = g\<lparr>bk := bk g'\<rparr> \<and> \<not> dirty (bk g')
    \<and> vttbr_lpae (bk_cp15 (bk g')) = (if dirty (bk g) then cp15_64 h (2, 6)
        else vttbr_lpae (bk_cp15 (bk g)))"
  proof (cases "dirty (bk g)")
    case False
    with assms show ?thesis by (simp add: guest_suspend_clean)
  next
    case True
    obtain rf h1 where rf: "guest_backup_rf g sp h = Inr (g\<lparr>bk := (bk g)\<lparr>bk_rf := rf\<rparr>\<rparr>, h1)"
      and ro1: "reads_only h h1"
    proof (cases "sp = 0")
      case True
      then show ?thesis using guest_backup_rf_0 [of g h] by (intro that) auto
    next
      case False
      obtain l g1 where s: "save_cells (\<lambda>k. io_readw (stack_slot sp k)) 13 (r_usr (bk_rf (bk g)), h)
          = (l, g1)" by fastforce
      obtain lr g2 where r: "io_readw (stack_slot sp 13) g1 = (lr, g2)" by fastforce
      have ro: "reads_only h g1"
        using save_stack_reads_only [of h sp 13 "r_usr (bk_rf (bk g))"] by (simp add: s)
      have ro2: "reads_only h g2" using reads_only_trans [OF ro reads_only_readw_eq [OF r]] .
      from guest_backup_rf_pushed [OF False s r] show ?thesis
        by (rule that) (simp_all add: reads_onlyD [OF ro] reads_onlyD [OF ro2] ro2)
    qed
    obtain v h2 where v: "dev_gic2_vcpu_if_read_ctlr vc h1 = (v, h2)" by fastforce
    obtain l h3 where l: "save_cells (dev_gic2_vctrl_read_list gic) 64 (bk_list (bk g), h2) = (l, h3)"
      by fastforce
    have ro2: "reads_only h1 h2"
      using reads_only_readw_eq v by (auto simp: dev_gic2_vcpu_if_read_ctlr_def)
    have "reads_only h2 (snd (save_cells (dev_gic2_vctrl_read_list gic) 64 (bk_list (bk g), h2)))"
      by (rule save_cells_keeps)
        (auto simp: dev_gic2_vctrl_read_list_def intro: reads_only_trans reads_only_readw)
    then have ro: "reads_only h h3"
      using reads_only_trans [OF reads_only_trans [OF ro1 ro2]] by (simp add: l)
    have "h' = h3" "g' = g\<lparr>bk := (bk g)\<lparr>dirty := False, bk_rf := rf, bk_cp15 := cp15_snapshot h1,
        bk_vcpu_if := \<lparr>ctlr = v\<rparr>, bk_list := l\<rparr>\<rparr>"
      using assms True by (auto simp: guest_suspend_def rf guest_backup_cp15_eq
          guest_backup_gic2_vcpu_if_def v guest_backup_list_def l)
    with ro True show ?thesis
      by (simp add: cp15_snapshot_def cp15_read64_vttbr reads_onlyD(5) [OF ro1])
  qed
  then show "reads_only h h'" "g' = g\<lparr>bk := bk g'\<rparr>" "\<not> dirty (bk g')"
    "vttbr_lpae (bk_cp15 (bk g')) = (if dirty (bk g) then cp15_64 h (2, 6)
      else vttbr_lpae (bk_cp15 (bk g)))" by blast+
qed

text \<open>The step from a guest's context to another's, as far as memory and tables go.\<close>

definition tame :: "meteor \<Rightarrow> meteor \<Rightarrow> bool" where
  "tame s s' \<longleftrightarrow> same_fixed s s' \<and> touches handler_area (hw s) (hw s') \<and> (vttbr_ok s \<longrightarrow> vttbr_ok s')"

lemma tame_trans: "tame s t \<Longrightarrow> tame t u \<Longrightarrow> tame s u"
  unfolding tame_def by (auto intro: same_fixed_trans touches_trans)

lemma tame_quiet: "quiet s s' \<Longrightarrow> (\<And>i. dirty_of s' i = dirty_of s i) \<Longrightarrow> tame s s'"
  using quiet_vttbr [of s s'] by (simp add: tame_def quiet_def)

lemma suspend_tame:
  assumes "suspend_vm i sp s = Inr s'"
  shows "tame s s'" and "\<not> dirty_of s' i" and "\<And>j. j \<noteq> i \<Longrightarrow> vm s' j = vm s j" and "vm_id s' = vm_id s"
    and "vm s' i = (vm s i)\<lparr>bk := bk (vm s' i)\<rparr>" and "scheduler_idle s' = scheduler_idle s"
proof -
  from assms obtain g h where r: "guest_suspend (sys_gic_vctrl s) (sys_gic_vcpu_if s) (vm s i) sp (hw s) = Inr (g, h)"
    and s': "s' = upd_vm i (\<lambda>_. g) (s\<lparr>hw := h\<rparr>)"
    by (auto simp: suspend_vm_def bindR_eq_Inr)
  note e = guest_suspend_effect [OF r]
  have "pt g = pt (vm s i)" "vdev_gic_dist g = vdev_gic_dist (vm s i)"
    by (subst e(2), simp)+
  then have "same_fixed s s'" by (simp add: s' same_fixed_def)
  moreover have "vttbr_ok s'" if "vttbr_ok s"
    unfolding vttbr_ok_def
  proof (intro allI impI)
    fix j :: int assume j: "0 \<le> j \<and> j < 4"
    show "table_of (if dirty_of s' j then cp15_64 (hw s') (2, 6)
        else vttbr_lpae (bk_cp15 (bk (vm s' j)))) = ucast (pt_base (nat j))"
      using that [unfolded vttbr_ok_def, rule_format, OF j] e(3,4) reads_onlyD(5) [OF e(1)]
      by (cases "j = i") (auto simp: s' split: if_splits)
  qed
  ultimately show "tame s s'" using touches_reads [OF e(1)] by (simp add: tame_def s')
  show "\<not> dirty_of s' i" "\<And>j. j \<noteq> i \<Longrightarrow> vm s' j = vm s j" "vm_id s' = vm_id s" "scheduler_idle s' = scheduler_idle s"
    using e(3) by (simp_all add: s')
  show "vm s' i = (vm s i)\<lparr>bk := bk (vm s' i)\<rparr>" using e(2) by (simp add: s')
qed

text \<open>Restoring a guest moves its table from its backup into \<open>VTTBR\<close>.\<close>

lemma restore_tame:
  assumes clean: "\<And>j. 0 \<le> j \<Longrightarrow> j < 4 \<Longrightarrow> \<not> dirty_of s j" and i: "0 \<le> i" "i < 4"
    and r: "restore_vm i hyp_stack s = Inr s'" and d: "devs_ok s"
  shows "tame s s'"
proof -
  note ci = clean [OF i]
  have gic: "vctrl_base_addr (sys_gic_vctrl s) = 0x50002000" "vcpu_if_base_address (sys_gic_vcpu_if s) = 0x50003000"
    using d by (simp_all add: devs_ok_def)
  note e = restore_vm_effect [OF ci r _ gic]
  obtain h where s': "s' = upd_vm i (\<lambda>g. g\<lparr>bk := (bk g)\<lparr>dirty := True\<rparr>\<rparr>) (s\<lparr>hw := h, vm_id := guest_id (vm s i)\<rparr>)"
  proof (rule restore_vm_total [OF ci, of hyp_stack])
    fix h assume "restore_vm i hyp_stack s = Inr (upd_vm i (\<lambda>g. g\<lparr>bk := (bk g)\<lparr>dirty := True\<rparr>\<rparr>)
        (s\<lparr>hw := h, vm_id := guest_id (vm s i)\<rparr>))"
    with r have "s' = upd_vm i (\<lambda>g. g\<lparr>bk := (bk g)\<lparr>dirty := True\<rparr>\<rparr>)
        (s\<lparr>hw := h, vm_id := guest_id (vm s i)\<rparr>)" by simp
    then show thesis by (rule that)
  qed
  have "same_fixed s s'" by (simp add: s' same_fixed_def)
  moreover have "vttbr_ok s'" if "vttbr_ok s"
    unfolding vttbr_ok_def
  proof (intro allI impI)
    fix j :: int assume j: "0 \<le> j \<and> j < 4"
    have "table_of (vttbr_lpae (bk_cp15 (bk (vm s j)))) = ucast (pt_base (nat j))"
      using that clean j unfolding vttbr_ok_def by metis
    with e(2) clean [of j] j show "table_of (if dirty_of s' j then cp15_64 (hw s') (2, 6)
        else vttbr_lpae (bk_cp15 (bk (vm s' j)))) = ucast (pt_base (nat j))"
      by (auto simp: s' table_of_vmid)
  qed
  ultimately show ?thesis using e(1) by (simp add: tame_def)
qed

lemma reset_timer_tame:
  assumes "devs_ok s"
  shows "tame s (scheduler_reset_timer s)"
  using touches_device_writew [of "0x50005000" "hw s"] assms
  by (intro tame_quiet quiet_hw [of s, folded scheduler_reset_timer_def])
    (simp_all add: scheduler_reset_timer_def dev_timer_set_load_def devs_ok_def quiet_def hw_simps)

lemma idle_tame: "tame s (scheduler_enter_idle s)" "tame s (scheduler_leave_idle s)"
  by (auto intro!: tame_quiet simp: quiet_def same_fixed_def scheduler_enter_idle_def scheduler_leave_idle_def)

lemma tame_devs: "tame s s' \<Longrightarrow> devs_ok s \<Longrightarrow> devs_ok s'"
  using same_fixed_devs [of s s'] by (simp add: tame_def)

lemma scheduler_tame:
  assumes pre: "sched_pre s" and d: "devs_ok s" and r: "scheduler hyp_stack s = Inr (fl, s')"
  shows "tame s s'"
proof (cases "next_guest s")
  case None
  obtain t where t: "suspend_vm (vm_id s) hyp_stack s = Inr t"
    and s': "s' = scheduler_enter_idle (scheduler_reset_timer t)"
    using r sched_pre_vm_id [OF pre] by (auto simp: scheduler_rr_cases None bindR_eq_Inr)
  note 1 = suspend_tame(1) [OF t]
  show ?thesis
    unfolding s' by (rule tame_trans [OF tame_trans [OF 1 reset_timer_tame [OF tame_devs [OF 1 d]]] idle_tame(1)])
next
  case (Some j)
  note j = next_guest_range [OF Some]
  define s0 where "s0 = (if wfi_of s j = WFI_PendingIRQ then set_wfi j WFI_Out s else s)"
  obtain t u where t: "suspend_vm (vm_id s) hyp_stack s0 = Inr t" and u: "restore_vm j hyp_stack t = Inr u"
    and s': "s' = scheduler_leave_idle (scheduler_reset_timer (sys_trigger VM_SWITCH u))"
    using r sched_pre_vm_id [OF pre]
    by (auto simp: scheduler_rr_cases Some scheduler_switch_def bindR_eq_Inr simp flip: s0_def)
  have d0: "dirty_of s0 i = dirty_of s i" for i
    by (cases "i = j") (simp_all add: s0_def set_wfi_def)
  have 0: "tame s s0" by (rule tame_quiet [OF _ d0]) (simp add: s0_def quiet_trigger)
  note 1 = suspend_tame [OF t]
  have "\<not> dirty_of t k" if "0 \<le> k" "k < 4" for k
    using 1(2) 1(3) [of k] d0 pre that by (cases "k = vm_id s") (auto simp: sched_pre_def)
  from restore_tame [OF this _ _ u] j have 2: "tame t u" using tame_devs [OF 1(1) tame_devs [OF 0 d]] by simp
  have 3: "tame u (sys_trigger VM_SWITCH u)" by (intro tame_quiet quiet_trigger) simp
  have d3: "devs_ok (sys_trigger VM_SWITCH u)"
    using tame_devs [OF 3 tame_devs [OF 2 tame_devs [OF 1(1) tame_devs [OF 0 d]]]] .
  show ?thesis
    unfolding s'
    by (rule tame_trans [OF tame_trans [OF tame_trans [OF tame_trans [OF tame_trans
        [OF 0 1(1)] 2] 3] reset_timer_tame [OF d3]] idle_tame(2)])
qed

section \<open>A guest that runs\<close>

text \<open>
  A guest stores bytes through the table in \<open>VTTBR\<close>, as the memory holds it at that moment;
  it changes its registers, the system registers but \<open>VTTBR\<close>, and the state of the devices,
  in any way. A trap then pushes the registers on the hypervisor's stack.
\<close>

inductive guest_run :: "machine \<Rightarrow> machine \<Rightarrow> bool" for h0 where
  begins: "guest_run h0 h0"
| stores: "guest_run h0 h \<Longrightarrow> s2_walk (mem h) (table_of (cp15_64 h (2, 6))) y = Some (ucast p) \<Longrightarrow>
    guest_run h0 (h\<lparr>mem := (mem h)(p := b)\<rparr>)"
| computes: "guest_run h0 h \<Longrightarrow> mem h' = mem h \<Longrightarrow> dev h' = dev h \<Longrightarrow>
    cp15_64 h' (2, 6) = cp15_64 h (2, 6) \<Longrightarrow> guest_run h0 h'"

definition trap_entry :: "machine \<Rightarrow> machine \<Rightarrow> bool" where
  "trap_entry h h' \<longleftrightarrow> touches stack_area h h' \<and> cp15_64 h' (2, 6) = cp15_64 h (2, 6)"

text \<open>The physical addresses in the map of guest \<open>k\<close>.\<close>

definition guest_area :: "nat \<Rightarrow> u32 set" where
  "guest_area k = {p. \<exists>y. stage2_lookup (guest_map k) y = Some p}"

lemma guest_area_pages:
  assumes "k < 4" and "p \<in> guest_area k"
  shows "0x10000 + k * 0x8000 \<le> page_no p \<and> page_no p < 0x10000 + (k + 1) * 0x8000
    \<or> page_no p \<in> {0x60000 + k, 0x60004 + k, 0x60008 + k, 0x50003, 0x90000 + k}"
  using assms guest_map_pages by (auto simp: guest_area_def)

lemma guest_area_apart:
  assumes "k < 4" and "j < 4"
  shows "guest_area k \<inter> pt_area (pt_base j) = {}"
proof -
  have False if "p \<in> guest_area k" "p \<in> pt_area (pt_base j)" for p
  proof -
    have "0x10000 \<le> page_no p" using guest_area_pages [OF assms(1) that(1)] by auto
    then have "0x10000000 \<le> unat p" by (simp add: page_no_def le_div_geq less_eq_div_iff_mult_less_eq)
    moreover have "unat p < 0x10000000" using that(2) assms(2) by (simp add: area_def bases)
    ultimately show False by simp
  qed
  then show ?thesis by blast
qed

lemma guest_run_touches:
  assumes run: "guest_run h0 h" and k: "k < 4" and rel: "pt_rel (pt_base k) (guest_map k) q h0"
    and v: "table_of (cp15_64 h0 (2, 6)) = ucast (pt_base k)"
  shows "touches (guest_area k) h0 h \<and> cp15_64 h (2, 6) = cp15_64 h0 (2, 6)"
  using run
proof induction
  case begins
  then show ?case by simp
next
  case (stores h y p b)
  have "pt_rel (pt_base k) (guest_map k) q h"
    using pt_rel_touch [OF rel] stores.IH guest_area_apart [OF k k] by blast
  from s2_walk_lookup [OF this, of y] stores.hyps(2) stores.IH v
  have "map_option ucast (stage2_lookup (guest_map k) y) = Some (ucast p :: u64)" by simp
  then obtain q where q: "stage2_lookup (guest_map k) y = Some q" "(ucast q :: u64) = ucast p" by auto
  have "unat (ucast q :: u64) = unat (ucast p :: u64)" using q(2) by simp
  then have "q = p" by (simp add: unat_ucast_64 word_unat_eq_iff)
  with q(1) have "p \<in> guest_area k" by (auto simp: guest_area_def)
  with stores.IH show ?case by (auto simp: touches_def)
next
  case (computes h h')
  then show ?case by (simp add: touches_def)
qed

section \<open>The tables in every reachable state\<close>

definition confined :: "meteor \<Rightarrow> bool" where
  "confined s \<longleftrightarrow> run_inv s \<and> devs_ok s \<and> vttbr_ok s
     \<and> (\<forall>j < 4. pt_rel (pt_base j) (guest_map j) (pt (vm s (int j))) (hw s))"

text \<open>A data abort that the handler answers with a new page.\<close>

definition allocates :: "meteor \<Rightarrow> bool" where
  "allocates s \<longleftrightarrow> get_field (cp15_read HSR (hw s)) 31 26 = 0x24 \<and> memory_fault s"

definition runs :: "meteor \<Rightarrow> machine \<Rightarrow> bool" where
  "runs s h \<longleftrightarrow> (if scheduler_idle s
     then mem h = mem (hw s) \<and> dev h = dev (hw s) \<and> cp15_64 h (2, 6) = cp15_64 (hw s) (2, 6)
     else guest_run (hw s) h)"

inductive guest_step :: "meteor \<Rightarrow> meteor \<Rightarrow> bool" where
  trap: "\<not> scheduler_idle s \<Longrightarrow> guest_run (hw s) g \<Longrightarrow> trap_entry g h \<Longrightarrow> \<not> allocates (s\<lparr>hw := h\<rparr>) \<Longrightarrow>
    hyp_trap_handler hyp_stack (s\<lparr>hw := h\<rparr>) = Inr (fl, s') \<Longrightarrow> guest_step s s'"
| irq: "runs s g \<Longrightarrow> trap_entry g h \<Longrightarrow> irq_handler hyp_stack (s\<lparr>hw := h\<rparr>) = Inr (fl, s') \<Longrightarrow>
    guest_step s s'"

inductive_cases guest_stepE: "guest_step s s'"

inductive guest_reach :: "meteor \<Rightarrow> meteor \<Rightarrow> bool" for s0 where
  start: "guest_reach s0 s0"
| step: "guest_reach s0 s \<Longrightarrow> guest_step s s' \<Longrightarrow> guest_reach s0 s'"

lemma trap_tame:
  assumes inv: "run_inv s" and d: "devs_ok s" and al: "\<not> allocates s"
    and h: "hyp_trap_handler hyp_stack s = Inr (fl, s')"
  shows "tame s s'"
proof -
  define s1 where "s1 = s\<lparr>hw := rf_elr_hyp_write (rf_elr_hyp_read (hw s) + 4) (hw s)\<rparr>"
  define ec where "ec = get_field (cp15_read HSR (hw s1)) 31 26"
  define iss where "iss = get_field (cp15_read HSR (hw s1)) 24 0"
  have hsr: "cp15_read HSR (hw s1) = cp15_read HSR (hw s)"
    by (rule cp15_read_cong) (simp add: s1_def rf_elr_hyp_write_def hw_simps)
  have q1: "quiet s s1" unfolding s1_def by (rule quiet_elr)
  have 1: "tame s s1" by (rule tame_quiet [OF q1]) (simp add: s1_def)
  note d1 = tame_devs [OF 1 d]
  have v: "vm_id s1 = vm_id s" "0 \<le> vm_id s" "vm_id s < 4"
    using sched_pre_vm_id [OF run_inv_pre [OF inv]] by (simp_all add: s1_def)
  note h' = h [unfolded hyp_trap_handler_def Let_def, folded s1_def, folded ec_def iss_def]
  consider (wfi) "scheduler hyp_stack (set_wfi (vm_id s1) WFI_In (vm_trigger (vm_id s1) TRAP_WFI s1)) = Inr (fl, s')"
    | (cp15) "s' = vm_trigger (vm_id s1) TRAP_CP15 (sys_trigger TRAP_WFI s1)"
    | (cp14) "s' = s1"
    | (hvc) "s' = hypervisor_call (vm_id s1) (iss AND mask32 15 0) s1"
    | (dabort) "ec = 0x24" "guest_rpb_hyp_trap_dabort_handler (vm_id s1) hyp_stack iss s1 = Inr s'"
    using h' by (auto simp: resume_def bindR_eq_Inr guest_rpb_cp15_trap_def Let_def split: if_splits)
  then show ?thesis
  proof cases
    case wfi
    let ?t = "set_wfi (vm_id s1) WFI_In (vm_trigger (vm_id s1) TRAP_WFI s1)"
    have "sched_pre ?t"
      using run_inv_pre [OF inv]
      by (auto simp: s1_def sched_pre_def guests_ok_def set_wfi_def vm_trigger_def)
    moreover have t: "tame s1 ?t"
      by (rule tame_quiet [OF quiet_trans [OF quiet_trigger(1) quiet_trigger(3)]])
        (simp add: set_wfi_def vm_trigger_def)
    ultimately show ?thesis
      using tame_trans [OF 1 tame_trans [OF t scheduler_tame [OF _ tame_devs [OF t d1] wfi]]] by blast
  next
    case cp15
    have "tame s1 s'"
      unfolding cp15 by (rule tame_quiet [OF quiet_trans [OF quiet_trigger(2) quiet_trigger(1)]])
        (simp add: vm_trigger_def)
    with 1 show ?thesis by (rule tame_trans)
  next
    case cp14
    with 1 show ?thesis by simp
  next
    case hvc
    have "tame s1 s'"
      unfolding hvc by (rule tame_quiet [OF hypervisor_call_quiet])
        (use hypervisor_call_control in \<open>simp add: same_control_def\<close>)
    with 1 show ?thesis by (rule tame_trans)
  next
    case dabort
    have "\<not> memory_fault s1"
      using al dabort(1) fault_page_elr unfolding s1_def ec_def allocates_def hsr [unfolded s1_def]
      by (simp add: memory_fault_def)
    moreover have "dist_base_addr (vdist_sys_gic_dist (vdev_gic_dist (vm s1 (vm_id s1)))) = 0x50000000"
      using d1 v by (simp add: devs_ok_def)
    ultimately have "tame s1 s'"
      using dabort(2) dabort_control [OF dabort(2)]
      by (intro tame_quiet dabort_quiet) (auto simp: same_control_def)
    with 1 show ?thesis by (rule tame_trans)
  qed
qed

lemma irq_tame:
  assumes inv: "run_inv s" and d: "devs_ok s" and h: "irq_handler hyp_stack s = Inr (fl, s')"
  shows "tame s s'"
proof -
  obtain ack h1 where ack: "dev_gic2_cpu_if_read_ack (sys_gic_cpu_if s) (hw s) = (ack, h1)"
    by fastforce
  have ro: "reads_only (hw s) h1"
    using ack by (auto simp: dev_gic2_cpu_if_read_ack_def intro: reads_only_readw_eq)
  have 1: "tame s (s\<lparr>hw := h1\<rparr>)"
    by (rule tame_quiet [OF quiet_hw [OF touches_reads [OF ro]]]) (simp_all add: reads_onlyD [OF ro])
  note d1 = tame_devs [OF 1 d]
  have inv1: "run_inv (s\<lparr>hw := g\<rparr>)" for g
    using same_control_inv [OF same_control_hw [of s g]] inv by simp
  note h' = h [unfolded irq_handler_def Let_def ack prod.case]
  show ?thesis
  proof (cases "sint ack = 34")
    case True
    let ?h2 = "dev_gic2_cpu_if_write_eoi (sys_gic_cpu_if s) 34 (dev_timer_clear_interrupt (sys_timer s) 0 h1)"
    have sch: "scheduler hyp_stack (s\<lparr>hw := ?h2\<rparr>) = Inr (fl, s')" using h' True by simp
    have "touches handler_area h1 ?h2"
      using d touches_trans [OF touches_device_writew [of "0x5000500C" h1 0] touches_device_writew [of "0x50001010"]]
      by (simp add: devs_ok_def dev_gic2_cpu_if_write_eoi_def dev_timer_clear_interrupt_def)
    from touches_trans [OF touches_reads [OF ro] this] have 2: "tame s (s\<lparr>hw := ?h2\<rparr>)"
      by (intro tame_quiet quiet_hw)
        (simp_all add: reads_onlyD [OF ro] dev_gic2_cpu_if_write_eoi_def dev_timer_clear_interrupt_def hw_simps)
    show ?thesis
      using tame_trans [OF 2 scheduler_tame [OF run_inv_pre [OF inv1] tame_devs [OF 2 d] sch]] .
  next
    case False
    show ?thesis
    proof (cases "irq_target (sint ack)")
      case None
      with False h' have "s' = s\<lparr>hw := h1\<rparr>" by (auto split: if_splits)
      with 1 show ?thesis by simp
    next
      case (Some t)
      note t = irq_target_range [OF Some]
      have kind: "guest_kind (vm (s\<lparr>hw := h1\<rparr>) t) = Realview_PB"
        using inv t by (simp add: run_inv_def sched_pre_def guests_ok_def)
      from False Some h' have "irq_deliver hyp_stack (sint ack) t (s\<lparr>hw := h1\<rparr>) = Inr (fl, s')" by simp
      then obtain u where u: "irq_inject hyp_stack (sint ack) t (sys_trigger TRAP_IRQ (s\<lparr>hw := h1\<rparr>)) = Inr u"
        and fl: "(if scheduler_is_idle u then scheduler hyp_stack u else Inr (Resume, u)) = Inr (fl, s')"
        unfolding irq_deliver_eq [OF kind] by (auto simp: bindR_eq_Inr)
      have 2: "tame (s\<lparr>hw := h1\<rparr>) u"
        using quiet_trans [OF quiet_trigger(2) irq_inject_quiet [OF u]] irq_inject_effect(6) [OF u] d1
        by (intro tame_quiet) (simp_all add: devs_ok_def)
      have pre: "sched_pre u"
        using irq_inject_pre [OF u] run_inv_pre [OF inv1 [of h1]]
          same_control_pre [OF same_control_trigger(2) [of "s\<lparr>hw := h1\<rparr>" TRAP_IRQ]] by simp
      have "tame u s'"
      proof (cases "scheduler_is_idle u")
        case True
        with fl show ?thesis using scheduler_tame [OF pre tame_devs [OF 2 d1]] by simp
      next
        case False
        with fl show ?thesis by (auto simp: tame_def)
      qed
      with 1 2 show ?thesis by (blast intro: tame_trans)
    qed
  qed
qed

text \<open>What a guest may store to before the next trap: nothing when the processor is idle.\<close>

definition run_area :: "meteor \<Rightarrow> u32 set" where
  "run_area s = (if scheduler_idle s then {} else guest_area (nat (vm_id s)))"

lemma runs_touches:
  assumes c: "confined s" and run: "runs s g"
  shows "touches (run_area s) (hw s) g \<and> cp15_64 g (2, 6) = cp15_64 (hw s) (2, 6)"
proof (cases "scheduler_idle s")
  case True
  with run show ?thesis by (simp add: runs_def run_area_def touches_def)
next
  case False
  note inv = c [unfolded confined_def]
  define k where "k = nat (vm_id s)"
  have k: "k < 4" and ki: "int k = vm_id s"
    using sched_pre_vm_id [OF run_inv_pre, of s] inv by (auto simp: k_def)
  have dirty: "dirty_of s (vm_id s)" using inv False by (simp add: run_inv_def)
  have vt: "0 \<le> i \<Longrightarrow> i < 4 \<Longrightarrow> table_of (if dirty_of s i then cp15_64 (hw s) (2, 6)
      else vttbr_lpae (bk_cp15 (bk (vm s i)))) = ucast (pt_base (nat i))" for i
    using inv by (simp add: vttbr_ok_def)
  have "table_of (cp15_64 (hw s) (2, 6)) = ucast (pt_base k)"
    using vt [of "vm_id s"] k ki dirty by (simp add: k_def)
  moreover have "pt_rel (pt_base k) (guest_map k) (pt (vm s (int k))) (hw s)" using inv k by blast
  ultimately show ?thesis
    using guest_run_touches [OF _ k] run False by (simp add: runs_def run_area_def flip: k_def)
qed

lemma run_area_apart:
  assumes "confined s" and "j < 4"
  shows "run_area s \<inter> pt_area (pt_base j) = {}"
proof -
  have "vm_id s < 4"
    using sched_pre_vm_id [OF run_inv_pre, of s] assms(1) by (simp add: confined_def)
  then have "nat (vm_id s) < 4" by simp
  from guest_area_apart [OF this assms(2)] show ?thesis by (simp add: run_area_def)
qed

text \<open>Every step keeps the tables: first what the guest does, then what the handler does.\<close>

lemma confined_entry:
  assumes c: "confined s" and run: "runs s g" and e: "trap_entry g h"
  shows "confined (s\<lparr>hw := h\<rparr>)"
proof -
  note inv = c [unfolded confined_def] and g = runs_touches [OF c run]
  have st: "stack_area \<inter> pt_area (pt_base j) = {}" if "j < 4" for j
    using handler_area_apart [OF that] by (auto simp: handler_area_def)
  have "pt_rel (pt_base j) (guest_map j) (pt (vm s (int j))) h" if j: "j < 4" for j
  proof -
    have "pt_rel (pt_base j) (guest_map j) (pt (vm s (int j))) g"
      using pt_rel_touch [OF _ conjunct1 [OF g] run_area_apart [OF c j]] inv j by blast
    from pt_rel_touch [OF this _ st [OF j]] e show ?thesis by (simp add: trap_entry_def)
  qed
  moreover have "run_inv (s\<lparr>hw := h\<rparr>)"
    using same_control_inv [OF same_control_hw [of s h]] inv by simp
  moreover have "vttbr_ok (s\<lparr>hw := h\<rparr>)"
  proof -
    have "cp15_64 h (2, 6) = cp15_64 (hw s) (2, 6)" using e g by (simp add: trap_entry_def)
    with inv show ?thesis by (simp add: vttbr_ok_def cong: if_cong)
  qed
  ultimately show ?thesis using inv by (simp add: confined_def devs_ok_def)
qed

lemma confined_tame:
  assumes "confined s" and "tame s s'" and "run_inv s'"
  shows "confined s'"
proof -
  have "pt_rel (pt_base j) (guest_map j) (pt (vm s' (int j))) (hw s')" if j: "j < 4" for j
    using pt_rel_touch [OF _ _ handler_area_apart [OF j], of "guest_map j" "pt (vm s (int j))" "hw s" "hw s'"]
      assms j by (simp add: confined_def tame_def same_fixed_def)
  with assms tame_devs [OF assms(2)] show ?thesis by (simp add: confined_def tame_def)
qed

lemma guest_step_effect:
  assumes "guest_step s s'" and c: "confined s"
  shows "confined s' \<and> touches (run_area s \<union> handler_area) (hw s) (hw s')"
proof -
  have "tame (s\<lparr>hw := h\<rparr>) s' \<and> run_inv s'" if "trap_entry g h" "runs s g" "\<not> scheduler_idle s"
    "\<not> allocates (s\<lparr>hw := h\<rparr>)" "hyp_trap_handler hyp_stack (s\<lparr>hw := h\<rparr>) = Inr (fl, s')" for g h fl
    using confined_entry [OF c that(2,1)] trap_tame [OF _ _ that(4,5)] hyp_trap_inv [OF _ _ that(5)] that(3)
    by (simp add: confined_def)
  moreover have "tame (s\<lparr>hw := h\<rparr>) s' \<and> run_inv s'" if "trap_entry g h" "runs s g"
    "irq_handler hyp_stack (s\<lparr>hw := h\<rparr>) = Inr (fl, s')" for g h fl
    using confined_entry [OF c that(2,1)] irq_tame [OF _ _ that(3)] irq_handler_inv [OF _ that(3)]
    by (simp add: confined_def)
  ultimately obtain g h where e: "trap_entry g h" and r: "runs s g"
    and t: "tame (s\<lparr>hw := h\<rparr>) s'" "run_inv s'"
    using assms(1) by (elim guest_stepE) (metis runs_def)+
  have sub: "touches (run_area s \<union> handler_area) (hw s) g"
    "touches (run_area s \<union> handler_area) g h" "touches (run_area s \<union> handler_area) h (hw s')"
    using runs_touches [OF c r] e t(1)
    by (auto simp: trap_entry_def tame_def touches_def handler_area_def)
  from touches_trans [OF touches_trans [OF sub(1,2)] sub(3)] confined_tame [OF confined_entry [OF c r e] t]
  show ?thesis by blast
qed

lemma guest_reach_confined: "guest_reach s0 s \<Longrightarrow> confined s0 \<Longrightarrow> confined s"
  by (induction rule: guest_reach.induct) (auto dest: guest_step_effect)

text \<open>The table that translates for a guest: in \<open>VTTBR\<close> while it runs, else in its backup.\<close>

definition active_vttbr :: "meteor \<Rightarrow> int \<Rightarrow> u64" where
  "active_vttbr s i = (if dirty_of s i then cp15_64 (hw s) (2, 6) else vttbr_lpae (bk_cp15 (bk (vm s i))))"

lemma confined_walk:
  assumes "confined s" and k: "k < 4"
  shows "s2_walk (mem (hw s)) (table_of (active_vttbr s (int k))) y =
    map_option ucast (stage2_lookup (guest_map k) y)"
proof -
  have "table_of (active_vttbr s i) = ucast (pt_base (nat i))" if "0 \<le> i" "i < 4" for i
    using assms(1) that by (simp add: confined_def vttbr_ok_def active_vttbr_def)
  from this [of "int k"] k have "table_of (active_vttbr s (int k)) = ucast (pt_base k)" by simp
  moreover have "pt_rel (pt_base k) (guest_map k) (pt (vm s (int k))) (hw s)"
    using assms by (simp add: confined_def)
  ultimately show ?thesis using s2_walk_lookup by simp
qed

lemma ram_apart:
  assumes "j < 4" and "y < 0x08000000"
  shows "ram_base j + y \<notin> handler_area" and "k < 4 \<Longrightarrow> j \<noteq> k \<Longrightarrow> ram_base j + y \<notin> guest_area k"
proof -
  have page: "0x10000 + j * 0x8000 \<le> page_no (ram_base j + y)" "page_no (ram_base j + y) < 0x10000 + (j + 1) * 0x8000"
    using ram_page [OF assms] by blast+
  have "0x10000000 \<le> unat (ram_base j + y)" "unat (ram_base j + y) < 0x30000000"
    using page assms(1) by (simp_all add: page_no_def less_eq_div_iff_mult_less_eq div_less_iff_less_mult)
  then show "ram_base j + y \<notin> handler_area" by (auto simp: handler_area_def area_def)
  assume k: "k < 4" "j \<noteq> k"
  then have "k + 1 \<le> j \<or> j + 1 \<le> k" by linarith
  then have "(k + 1) * 0x8000 \<le> j * 0x8000 \<or> (j + 1) * 0x8000 \<le> k * (0x8000 :: nat)"
    by (meson mult_le_mono1)
  then show "ram_base j + y \<notin> guest_area k"
    using page guest_area_pages [OF k(1)] assms(1) by fastforce
qed

lemma low_memory_apart:
  assumes "p < 0x10000000" and "p \<notin> stack_area"
  shows "p \<notin> handler_area" and "k < 4 \<Longrightarrow> p \<notin> guest_area k"
proof -
  have p: "unat p < 0x10000000" using assms(1) by (simp add: word_less_nat_alt)
  then show "p \<notin> handler_area" using assms(2) by (auto simp: handler_area_def area_def)
  have "page_no p < 0x10000" using p unfolding page_no_def by linarith
  then show "p \<notin> guest_area k" if "k < 4" using guest_area_pages [OF that] by fastforce
qed

text \<open>A trap that returns at once, for instances of what is shown: an access to cp14.\<close>

lemma cp14_trap:
  assumes "guest_kind (vm s (vm_id s)) = Realview_PB" and "get_field (cp15_read HSR (hw s)) 31 26 = 0x5"
  shows "hyp_trap_handler sp s = Inr (Resume, s\<lparr>hw := rf_elr_hyp_write (rf_elr_hyp_read (hw s) + 4) (hw s)\<rparr>)"
proof -
  let ?s = "s\<lparr>hw := rf_elr_hyp_write (rf_elr_hyp_read (hw s) + 4) (hw s)\<rparr>"
  have "cp15_read HSR (hw ?s) = cp15_read HSR (hw s)"
    by (rule cp15_read_cong) (simp add: rf_elr_hyp_write_def hw_simps)
  then show ?thesis using assms by (simp add: hyp_trap_handler_def Let_def)
qed

lemma main_confined:
  assumes "images_fit zImage initrd" and "\<forall>j < 4. pt_region (pt_base j) pt_slots (hw s)"
  obtains s0 where "main zImage initrd s = Inr s0" and "confined s0" and "vm_id s0 = 0"
    and "\<not> scheduler_idle s0"
proof -
  obtain s0 where "main zImage initrd s = Inr s0" "run_inv s0" "devs_ok s0" "vttbr_ok s0" "vm_id s0 = 0"
    "\<not> scheduler_idle s0"
    "\<And>j. j < 4 \<Longrightarrow> pt_rel (pt_base j) (guest_map j) (pt (vm s0 (int j))) (hw s0)"
    by (rule main_boots [OF assms]) blast
  then show ?thesis by (intro that [of s0]) (simp_all add: confined_def)
qed

end
