(* ===== verification/Alloc_Inv.thy ===== *)
theory Alloc_Inv
  imports Boot_Inv Fault_Inv
begin

text \<open>
  The allocator's books in every reachable state: nothing but a data abort for missing memory
  writes them, and that keeps them exact.
\<close>

section \<open>Steps that leave the allocator alone\<close>

definition same_alloc :: "meteor \<Rightarrow> meteor \<Rightarrow> bool" where
  "same_alloc s s' \<longleftrightarrow> sys_mem_allocator s' = sys_mem_allocator s \<and> last_i s' = last_i s"

lemma same_alloc_trans: "same_alloc s t \<Longrightarrow> same_alloc t u \<Longrightarrow> same_alloc s u"
  by (simp add: same_alloc_def)

lemma same_alloc_simps [simp]:
  "same_alloc s s" "same_alloc s (s\<lparr>hw := h\<rparr>)" "same_alloc s (upd_vm i f s)"
  "same_alloc s (vm_trigger i e s)" "same_alloc s (sys_trigger e s)" "same_alloc s (set_wfi i w s)"
  "same_alloc s (scheduler_reset_timer s)" "same_alloc s (scheduler_enter_idle s)"
  "same_alloc s (scheduler_leave_idle s)"
  by (simp_all add: same_alloc_def vm_trigger_def set_wfi_def scheduler_reset_timer_def
      scheduler_enter_idle_def scheduler_leave_idle_def)

lemma switch_alloc:
  "suspend_vm i sp s = Inr s' \<Longrightarrow> same_alloc s s'" "restore_vm i sp s = Inr s' \<Longrightarrow> same_alloc s s'"
  by (auto simp: suspend_vm_def restore_vm_def bindR_eq_Inr same_alloc_def)

lemma scheduler_alloc:
  assumes pre: "sched_pre s" and r: "scheduler sp s = Inr (fl, s')"
  shows "same_alloc s s'"
proof (cases "next_guest s")
  case None
  obtain t where "suspend_vm (vm_id s) sp s = Inr t" "s' = scheduler_enter_idle (scheduler_reset_timer t)"
    using r sched_pre_vm_id [OF pre] by (auto simp: scheduler_rr_cases None bindR_eq_Inr)
  then show ?thesis
    using switch_alloc(1) same_alloc_trans same_alloc_simps(7,8) by metis
next
  case (Some j)
  define s0 where "s0 = (if wfi_of s j = WFI_PendingIRQ then set_wfi j WFI_Out s else s)"
  have 0: "same_alloc s s0" by (simp add: s0_def)
  obtain t u where t: "suspend_vm (vm_id s) sp s0 = Inr t" and u: "restore_vm j sp t = Inr u"
    and s': "s' = scheduler_leave_idle (scheduler_reset_timer (sys_trigger VM_SWITCH u))"
    using r sched_pre_vm_id [OF pre]
    by (auto simp: scheduler_rr_cases Some scheduler_switch_def bindR_eq_Inr simp flip: s0_def)
  from 0 switch_alloc(1) [OF t] switch_alloc(2) [OF u] show ?thesis
    unfolding s' by (simp add: same_alloc_def scheduler_leave_idle_def scheduler_reset_timer_def)
qed

lemma dabort_vdev_alloc:
  assumes "dabort_vdev i sp base offset is_load rt s = Inr s'"
  shows "same_alloc s s'"
  using assms
  by (auto simp: dabort_vdev_def dabort_load_def dabort_store_def bindR_eq_Inr same_alloc_def split: if_splits)

lemma irq_inject_alloc: "irq_inject sp pid t s = Inr s' \<Longrightarrow> same_alloc s s'"
  by (auto simp: irq_inject_def guest_rpb_irq_handler_def guest_rpb_irq_handler_suspend_def Let_def
      bindR_eq_Inr same_alloc_def vm_trigger_def set_wfi_def split: if_splits option.splits)

section \<open>The books\<close>

definition alloc_ok :: "meteor \<Rightarrow> bool" where
  "alloc_ok s \<longleftrightarrow> alloc_wf (sys_mem_allocator s) \<and> alloc_mem_base (sys_mem_allocator s) = 0x10000000
     \<and> last_i s < PAGE_COUNT
     \<and> (\<forall>j < PAGE_COUNT. target_vm (sys_mem_allocator s) j \<in> {-1, 0, 1, 2, 3})"

lemma alloc_ok_same: "same_alloc s s' \<Longrightarrow> alloc_ok s' = alloc_ok s"
  by (simp add: same_alloc_def alloc_ok_def)

lemma dabort_new_page_alloc:
  assumes ok: "alloc_ok s" and id: "guest_id (vm s i) \<in> {0, 1, 2, 3}"
    and r: "dabort_new_page i ipa high_ipa s = Inr s'"
  shows "alloc_ok s'"
proof -
  let ?me = "sys_mem_allocator s"
  define g0 where "g0 = vm (vm_trigger i ALLOCATE_PAGE s) i"
  have id0: "guest_id g0 = guest_id (vm s i)" by (simp add: g0_def vm_trigger_def)
  from r obtain pa me li g h where n: "memory_allocator_new_page ?me (last_i s) g0 ipa high_ipa (hw s)
      = Inr (pa, me, li, g, h)" and s': "sys_mem_allocator s' = me" "last_i s' = li"
    by (auto simp: dabort_new_page_def Let_def bindR_eq_Inr vm_trigger_def g0_def)
  have l: "last_i s < PAGE_COUNT" using ok by (simp add: alloc_ok_def)
  obtain free: "slot_free ?me li"
    and t: "memory_allocator_take ?me g0 ipa high_ipa li (hw s) = (pa, me, g, h)"
    by (rule new_page_cases [OF l, where me = ?me and vm = g0 and ipa = ipa and high_ipa = high_ipa
        and h = "hw s"]) (use n in auto)
  have "alloc_wf me" using take_wf [OF _ free _ t] ok id id0 by (auto simp: alloc_ok_def)
  then show ?thesis
    using ok id id0 free take_simps(2,3) [OF t] by (auto simp: alloc_ok_def s' slot_free_def)
qed

lemma dabort_alloc:
  assumes ok: "alloc_ok s" and id: "guest_id (vm s i) \<in> {0, 1, 2, 3}"
    and r: "guest_rpb_hyp_trap_dabort_handler i sp iss s = Inr s'"
  shows "alloc_ok s'"
proof (cases "memory_fault s")
  case True
  obtain low high where "fault_pages (fault_page s) = (low, high)" by fastforce
  with dabort_memory_eq [OF True] r have "dabort_new_page i low high s = Inr s'" by simp
  then show ?thesis by (rule dabort_new_page_alloc [OF ok id])
next
  case False
  let ?t = "vm_trigger i TRAP_DABORT_VDEV s"
  obtain offset where "guest_rpb_hyp_trap_dabort_handler i sp iss s =
    bindR (dabort_decode (cp15_read HADFSR (hw s)))
      (\<lambda>(is_load, rt). dabort_vdev i sp (fault_page s) offset is_load rt ?t)"
    by (rule dabort_device_eq [OF False])
  with r obtain l rt where "dabort_vdev i sp (fault_page s) offset l rt ?t = Inr s'"
    by (auto simp: bindR_eq_Inr)
  from same_alloc_trans [OF same_alloc_simps(4) dabort_vdev_alloc [OF this]] ok
  show ?thesis by (simp add: alloc_ok_same)
qed

section \<open>Every handler keeps them\<close>

lemma hyp_trap_alloc:
  assumes inv: "run_inv s" and ok: "alloc_ok s" and h: "hyp_trap_handler sp s = Inr (fl, s')"
  shows "alloc_ok s'"
proof -
  define s1 where "s1 = s\<lparr>hw := rf_elr_hyp_write (rf_elr_hyp_read (hw s) + 4) (hw s)\<rparr>"
  define ec where "ec = get_field (cp15_read HSR (hw s1)) 31 26"
  define iss where "iss = get_field (cp15_read HSR (hw s1)) 24 0"
  have 1: "same_alloc s s1" by (simp add: s1_def)
  have ok1: "alloc_ok s1" using alloc_ok_same [OF 1] ok by simp
  have "vm_id s \<in> {0, 1, 2, 3}" "guest_id (vm s (vm_id s)) = vm_id s"
    using run_inv_pre [OF inv] sched_pre_vm_id [OF run_inv_pre [OF inv]]
    by (auto simp: sched_pre_def guests_ok_def)
  then have id: "guest_id (vm s1 (vm_id s1)) \<in> {0, 1, 2, 3}" by (simp add: s1_def)
  note h' = h [unfolded hyp_trap_handler_def Let_def, folded s1_def, folded ec_def iss_def]
  consider (wfi) "scheduler sp (set_wfi (vm_id s1) WFI_In (vm_trigger (vm_id s1) TRAP_WFI s1)) = Inr (fl, s')"
    | (cp15) "s' = vm_trigger (vm_id s1) TRAP_CP15 (sys_trigger TRAP_WFI s1)"
    | (cp14) "s' = s1"
    | (hvc) "s' = hypervisor_call (vm_id s1) (iss AND mask32 15 0) s1"
    | (dabort) "guest_rpb_hyp_trap_dabort_handler (vm_id s1) sp iss s1 = Inr s'"
    using h' by (auto simp: resume_def bindR_eq_Inr guest_rpb_cp15_trap_def Let_def split: if_splits)
  then show ?thesis
  proof cases
    case wfi
    let ?t = "set_wfi (vm_id s1) WFI_In (vm_trigger (vm_id s1) TRAP_WFI s1)"
    have "sched_pre ?t"
      using run_inv_pre [OF inv]
      by (auto simp: s1_def sched_pre_def guests_ok_def set_wfi_def vm_trigger_def)
    from scheduler_alloc [OF this wfi] have "same_alloc s1 s'"
      using same_alloc_trans same_alloc_simps(4,6) by metis
    with ok1 show ?thesis by (simp add: alloc_ok_same)
  next
    case cp15
    then have "same_alloc s1 s'" by (simp add: same_alloc_def vm_trigger_def)
    with ok1 show ?thesis by (simp add: alloc_ok_same)
  next
    case cp14
    with ok1 show ?thesis by simp
  next
    case hvc
    then have "same_alloc s1 s'" by (simp add: same_alloc_def hypervisor_call_def Let_def)
    with ok1 show ?thesis by (simp add: alloc_ok_same)
  next
    case dabort
    from dabort_alloc [OF ok1 id this] show ?thesis .
  qed
qed

lemma irq_alloc:
  assumes inv: "run_inv s" and ok: "alloc_ok s" and h: "irq_handler sp s = Inr (fl, s')"
  shows "alloc_ok s'"
proof -
  obtain ack h1 where ack: "dev_gic2_cpu_if_read_ack (sys_gic_cpu_if s) (hw s) = (ack, h1)"
    by fastforce
  have inv1: "run_inv (s\<lparr>hw := g\<rparr>)" and ok1: "alloc_ok (s\<lparr>hw := g\<rparr>)" for g
    using same_control_inv [OF same_control_hw [of s g]] inv alloc_ok_same [OF same_alloc_simps(2) [of s g]] ok
    by simp_all
  note h' = h [unfolded irq_handler_def Let_def ack prod.case]
  show ?thesis
  proof (cases "sint ack = 34")
    case True
    then obtain g where "scheduler sp (s\<lparr>hw := g\<rparr>) = Inr (fl, s')" using h' by simp
    from scheduler_alloc [OF run_inv_pre [OF inv1] this] ok1 show ?thesis by (simp add: alloc_ok_same)
  next
    case False
    show ?thesis
    proof (cases "irq_target (sint ack)")
      case None
      with False h' have "s' = s\<lparr>hw := h1\<rparr>" by (auto split: if_splits)
      with ok1 show ?thesis by simp
    next
      case (Some t)
      note t = irq_target_range [OF Some]
      have kind: "guest_kind (vm (s\<lparr>hw := h1\<rparr>) t) = Realview_PB"
        using inv t by (simp add: run_inv_def sched_pre_def guests_ok_def)
      from False Some h' have "irq_deliver sp (sint ack) t (s\<lparr>hw := h1\<rparr>) = Inr (fl, s')" by simp
      then obtain u where u: "irq_inject sp (sint ack) t (sys_trigger TRAP_IRQ (s\<lparr>hw := h1\<rparr>)) = Inr u"
        and fl: "(if scheduler_is_idle u then scheduler sp u else Inr (Resume, u)) = Inr (fl, s')"
        unfolding irq_deliver_eq [OF kind] by (auto simp: bindR_eq_Inr)
      have pre: "sched_pre u"
        using irq_inject_pre [OF u] run_inv_pre [OF inv1 [of h1]]
          same_control_pre [OF same_control_trigger(2) [of "s\<lparr>hw := h1\<rparr>" TRAP_IRQ]] by simp
      have oku: "alloc_ok u"
        using alloc_ok_same [OF same_alloc_trans [OF same_alloc_simps(5) irq_inject_alloc [OF u]]] ok1 by simp
      show ?thesis
      proof (cases "scheduler_is_idle u")
        case True
        with fl scheduler_alloc [OF pre, of sp fl s'] oku show ?thesis by (simp add: alloc_ok_same)
      next
        case False
        with fl oku show ?thesis by simp
      qed
    qed
  qed
qed

lemma reachable_alloc:
  assumes "reachable s0 s" and "run_inv s0" and "alloc_ok s0"
  shows "alloc_ok s"
  using assms
proof (induction rule: reachable.induct)
  case (step s s')
  have r: "run_inv s" using reachable_run_inv step.hyps(1) step.prems(1) by blast
  have hw: "run_inv (s\<lparr>hw := h\<rparr>)" "alloc_ok (s\<lparr>hw := h\<rparr>)" for h
    using same_control_inv [OF same_control_hw [of s h]] r step by (simp_all add: alloc_ok_def)
  from step.hyps(2) show ?case by cases (auto intro: hyp_trap_alloc [OF hw] irq_alloc [OF hw])
qed simp

section \<open>Boot\<close>

lemma main_alloc:
  assumes "main zImage initrd s = Inr s'"
  shows "sys_mem_allocator s' = memory_allocator_init (sys_mem_allocator s) 0x10000000 \<and> last_i s' = last_i s"
proof -
  have g: "same_alloc u u'" if "main_guest z d i a b c d1 e f v u = Inr u'" for z d i a b c d1 e f v u u'
    using that by (auto simp: main_guest_def Let_def bindR_eq_Inr same_alloc_def)
  have t: "sys_mem_allocator (meteor_init_timer u) = sys_mem_allocator u" "last_i (meteor_init_timer u) = last_i u" for u
    by (simp_all add: meteor_init_timer_def case_prod_beta Let_def)
  from assms obtain s1 where 1: "meteor_devices_init s = Inr s1" by (auto simp: main_def bindR_eq_Inr)
  have "same_alloc s1 s'"
    using assms unfolding main_def 1 bindR.simps Let_def bindR_eq_Inr
    by (auto simp: same_alloc_def scheduler_reset_timer_def scheduler_leave_idle_def
        dest!: g switch_alloc(2))
  moreover have "sys_mem_allocator s1 = memory_allocator_init (sys_mem_allocator s) 0x10000000 \<and> last_i s1 = last_i s"
    using 1 t by (auto simp: meteor_devices_init_def Let_def bindR_eq_Inr case_prod_beta)
  ultimately show ?thesis by (simp add: same_alloc_def)
qed

lemma main_alloc_ok:
  assumes "main zImage initrd s = Inr s'" and "last_i s < PAGE_COUNT"
  shows "alloc_ok s'"
  using main_alloc [OF assms(1)] assms(2) init_wf
  by (simp add: alloc_ok_def)

end
