(* ===== verification/Spec2Isabelle.thy ===== *)
theory Spec2Isabelle
  imports Props_Memory Props_Guest Props_Devices Confinement Alloc_Inv
begin

text \<open>
  A model of the CASL hypervisor (src/), which runs four RealView PB guests on a Cortex-A15
  under round robin, and the theorems that make it correct. A list of the parts, in the order
  in which they rest on one another, with the theory that models each:

  \<^item> bit fields of words, vmm/bit_opt_v2l.c: \<open>Bit_Opt\<close>;
  \<^item> volatile accesses and banked core registers, devices/io.c and devices/rf.c: \<open>Io\<close>. The
    record \<open>machine\<close> is memory as bytes, the core registers, the system registers and the trace
    of accesses made;
  \<^item> system registers by name, vmm/cp15.c and vmm/include/cp15.h: \<open>Cp15\<close>;
  \<^item> device drivers, devices/: \<open>Dev_Gic\<close>, \<open>Dev_Timer\<close>, \<open>Dev_Console\<close> (with
    vmm/newlib_stub.c);
  \<^item> messages for the console and for log files, sys/debug_utils.c: \<open>Debug_Utils\<close>;
  \<^item> event counters, vmm/monitor.c: \<open>Monitor\<close>;
  \<^item> virtual devices, v_devices/: \<open>Vdev\<close>;
  \<^item> stage 2 page tables, vmm/pagetable.c: \<open>Pagetable\<close>, and the allocator of pages,
    vmm/memory_allocator.c: \<open>Memory_Allocator\<close>;
  \<^item> the saved context of a guest, guests/guest.c: \<open>Guest\<close>, and what is particular to a
    RealView PB guest, guests/guest_rpb.c: \<open>Guest_Rpb\<close>;
  \<^item> the global variables, vmm/meteor_global_state.c: \<open>Global_State\<close>; the scheduler,
    vmm/scheduler.c: \<open>Scheduler\<close>; the handlers of traps and interrupts,
    vmm/exception_handler.c and vmm/hypervisor_call.c: \<open>Exception_Handler\<close>; boot,
    vmm/meteor.c and vmm/main.c: \<open>Boot\<close>;
  \<^item> the program that issues hypervisor calls in a guest, hvc_helper/: \<open>Hvc_Helper\<close>.

  How they interact: \<open>main\<close> initialises the devices and the system registers, builds the
  guests and enters guest 0. A guest runs until it traps (\<open>hyp_trap_handler\<close>) or an interrupt
  arrives (\<open>irq_handler\<close>); a trap for WFI and the timer's interrupt call the \<open>scheduler\<close>,
  which saves one guest and restores another, or goes idle. A data abort allocates a page or
  is passed to a virtual device. A device interrupt is put into a list register of the guest
  it belongs to, the live ones or those of its backup.

  Conventions. A C struct is a record, an enum a datatype, \<open>uint32_t\<close> a 32 bit word and
  \<open>int\<close> an integer where the code only indexes, compares and adds. A function that changes
  state takes it and returns it. A function that may not return to its caller has the type
  \<open>'a res\<close>: \<open>Inl (Exit unit message)\<close> is \<open>printb\<close>, which ends in \<open>exit\<close>;
  \<open>Inl (OutOfBounds ..)\<close> is an access outside an array, where C is undefined. The idle thread is
  the value \<open>Idle_Thread\<close> of the handlers, which otherwise \<open>Resume\<close> the guest. Where
  a message has no other effect than being printed it is left out; what printing does is in
  \<open>Debug_Utils\<close>, and the report of \<open>monitor_print\<close> a list of lines in \<open>Monitor\<close>.

  The machine. Its memory holds what the code reaches by address: the guests' memory, the tables,
  the registers pushed on the hypervisor's stack and the registers of the devices. The variables
  of the C code are fields of \<open>meteor\<close> instead, and its stack frames and heap are nowhere, so that
  what is said of memory below 0x10000000 is said of the tables and the pushed registers. The
  banked registers are those the code saves; R8 to R12 of the FIQ mode, which it does not touch,
  are missing. A system register is storage, reserved bits included, except that a write
  leaves the read-only registers and those of the secure state as they are (\<open>cp15_read_only\<close>).

  Loops. A counted loop is a fold or a recursion on its counter, so it has no bound of its own;
  the loop that reads a file is recursive on the bytes left, with a termination proof. The loop
  that maps the blocks of a guest ends or not depending on the size of its memory: it is a
  \<open>while_option\<close>, and \<open>Inl (NoReturn ..)\<close> is the case that it does not end; a property says
  when it does. Polling a device is a partial function into \<open>option\<close>, and a property says when it
  returns. No definition uses fuel.

  What is shown. \<open>Cell_Bank\<close> and \<open>List_Registers\<close> hold the interface of a bank of registers that
  is saved and restored cell by cell, and of the 64 list registers, as locales; they are
  interpreted on the stack of pushed registers, on the slots of the page tables and on
  the live and the saved list registers. \<open>Guest_Context\<close>: saving a guest and restoring it is the identity
  on what the guest sees. \<open>Stage2_Map\<close> is the abstract map of a stage 2 table and
  \<open>Stage2_Refine\<close> the proof that the table walk of the hardware (\<open>s2_walk\<close>) sees exactly that map
  after each operation; \<open>Static_Map\<close> computes the map of a guest, \<open>Frame\<close> says which addresses an
  operation writes, \<open>Boot_Inv\<close> follows \<open>main\<close> to the end, and \<open>Isolation\<close> compares the
  guests' maps. \<open>Scheduler_Inv\<close> is the contract of the scheduler, and \<open>Handler_Inv\<close> the step
  relation of the hypervisor with the invariant \<open>run_inv\<close>; \<open>Delivery\<close> follows an interrupt into the
  list registers of its guest, and \<open>Fault_Inv\<close> a data abort.
  \<open>Confinement\<close> adds the guests: \<open>guest_step\<close> is one run of a guest, which stores through the
  table in \<open>VTTBR\<close> as the memory holds it at that moment, with the trap or interrupt that ends
  it and the handler that serves it; its states (\<open>guest_reach\<close>) keep the tables and with them
  the isolation of the guests. It leaves out the aborts that allocate a page on demand
  (\<open>allocates\<close>), because such a page lies in the memory of one of the guests. \<open>Alloc_Inv\<close>
  follows the allocator through every handler, those aborts included.
  \<open>Samples\<close> holds the concrete states on which the properties are instantiated. The properties
  of single components are in \<open>Props_Memory\<close>, \<open>Props_Guest\<close> and \<open>Props_Devices\<close>, those of
  the whole system below.

  Parameters of the model, for what is not code of the repository: the words that devices
  answer with and the result of over-wide shifts (fields of \<open>machine\<close>), the contents of the
  image files, which are taken to exist, the addresses of the C library's standard streams, what
  \<open>fopen\<close> returns for a log file and the texts that \<open>vsnprintf\<close> makes.

  Not modelled: boot/boot.s and boot/vector.s, in assembly, which enter \<open>main\<close> and the
  handlers; the 300 \<open>nop\<close>s of \<open>scheduler_wait_gic_vcpu_if\<close>, which nothing calls; caches, the TLB and the order of memory accesses.
\<close>

section \<open>From boot on\<close>

text \<open>
  C1. Boot succeeds, for images that fit into a guest's memory and whatever the memory of the
  tables held before, and leaves guest 0 running. From then on, whatever the guests and the devices
  do between traps, a guest runs that does not wait for an interrupt and is the only one whose
  saved registers are out of date, or the hypervisor is idle and every guest is saved and waits
  for an interrupt.
\<close>

theorem main_establishes_run_inv:
  assumes "images_fit zImage initrd" and "\<forall>j < 4. pt_region (pt_base j) pt_slots (hw s)"
  shows "\<exists>s0. main zImage initrd s = Inr s0 \<and> vm_id s0 = 0 \<and> \<not> scheduler_idle s0
    \<and> (\<forall>t. reachable s0 t \<longrightarrow> run_inv t)"
proof -
  obtain s0 where "main zImage initrd s = Inr s0" "run_inv s0" "vm_id s0 = 0" "\<not> scheduler_idle s0"
    by (rule main_boots [OF assms]) blast
  then show ?thesis using reachable_run_inv by blast
qed

theorem main_establishes_run_inv_witness:
  "\<exists>s0. main [] [] sample_meteor = Inr s0 \<and> vm_id s0 = 0 \<and> run_inv s0"
  using main_establishes_run_inv [OF sample_images sample_tables] reachable.start by blast

section \<open>The scheduler\<close>

text \<open>
  C2. The timer interrupt never halts the hypervisor: in a state of the invariant the interrupt
  34 is acknowledged and the scheduler returns to a guest or enters the idle thread; the check
  that stops the hypervisor when the restored guest was not saved is never hit.
\<close>

theorem timer_interrupt_returns:
  assumes "run_inv s" and "sint (fst (dev_gic2_cpu_if_read_ack (sys_gic_cpu_if s) (hw s))) = 34"
  shows "\<exists>fl s'. irq_handler sp s = Inr (fl, s') \<and> run_inv s'
    \<and> (fl = Idle_Thread \<longleftrightarrow> scheduler_idle s')"
proof -
  obtain ack h1 where ack: "dev_gic2_cpu_if_read_ack (sys_gic_cpu_if s) (hw s) = (ack, h1)"
    by fastforce
  have "sched_pre (s\<lparr>hw := h\<rparr>)" for h
    using run_inv_pre [OF assms(1)] same_control_pre [OF same_control_hw [of s h]] by simp
  from scheduler_total [OF this] assms(2) show ?thesis
    by (simp add: irq_handler_def Let_def ack)
qed

definition sample_tick :: meteor where
  "sample_tick = (sample_running (\<lambda>_. WFI_Out))\<lparr>hw := io_writew 0xC 34 sample_machine\<rparr>"

lemma sample_tick_inv: "run_inv sample_tick"
  using sample_running_inv [of "\<lambda>_. WFI_Out"]
    same_control_inv [OF same_control_hw [of "sample_running (\<lambda>_. WFI_Out)"]]
  by (simp add: sample_tick_def)

theorem timer_interrupt_returns_witness: "\<exists>fl s'. irq_handler 0x06000000 sample_tick = Inr (fl, s') \<and> run_inv s'"
proof -
  have "ram (io_writew 0xC 34 sample_machine) a" for a
    by (simp add: ram_def io_writew_def sample_machine_def)
  then have "sint (fst (dev_gic2_cpu_if_read_ack (sys_gic_cpu_if sample_tick) (hw sample_tick))) = 34"
    by (simp add: sample_tick_def sample_running_def sample_meteor_def dev_gic2_cpu_if_read_ack_def
        io_readw_ram hw_simps load32_store32_same)
  from timer_interrupt_returns [OF sample_tick_inv this] show ?thesis by blast
qed

text \<open>
  C3. The scheduler switches to the nearest guest, in cyclic order after the current one, that
  does not wait for an interrupt; that guest then runs and is the only one not saved.
\<close>

theorem scheduler_takes_nearest:
  assumes "run_inv s" and "0 \<le> j" and "j < 4" and "can_run s j"
  shows "\<exists>s'. scheduler sp s = Inr (Resume, s') \<and> 0 \<le> vm_id s' \<and> vm_id s' < 4
    \<and> can_run s (vm_id s') \<and> turns s (vm_id s') \<le> turns s j \<and> wfi_of s' (vm_id s') = WFI_Out
    \<and> (\<forall>i. 0 \<le> i \<and> i < 4 \<longrightarrow> dirty_of s' i = (i = vm_id s'))"
proof -
  note pre = run_inv_pre [OF assms(1)]
  obtain n where n: "next_guest s = Some n" "turns s n \<le> turns s j"
    using next_guest_nearest [OF _ _ assms(2-4)] sched_pre_vm_id [OF pre] by blast
  obtain s' where "scheduler sp s = Inr (Resume, s')" "run_inv s'" "\<not> scheduler_idle s'" "vm_id s' = n"
    using scheduler_some [OF pre n(1), of sp] by metis
  then show ?thesis
    using n next_guest_range [OF n(1)] by (auto simp: run_inv_def sched_pre_def)
qed

theorem scheduler_takes_nearest_witness:
  "\<exists>s'. scheduler 0x06000000 (sample_running (\<lambda>i. if i = 1 then WFI_In else WFI_Out)) = Inr (Resume, s')
     \<and> vm_id s' = 2"
proof -
  let ?s = "sample_running (\<lambda>i. if i = 1 then WFI_In else WFI_Out)"
  have r: "can_run ?s i \<longleftrightarrow> i \<noteq> 1" for i by (simp add: can_run_def)
  have "run_inv ?s" "(0 :: int) \<le> 2" "(2 :: int) < 4" "can_run ?s 2"
    by (simp_all add: r sample_running_inv)
  from scheduler_takes_nearest [OF this, of "0x06000000"] obtain s' where
    s': "scheduler 0x06000000 ?s = Inr (Resume, s')" "0 \<le> vm_id s'" "vm_id s' < 4"
      "vm_id s' \<noteq> 1" "turns ?s (vm_id s') \<le> turns ?s 2" unfolding r by blast
  then have "vm_id s' = 0 \<or> vm_id s' = 2 \<or> vm_id s' = 3" by linarith
  with s'(5) have "vm_id s' = 2" by (elim disjE) (simp_all add: turns_def vm_count_def)
  with s'(1) show ?thesis by blast
qed

text \<open>
  C4. Round robin is fair: a guest that can run is running after at most four timer
  interrupts in a row, wherever the scheduler starts.
\<close>

theorem scheduler_fair:
  assumes "run_inv s" and "0 \<le> j" and "j < 4" and "can_run s j" and "4 \<le> length sps"
  shows "\<exists>ss. ticks sps s = Inr ss \<and> (\<exists>t \<in> set ss. vm_id t = j)"
proof (rule ticks_reach [OF run_inv_pre [OF assms(1)] assms(2-4)])
  have "turns s j < 4" by (simp add: turns_def vm_count_def)
  with assms(5) show "turns s j < int (length sps)" by linarith
qed

theorem scheduler_fair_witness:
  "\<exists>ss. ticks [0, 0, 0, 0] (sample_running (\<lambda>_. WFI_Out)) = Inr ss \<and> (\<exists>t \<in> set ss. vm_id t = 3)"
proof -
  have "run_inv (sample_running (\<lambda>_. WFI_Out))" "can_run (sample_running (\<lambda>_. WFI_Out)) 3"
    by (simp_all add: sample_running_inv can_run_def)
  from scheduler_fair [OF this(1) _ _ this(2), of "[0, 0, 0, 0]"] show ?thesis by simp
qed

text \<open>
  C5. The scheduler enters the idle thread exactly when every guest waits for an interrupt,
  and then every guest is saved.
\<close>

theorem scheduler_idles_iff:
  assumes "run_inv s"
  shows "(\<exists>s'. scheduler sp s = Inr (Idle_Thread, s') \<and> (\<forall>i. 0 \<le> i \<and> i < 4 \<longrightarrow> \<not> dirty_of s' i))
    \<longleftrightarrow> (\<forall>i. 0 \<le> i \<and> i < 4 \<longrightarrow> wfi_of s i = WFI_In)"
proof -
  note pre = run_inv_pre [OF assms]
  have all: "next_guest s = None \<longleftrightarrow> (\<forall>i. 0 \<le> i \<and> i < 4 \<longrightarrow> wfi_of s i = WFI_In)"
    using next_guest_None [of s] sched_pre_vm_id [OF pre] pre
    by (auto simp: can_run_def sched_pre_def guests_ok_def)
  show ?thesis
  proof (cases "next_guest s")
    case None
    obtain s' where "scheduler sp s = Inr (Idle_Thread, s')" "run_inv s'" "scheduler_idle s'"
      using scheduler_none [OF pre None, of sp] by metis
    moreover have "\<not> dirty_of s' i" if "0 \<le> i" "i < 4" for i
      using \<open>run_inv s'\<close> \<open>scheduler_idle s'\<close> that
      by (cases "i = vm_id s'") (auto simp: run_inv_def sched_pre_def)
    ultimately show ?thesis using None all by blast
  next
    case (Some j)
    obtain s' where "scheduler sp s = Inr (Resume, s')"
      using scheduler_some [OF pre Some, of sp] by metis
    then show ?thesis using Some all by auto
  qed
qed

theorem scheduler_idles_iff_witness:
  "\<exists>s'. scheduler 0 sample_idle = Inr (Idle_Thread, s') \<and> (\<forall>i. 0 \<le> i \<and> i < 4 \<longrightarrow> \<not> dirty_of s' i)"
  using scheduler_idles_iff [OF sample_idle_inv] by simp

section \<open>Waiting for an interrupt\<close>

text \<open>
  C6. A guest that executes WFI (class 1 of \<open>HSR\<close>, with bit 0 clear) is taken off the processor:
  it is saved and waits for an interrupt, and another guest runs or the hypervisor is idle.
\<close>

theorem hyp_trap_wfi_waits:
  assumes "run_inv s" and "\<not> scheduler_idle s"
    and "get_field (cp15_read HSR (hw s)) 31 26 = 0x01"
    and "get_bit (get_field (cp15_read HSR (hw s)) 24 0) 0 = 0"
  shows "\<exists>fl s'. hyp_trap_handler sp s = Inr (fl, s') \<and> wfi_of s' (vm_id s) = WFI_In
    \<and> \<not> dirty_of s' (vm_id s) \<and> (scheduler_idle s' \<or> vm_id s' \<noteq> vm_id s)"
proof -
  define s1 where "s1 = s\<lparr>hw := rf_elr_hyp_write (rf_elr_hyp_read (hw s) + 4) (hw s)\<rparr>"
  define t where "t = set_wfi (vm_id s) WFI_In (vm_trigger (vm_id s) TRAP_WFI s1)"
  have hsr: "cp15_read HSR (hw s1) = cp15_read HSR (hw s)"
    by (rule cp15_read_cong) (simp add: s1_def rf_elr_hyp_write_def hw_simps)
  note v = sched_pre_vm_id [OF run_inv_pre [OF assms(1)]]
  have "guest_kind (vm s (vm_id s)) = Realview_PB"
    using assms(1) v by (simp add: run_inv_def sched_pre_def guests_ok_def)
  then have h: "hyp_trap_handler sp s = scheduler sp t"
    unfolding hyp_trap_handler_def Let_def s1_def [symmetric] hsr
    using assms(3,4) by (simp add: t_def s1_def)
  have pre: "sched_pre t"
    using run_inv_pre [OF assms(1)]
    by (auto simp: t_def s1_def sched_pre_def guests_ok_def set_wfi_def vm_trigger_def)
  have t: "wfi_of t (vm_id s) = WFI_In" by (simp add: t_def set_wfi_def)
  show ?thesis
  proof (cases "next_guest t")
    case None
    obtain s' where "scheduler sp t = Inr (Idle_Thread, s')" "run_inv s'" "scheduler_idle s'"
      "vm_id s' = vm_id t"
      using scheduler_none [OF pre None, of sp] by metis
    moreover have "vm_id t = vm_id s" by (simp add: t_def s1_def set_wfi_def vm_trigger_def)
    ultimately show ?thesis using v by (auto simp: h run_inv_def)
  next
    case (Some j)
    have j: "j \<noteq> vm_id s" using next_guest_range [OF Some] t by (auto simp: can_run_def)
    obtain s' where s': "scheduler sp t = Inr (Resume, s')" "run_inv s'" "vm_id s' = j"
      "\<And>i. i \<noteq> j \<Longrightarrow> wfi_of s' i = wfi_of t i"
      using scheduler_some [OF pre Some, of sp] by metis
    with j t v show ?thesis by (auto simp: h run_inv_def sched_pre_def)
  qed
qed

text \<open>Guest 0 of a running hypervisor executes WFI.\<close>

definition sample_wfi :: meteor where
  "sample_wfi = (sample_running (\<lambda>_. WFI_Out))\<lparr>hw := sample_machine\<lparr>cp15 := (\<lambda>_. 0x04000000)\<rparr>\<rparr>"

theorem hyp_trap_wfi_waits_witness:
  "\<exists>fl s'. hyp_trap_handler 0x06000000 sample_wfi = Inr (fl, s') \<and> wfi_of s' 0 = WFI_In"
proof -
  have hsr: "cp15_read HSR (hw sample_wfi) = 0x04000000"
    using cp15_read_whole [of HSR "(5, 4, 2, 0)" "hw sample_wfi"]
    by (simp add: cp15_parse_def cp15_cases_def cp15_eval cp15_full_name_alt sample_wfi_def)
  have inv: "run_inv sample_wfi"
    using sample_running_inv [of "\<lambda>_. WFI_Out"]
      same_control_inv [OF same_control_hw [of "sample_running (\<lambda>_. WFI_Out)"]]
    by (simp add: sample_wfi_def)
  have s: "\<not> scheduler_idle sample_wfi" "vm_id sample_wfi = 0" by (simp_all add: sample_wfi_def)
  have f: "get_field (0x04000000 :: u32) 31 26 = 0x01" "get_bit (get_field (0x04000000 :: u32) 24 0) 0 = 0"
    by (simp_all add: get_field_def get_bit_def mask32_def)
  from hyp_trap_wfi_waits [OF inv s(1), unfolded hsr, OF f, of "0x06000000"]
  show ?thesis unfolding s(2) by blast
qed

text \<open>
  C7. Delivering an interrupt to a guest ends its waiting. When the hypervisor was idle the guest
  runs at once; otherwise the guest that was interrupted goes on running and the guest waits for
  its turn. With the interrupt controller and the timer where boot puts them, the interrupt is then
  pending, with its physical and its virtual number, in what was the first free list register of
  the guest, in the controller if the guest runs now and in its backup if not; the guest's other
  list registers are as before.
\<close>

theorem irq_deliver_wakes:
  assumes "run_inv s" and "0 \<le> t" and "t < 4" and "irq_deliver sp pid t s = Inr (fl, s')"
  shows "fl = Resume \<and> \<not> scheduler_idle s' \<and> run_inv s' \<and> wfi_of s' t \<noteq> WFI_In
    \<and> vm_id s' = (if scheduler_idle s then t else vm_id s)
    \<and> (vctrl_base_addr (sys_gic_vctrl s) = 0x50002000 \<and> load (sys_timer s) 0 = 0x50005000
        \<and> ctx_ok (sys_gic_vctrl s) (sys_gic_vcpu_if s) sp (hw s) \<and> pid \<noteq> 1023 \<longrightarrow>
      (\<exists>n < 64. \<exists>vid. 0 \<le> vid \<and> vid < 64 \<and> virq_pid (virq (vdev_gic_dist (vm s t)) (nat vid)) = pid
        \<and> list_reg_invalid (guest_list s t n) \<and> (\<forall>j < n. \<not> list_reg_invalid (guest_list s t j))
        \<and> get_field (guest_list s' t n) 29 28 = list_reg_state_val LR_Pending
        \<and> get_field (guest_list s' t n) 19 10 = take_bit 10 (word_of_int pid)
        \<and> get_field (guest_list s' t n) 9 0 = take_bit 10 (word_of_int vid)
        \<and> (\<forall>j < 64. j \<noteq> n \<longrightarrow> guest_list s' t j = guest_list s t j)))"
proof -
  have control: "fl = Resume \<and> \<not> scheduler_idle s' \<and> run_inv s' \<and> wfi_of s' t \<noteq> WFI_In
    \<and> vm_id s' = (if scheduler_idle s then t else vm_id s)"
  proof (cases "scheduler_idle s")
    case True
    from irq_deliver_idle [OF assms(1) True assms(2-4)] True show ?thesis by (auto simp: run_inv_def)
  next
    case False
    from irq_deliver_running [OF assms(1) False assms(2-4)] False show ?thesis by simp
  qed
  have lists: "\<exists>n < 64. \<exists>vid. 0 \<le> vid \<and> vid < 64 \<and> virq_pid (virq (vdev_gic_dist (vm s t)) (nat vid)) = pid
      \<and> list_reg_invalid (guest_list s t n) \<and> (\<forall>j < n. \<not> list_reg_invalid (guest_list s t j))
      \<and> get_field (guest_list s' t n) 29 28 = list_reg_state_val LR_Pending
      \<and> get_field (guest_list s' t n) 19 10 = take_bit 10 (word_of_int pid)
      \<and> get_field (guest_list s' t n) 9 0 = take_bit 10 (word_of_int vid)
      \<and> (\<forall>j < 64. j \<noteq> n \<longrightarrow> guest_list s' t j = guest_list s t j)"
    if gic: "vctrl_base_addr (sys_gic_vctrl s) = 0x50002000" "load (sys_timer s) 0 = 0x50005000"
      and ctx: "ctx_ok (sys_gic_vctrl s) (sys_gic_vcpu_if s) sp (hw s)" and pid: "pid \<noteq> 1023"
  proof -
    obtain vid where vid: "vdev_gic2_dist_irq_to_virq (vdev_gic_dist (vm s t)) pid = vid" "vid \<noteq> -1"
      and takes: "takes_irq pid vid (guest_list s t) (guest_list s' t)"
      by (rule irq_deliver_takes [OF assms gic ctx pid])
    then obtain n where n: "n < 64" "first_invalid (guest_list s t) [0..<64] = Some n"
      "\<And>j. j < 64 \<Longrightarrow> guest_list s' t j = (if n = j then list_reg_inject (guest_list s t n) pid vid
        else guest_list s t j)"
      by (auto simp: takes_irq_def)
    show ?thesis
      using irq_to_virq_found [OF vid] first_invalid_Some [OF n(2)] first_invalid_least [OF n(2)]
      by (intro exI [of _ n] exI [of _ vid] conjI)
        (simp_all add: n(1,3) list_reg_inject_state list_reg_inject_pid list_reg_inject_vid)
  qed
  from control lists show ?thesis by blast
qed

lemma sample_irq_deliver: "\<exists>fl s'. irq_deliver sp 0 1 sample_gic = Inr (fl, s')"
proof -
  let ?s = "sys_trigger TRAP_IRQ sample_gic"
  have inv: "run_inv sample_gic" and idle: "scheduler_idle sample_gic"
    using sample_idle_inv
    by (simp_all add: sample_gic_def run_inv_def sched_pre_def guests_ok_def)
  obtain u where "guest_rpb_irq_handler_suspend 1 sp 0 ?s = Inr u"
    using sample_suspended_irq [of ?s] by auto
  then obtain w where w: "irq_inject sp 0 1 ?s = Inr w" by (simp add: irq_inject_def)
  have "sched_pre w"
    using irq_inject_pre [OF w] same_control_pre [OF same_control_trigger(2) [of sample_gic TRAP_IRQ]]
      run_inv_pre [OF inv] by simp
  from scheduler_total [OF this, of sp] show ?thesis
    by (auto simp: irq_deliver_eq w scheduler_is_idle_def)
qed

theorem irq_deliver_wakes_witness:
  "\<exists>s'. irq_deliver 0x06000000 0 1 sample_gic = Inr (Resume, s') \<and> vm_id s' = 1 \<and> \<not> scheduler_idle s'
     \<and> (\<exists>n < 64. get_field (guest_list s' 1 n) 29 28 = 1)"
proof -
  have inv: "run_inv sample_gic" and idle: "scheduler_idle sample_gic"
    using sample_idle_inv
    by (simp_all add: sample_gic_def run_inv_def sched_pre_def guests_ok_def)
  have ctx: "ctx_ok (sys_gic_vctrl sample_gic) (sys_gic_vcpu_if sample_gic) 0x06000000 (hw sample_gic)"
    using sample_ctx_ok by simp
  obtain fl s' where r: "irq_deliver 0x06000000 0 1 sample_gic = Inr (fl, s')"
    using sample_irq_deliver by blast
  from irq_deliver_wakes [OF inv _ _ r] r idle ctx show ?thesis by auto
qed

section \<open>Memory, from boot on\<close>

text \<open>
  C8. The guests' address spaces stay as boot built them: in every state that the guests and
  the hypervisor reach without a page being allocated on demand, the table that is in force for a
  guest, in VTTBR while it runs and in its backup otherwise, translates exactly its 128 MiB at 0
  and at 0x70000000 and the pages of its devices, whatever the guests stored in between.
\<close>

theorem guest_maps_stay:
  assumes "images_fit zImage initrd" and "\<forall>j < 4. pt_region (pt_base j) pt_slots (hw s)"
    and "main zImage initrd s = Inr s0" and "guest_reach s0 t" and "k < 4"
  shows "s2_walk (mem (hw t)) (table_of (active_vttbr t (int k))) y =
    map_option ucast (static_lookup (ram_base k) 0x08000000
      (device_page (uart_base k) (timer_0_base k) (timer_2_base k) 0x50003000 (black_hole k)) y)"
proof -
  obtain s1 where "main zImage initrd s = Inr s1" "confined s1"
    by (rule main_confined [OF assms(1,2)]) blast
  then have "confined t" using guest_reach_confined [OF assms(4)] assms(3) by simp
  from confined_walk [OF this assms(5)] show ?thesis by (simp add: guest_map_lookup [OF assms(5)])
qed

text \<open>A guest that has booted accesses cp14, which traps and is skipped.\<close>

lemma sample_guest_step:
  assumes "confined s" and "\<not> scheduler_idle s"
  obtains t where "guest_step s t" and "vm_id t = vm_id s"
proof -
  let ?h = "(hw s)\<lparr>cp15 := (\<lambda>_. 0x14000000)\<rparr>"
  let ?t = "s\<lparr>hw := rf_elr_hyp_write (rf_elr_hyp_read ?h + 4) ?h\<rparr>"
  have pre: "sched_pre s" using assms(1) run_inv_pre by (simp add: confined_def)
  then have kind: "guest_kind (vm s (vm_id s)) = Realview_PB"
    using sched_pre_vm_id [OF pre] by (simp add: sched_pre_def guests_ok_def)
  have "cp15_read HSR ?h = 0x14000000"
    using cp15_read_whole [of HSR "(5, 4, 2, 0)" ?h]
    by (simp add: cp15_parse_def cp15_cases_def cp15_eval cp15_full_name_alt)
  then have hsr: "get_field (cp15_read HSR ?h) 31 26 = 0x5" by (simp add: get_field_def mask32_def)
  have "hyp_trap_handler hyp_stack (s\<lparr>hw := ?h\<rparr>) = Inr (Resume, ?t)"
    using cp14_trap [of "s\<lparr>hw := ?h\<rparr>" hyp_stack] kind hsr by simp
  moreover have "guest_run (hw s) ?h" by (rule guest_run.computes [OF guest_run.begins]) simp_all
  moreover have "trap_entry ?h ?h" by (simp add: trap_entry_def)
  moreover have "\<not> allocates (s\<lparr>hw := ?h\<rparr>)" using hsr by (simp add: allocates_def)
  ultimately have "guest_step s ?t" using assms(2) by (intro guest_step.trap)
  then show ?thesis by (rule that) simp
qed

theorem guest_maps_stay_witness:
  "\<exists>s0 t. main [] [] sample_meteor = Inr s0 \<and> guest_step s0 t
     \<and> s2_walk (mem (hw t)) (table_of (active_vttbr t 2)) 0x70001234 = Some 0x20001234"
proof -
  obtain s0 where m: "main [] [] sample_meteor = Inr s0" and c: "confined s0" "\<not> scheduler_idle s0"
    by (rule main_confined [OF sample_images sample_tables]) blast
  obtain t where t: "guest_step s0 t" by (rule sample_guest_step [OF c])
  have "guest_reach s0 t" "(2 :: nat) < 4" by (simp_all add: guest_reach.step [OF guest_reach.start t])
  from guest_maps_stay [OF sample_images sample_tables m this, of "0x70001234"] m t
  show ?thesis by (auto simp: static_lookup_def ram_base_def)
qed

text \<open>
  C9. The guests keep to themselves while they run: from any such state, one run of a guest
  with the trap or interrupt that ends it, served without allocating a page on demand but possibly
  with a switch to another guest, changes no byte of the memory of any other guest, and while the
  hypervisor is idle none of any guest. Of the memory that is modelled below 0x10000000, the
  tables and the registers pushed on the hypervisor's stack, it changes the pushed registers only;
  the variables and stack frames of the C code, which lie there too, are not part of it.
\<close>

theorem guests_keep_to_their_memory:
  assumes "images_fit zImage initrd" and "\<forall>j < 4. pt_region (pt_base j) pt_slots (hw s)"
    and "main zImage initrd s = Inr s0" and "guest_reach s0 t" and "guest_step t t'"
  shows "(\<forall>j y. j < 4 \<longrightarrow> scheduler_idle t \<or> int j \<noteq> vm_id t \<longrightarrow> y < 0x08000000 \<longrightarrow>
      mem (hw t') (ram_base j + y) = mem (hw t) (ram_base j + y))
    \<and> (\<forall>p. p < 0x10000000 \<longrightarrow> p \<notin> area 0x05FFFFC8 56 \<longrightarrow> mem (hw t') p = mem (hw t) p)"
proof -
  obtain s1 where "main zImage initrd s = Inr s1" "confined s1"
    by (rule main_confined [OF assms(1,2)]) blast
  then have c: "confined t" using guest_reach_confined [OF assms(4)] assms(3) by simp
  then have "0 \<le> vm_id t" "vm_id t < 4"
    using sched_pre_vm_id [OF run_inv_pre, of t] by (simp_all add: confined_def)
  then obtain k where k: "k < 4" "int k = vm_id t"
    by (metis nat_0_le of_nat_less_iff of_nat_numeral)
  have same: "mem (hw t') p = mem (hw t) p" if "p \<notin> run_area t" "p \<notin> handler_area" for p
    using guest_step_effect [OF assms(5) c] that by (simp add: touches_def)
  have "mem (hw t') (ram_base j + y) = mem (hw t) (ram_base j + y)"
    if "j < 4" "scheduler_idle t \<or> int j \<noteq> vm_id t" "y < 0x08000000" for j y
  proof (rule same)
    show "ram_base j + y \<notin> run_area t"
      using ram_apart(2) [OF that(1,3) k(1)] that(2) by (auto simp: run_area_def simp flip: k(2))
  qed (rule ram_apart(1) [OF that(1,3)])
  moreover have "mem (hw t') p = mem (hw t) p" if "p < 0x10000000" "p \<notin> area 0x05FFFFC8 56" for p
    using low_memory_apart [OF that] k(1) by (intro same) (auto simp: run_area_def simp flip: k(2))
  ultimately show ?thesis by blast
qed

theorem guests_keep_to_their_memory_witness:
  "\<exists>s0 t. main [] [] sample_meteor = Inr s0 \<and> guest_step s0 t
     \<and> mem (hw t) 0x18000000 = mem (hw s0) 0x18000000 \<and> mem (hw t) 0x08000000 = mem (hw s0) 0x08000000"
proof -
  obtain s0 where m: "main [] [] sample_meteor = Inr s0" and c: "confined s0" "\<not> scheduler_idle s0"
      "vm_id s0 = 0"
    by (rule main_confined [OF sample_images sample_tables]) blast
  obtain t where t: "guest_step s0 t" by (rule sample_guest_step [OF c(1,2)])
  note iso = guests_keep_to_their_memory [OF sample_images sample_tables m guest_reach.start t]
  have "mem (hw t) (ram_base 1 + 0) = mem (hw s0) (ram_base 1 + 0)"
    using conjunct1 [OF iso, rule_format, of 1 0] c(3) by simp
  moreover have "mem (hw t) 0x08000000 = mem (hw s0) 0x08000000"
    using conjunct2 [OF iso, rule_format, of "0x08000000"] by (simp add: area_def)
  ultimately show ?thesis using m t by (auto simp: ram_base_def)
qed

text \<open>
  C10. The allocator's books are well formed in every reachable state: the count of used pages
  is the number of slots in use, every slot in use belongs to one of the four guests, and the
  cursor of the search lies in the table.
\<close>

theorem allocator_books_exact:
  assumes "images_fit zImage initrd" and "\<forall>j < 4. pt_region (pt_base j) pt_slots (hw s)"
    and "last_i s < PAGE_COUNT" and "main zImage initrd s = Inr s0" and "reachable s0 t"
  shows "unat (alloc_count (sys_mem_allocator t)) = card {j. j < PAGE_COUNT \<and> target_vm (sys_mem_allocator t) j \<noteq> -1}
    \<and> (\<forall>j < PAGE_COUNT. target_vm (sys_mem_allocator t) j \<in> {-1, 0, 1, 2, 3})
    \<and> alloc_mem_base (sys_mem_allocator t) = 0x10000000 \<and> last_i t < PAGE_COUNT"
proof -
  obtain s1 where "main zImage initrd s = Inr s1" "run_inv s1" by (rule main_boots [OF assms(1,2)]) blast
  then have "run_inv s0" using assms(4) by simp
  from reachable_alloc [OF assms(5) this main_alloc_ok [OF assms(4,3)]]
  show ?thesis by (simp add: alloc_ok_def alloc_wf_def)
qed

theorem allocator_books_exact_witness:
  "\<exists>s0. main [] [] sample_meteor = Inr s0 \<and> last_i s0 < PAGE_COUNT
     \<and> unat (alloc_count (sys_mem_allocator s0))
       = card {j. j < PAGE_COUNT \<and> target_vm (sys_mem_allocator s0) j \<noteq> -1}"
proof -
  obtain s0 where m: "main [] [] sample_meteor = Inr s0"
    by (rule main_confined [OF sample_images sample_tables]) blast
  have "last_i sample_meteor < PAGE_COUNT" by (simp add: sample_meteor_def PAGE_COUNT_eq)
  from allocator_books_exact [OF sample_images sample_tables this m reachable.start] m
  show ?thesis by blast
qed

end
